theory Spec2Isabelle
  imports Complex_Main "HOL-Library.Word"
begin

unbundle bit_operations_syntax

section \<open>timpris2influx: the canvas handler of \<open>run\<close> and the Go operations it calls\<close>

text \<open>
  The program is one file, \<open>main.go\<close>. Its function \<open>run\<close> registers a callback for
  every \<open>canvas\<close> element of the fetched page. The callback decodes two base64/JSON
  attributes, builds one InfluxDB point per value of the first series, optionally inserts
  one row per value into a MariaDB table, and finally writes the batch of points.

  Go strings and byte slices are modelled as \<open>string\<close> (a list of 8-bit characters),
  Go \<open>int\<close> as \<open>int\<close> (the program runs on a 64-bit platform; the only place where the
  width matters is the conversion \<open>int(price*100)\<close>, written out below), \<open>float64\<close> as
  its IEEE 754 bit pattern, a \<open>64 word\<close>.
\<close>

subsection \<open>Errors and panics\<close>

datatype go_error =
    CorruptInputError       \<comment> \<open>encoding/base64\<close>
  | SyntaxError             \<comment> \<open>encoding/json: the input is not JSON\<close>
  | UnmarshalTypeError      \<comment> \<open>encoding/json: a JSON value does not fit the Go type\<close>
  | ExternalError string    \<comment> \<open>an error reported by the InfluxDB client or the SQL driver\<close>

datatype panic_value =
    PanicError go_error             \<comment> \<open>\<open>panic(err)\<close>\<close>
  | IndexOutOfRange int int         \<comment> \<open>runtime error: index out of range [i] with length n\<close>
  | NilPointerDereference           \<comment> \<open>runtime error: invalid memory address or nil pointer dereference\<close>

datatype outcome = Returned | Panicked panic_value

subsection \<open>\<open>base64.StdEncoding.DecodeString\<close>\<close>

text \<open>
  The standard alphabet with \<open>=\<close> padding. Carriage returns and line feeds are ignored
  wherever they stand; the input is then a sequence of four-character quanta, of which only
  the last may end in one or two padding characters. The decoder is not strict: the unused
  low bits of a padded quantum are not checked. The offset carried by Go's
  \<open>CorruptInputError\<close> is not modelled.
\<close>

definition b64_index :: "char \<Rightarrow> int option" where
  "b64_index c =
     (let n = of_char c :: int in
      if 65 \<le> n \<and> n \<le> 90 then Some (n - 65)
      else if 97 \<le> n \<and> n \<le> 122 then Some (n - 71)
      else if 48 \<le> n \<and> n \<le> 57 then Some (n + 4)
      else if n = 43 then Some 62
      else if n = 47 then Some 63
      else None)"

definition quantum_bytes :: "int \<Rightarrow> int \<Rightarrow> int \<Rightarrow> int \<Rightarrow> string" where
  "quantum_bytes x0 x1 x2 x3 =
     (let val = x0 * 262144 + x1 * 4096 + x2 * 64 + x3
      in [char_of (val div 65536), char_of (val div 256), char_of val])"

definition fullQuantum :: "char \<Rightarrow> char \<Rightarrow> char \<Rightarrow> char \<Rightarrow> string option" where
  "fullQuantum a b c d =
     (case (b64_index a, b64_index b, b64_index c, b64_index d) of
        (Some x0, Some x1, Some x2, Some x3) \<Rightarrow> Some (quantum_bytes x0 x1 x2 x3)
      | _ \<Rightarrow> None)"

definition lastQuantum :: "char \<Rightarrow> char \<Rightarrow> char \<Rightarrow> char \<Rightarrow> go_error + string" where
  "lastQuantum a b c d =
     (case (b64_index a, b64_index b, b64_index c) of
        (Some x0, Some x1, Some x2) \<Rightarrow>
          (if d = CHR ''='' then Inr (take 2 (quantum_bytes x0 x1 x2 0))
           else Inl CorruptInputError)
      | (Some x0, Some x1, None) \<Rightarrow>
          (if c = CHR ''='' \<and> d = CHR ''='' then Inr (take 1 (quantum_bytes x0 x1 0 0))
           else Inl CorruptInputError)
      | _ \<Rightarrow> Inl CorruptInputError)"

fun decodeQuanta :: "string \<Rightarrow> go_error + string" where
  "decodeQuanta (a # b # c # d # rest) =
     (case fullQuantum a b c d of
        Some bs \<Rightarrow> (case decodeQuanta rest of Inl e \<Rightarrow> Inl e | Inr bs' \<Rightarrow> Inr (bs @ bs'))
      | None \<Rightarrow> (if rest = [] then lastQuantum a b c d else Inl CorruptInputError))"
| "decodeQuanta [] = Inr []"
| "decodeQuanta _ = Inl CorruptInputError"

definition base64_DecodeString :: "string \<Rightarrow> go_error + string" where
  "base64_DecodeString s =
     decodeQuanta (filter (\<lambda>c. c \<noteq> CHR 0x0A \<and> c \<noteq> CHR 0x0D) s)"

subsection \<open>JSON text: the grammar accepted by \<open>encoding/json\<close>\<close>

datatype json =
    JNull
  | JBool bool
  | JNumber string                      \<comment> \<open>the literal, as written\<close>
  | JString string                      \<comment> \<open>the unquoted bytes\<close>
  | JArray "json list"
  | JObject "(string \<times> json) list"     \<comment> \<open>members in the order written, duplicates kept\<close>

datatype token =
    TBeginArray | TEndArray | TBeginObject | TEndObject | TColon | TComma
  | TLit json                           \<comment> \<open>a string, a number, \<open>true\<close>, \<open>false\<close> or \<open>null\<close>\<close>

definition isSpace :: "char \<Rightarrow> bool" where
  "isSpace c \<longleftrightarrow> c = CHR '' '' \<or> c = CHR 0x09 \<or> c = CHR 0x0D \<or> c = CHR 0x0A"

definition isDigit :: "char \<Rightarrow> bool" where
  "isDigit c \<longleftrightarrow> (48::int) \<le> of_char c \<and> of_char c \<le> (57::int)"

definition hexval :: "char \<Rightarrow> int option" where
  "hexval c =
     (let n = of_char c :: int in
      if 48 \<le> n \<and> n \<le> 57 then Some (n - 48)
      else if 97 \<le> n \<and> n \<le> 102 then Some (n - 87)
      else if 65 \<le> n \<and> n \<le> 70 then Some (n - 55)
      else None)"

text \<open>
  \<open>string_len k s\<close>: \<open>s\<close> is the input after an opening quote. The result is the number
  of characters up to and including the closing quote. \<open>k\<close> is the scanner's state:
  0 inside the string, 1 after a backslash, 2 to 5 when that many hexadecimal digits of a
  \<open>\u\<close> escape are still expected.
\<close>

fun string_len :: "nat \<Rightarrow> string \<Rightarrow> nat option" where
  "string_len k [] = None"
| "string_len k (c # cs) =
     (if k = 0 then
        (if c = CHR 0x22 then Some 1
         else if c = CHR 0x5C then map_option Suc (string_len 1 cs)
         else if (of_char c :: int) < 32 then None
         else map_option Suc (string_len 0 cs))
      else if k = 1 then
        (if c \<in> set ''bfnrt/'' \<or> c = CHR 0x5C \<or> c = CHR 0x22
         then map_option Suc (string_len 0 cs)
         else if c = CHR ''u'' then map_option Suc (string_len 5 cs)
         else None)
      else
        (if hexval c = None then None
         else map_option Suc (string_len (if k = 2 then 0 else k - 1) cs)))"

text \<open>
  \<open>number_len s\<close>: the length of the number literal at the start of \<open>s\<close>: an optional
  minus sign, then \<open>0\<close> or a digit sequence without a leading zero, then an optional
  fraction and an optional exponent, each with at least one digit.
\<close>

definition number_len :: "string \<Rightarrow> nat option" where
  "number_len s =
     (let s1 = (if take 1 s = ''-'' then drop 1 s else s);
          ds = takeWhile isDigit s1;
          s2 = dropWhile isDigit s1
      in if ds = [] \<or> (take 1 ds = ''0'' \<and> length ds > 1) then None
         else
           (let fs = takeWhile isDigit (drop 1 s2);
                hasFrac = (take 1 s2 = ''.'');
                s3 = (if hasFrac then dropWhile isDigit (drop 1 s2) else s2)
            in if hasFrac \<and> fs = [] then None
               else
                 (let hasExp = (take 1 s3 = ''e'' \<or> take 1 s3 = ''E'');
                      s4 = drop 1 s3;
                      s5 = (if take 1 s4 = ''+'' \<or> take 1 s4 = ''-'' then drop 1 s4 else s4);
                      es = takeWhile isDigit s5;
                      s6 = (if hasExp then dropWhile isDigit s5 else s3)
                  in if hasExp \<and> es = [] then None
                     else Some (length s - length s6))))"

text \<open>
  \<open>unquote\<close>: the bytes of a string literal's content. Escapes are replaced; a
  \<open>\u\<close> escape becomes the UTF-8 encoding of its code point, two escapes forming a
  surrogate pair become one code point, and a lone surrogate becomes U+FFFD. Bytes that are
  not well-formed UTF-8 are replaced, one by one, by the encoding of U+FFFD.
\<close>

definition byte_at :: "string \<Rightarrow> nat \<Rightarrow> int" where
  "byte_at s i = (if i < length s then of_char (s ! i) else - 1)"

definition isCont :: "int \<Rightarrow> bool" where
  "isCont n \<longleftrightarrow> 128 \<le> n \<and> n \<le> 191"

definition runeLen :: "string \<Rightarrow> nat" where
  "runeLen s =
     (let b0 = byte_at s 0; b1 = byte_at s 1; b2 = byte_at s 2; b3 = byte_at s 3 in
      if 0 \<le> b0 \<and> b0 < 128 then 1
      else if 194 \<le> b0 \<and> b0 \<le> 223 then (if isCont b1 then 2 else 0)
      else if 224 \<le> b0 \<and> b0 \<le> 239 then
        (if (if b0 = 224 then 160 else 128) \<le> b1 \<and> b1 \<le> (if b0 = 237 then 159 else 191)
            \<and> isCont b2 then 3 else 0)
      else if 240 \<le> b0 \<and> b0 \<le> 244 then
        (if (if b0 = 240 then 144 else 128) \<le> b1 \<and> b1 \<le> (if b0 = 244 then 143 else 191)
            \<and> isCont b2 \<and> isCont b3 then 4 else 0)
      else 0)"

definition encodeRune :: "int \<Rightarrow> string" where
  "encodeRune r =
     (if r < 128 then [char_of r]
      else if r < 2048 then [char_of (192 + r div 64), char_of (128 + r mod 64)]
      else if r < 65536 then
        [char_of (224 + r div 4096), char_of (128 + r div 64 mod 64), char_of (128 + r mod 64)]
      else
        [char_of (240 + r div 262144), char_of (128 + r div 4096 mod 64),
         char_of (128 + r div 64 mod 64), char_of (128 + r mod 64)])"

definition getu4 :: "string \<Rightarrow> int" where
  "getu4 s =
     (case map hexval (take 4 s) of
        [Some a, Some b, Some c, Some d] \<Rightarrow> a * 4096 + b * 256 + c * 16 + d
      | _ \<Rightarrow> - 1)"

text \<open>
  \<open>unquote_u s\<close>: \<open>s\<close> follows \<open>\u\<close>. The result is the bytes written and the number
  of characters of \<open>s\<close> consumed (4, or 10 for a surrogate pair).
\<close>

definition unquote_u :: "string \<Rightarrow> string \<times> nat" where
  "unquote_u s =
     (let rr = getu4 s;
          rr1 = (if take 2 (drop 4 s) = [CHR 0x5C, CHR ''u''] then getu4 (drop 6 s) else - 1)
      in if 55296 \<le> rr \<and> rr < 57344 then
           (if rr < 56320 \<and> 56320 \<le> rr1 \<and> rr1 < 57344
            then (encodeRune ((rr - 55296) * 1024 + (rr1 - 56320) + 65536), 10)
            else (encodeRune 65533, 4))
         else (encodeRune rr, 4))"

definition unescape :: "char \<Rightarrow> char" where
  "unescape e =
     (if e = CHR ''b'' then CHR 0x08
      else if e = CHR ''f'' then CHR 0x0C
      else if e = CHR ''n'' then CHR 0x0A
      else if e = CHR ''r'' then CHR 0x0D
      else if e = CHR ''t'' then CHR 0x09
      else e)"

function unquote :: "string \<Rightarrow> string" where
  "unquote [] = []"
| "unquote (c # cs) =
     (if c = CHR 0x5C then
        (case cs of
           [] \<Rightarrow> []
         | e # cs' \<Rightarrow>
             (if e = CHR ''u''
              then fst (unquote_u cs') @ unquote (drop (snd (unquote_u cs')) cs')
              else unescape e # unquote cs'))
      else if (of_char c :: int) < 128 then c # unquote cs
      else if runeLen (c # cs) = 0 then encodeRune 65533 @ unquote cs
      else take (runeLen (c # cs)) (c # cs) @ unquote (drop (runeLen (c # cs) - 1) cs))"
  by pat_completeness auto
termination
  by (relation "measure length") auto

function lex :: "string \<Rightarrow> token list option" where
  "lex [] = Some []"
| "lex (c # cs) =
     (if isSpace c then lex cs
      else if c = CHR ''['' then map_option (Cons TBeginArray) (lex cs)
      else if c = CHR '']'' then map_option (Cons TEndArray) (lex cs)
      else if c = CHR ''{'' then map_option (Cons TBeginObject) (lex cs)
      else if c = CHR ''}'' then map_option (Cons TEndObject) (lex cs)
      else if c = CHR '':'' then map_option (Cons TColon) (lex cs)
      else if c = CHR '','' then map_option (Cons TComma) (lex cs)
      else if c = CHR 0x22 then
        (case string_len 0 cs of
           None \<Rightarrow> None
         | Some n \<Rightarrow>
             map_option (Cons (TLit (JString (unquote (take (n - 1) cs))))) (lex (drop n cs)))
      else if c = CHR ''-'' \<or> isDigit c then
        (case number_len (c # cs) of
           None \<Rightarrow> None
         | Some n \<Rightarrow>
             map_option (Cons (TLit (JNumber (take n (c # cs))))) (lex (drop (n - 1) cs)))
      else if take 4 (c # cs) = ''true'' then
        map_option (Cons (TLit (JBool True))) (lex (drop 3 cs))
      else if take 5 (c # cs) = ''false'' then
        map_option (Cons (TLit (JBool False))) (lex (drop 4 cs))
      else if take 4 (c # cs) = ''null'' then
        map_option (Cons (TLit JNull)) (lex (drop 3 cs))
      else None)"
  by pat_completeness auto
termination
  by (relation "measure length") auto

text \<open>
  The parser is the scanner's stack machine: one frame per open array or object, at most
  10000 of them (\<open>maxNestingDepth\<close>).
\<close>

datatype frame =
    InArray "json list"                         \<comment> \<open>elements so far, last first\<close>
  | InObject "(string \<times> json) list"            \<comment> \<open>members so far, last first\<close>
  | InMember "(string \<times> json) list" string     \<comment> \<open>a key has been read, its value is due\<close>

datatype pstate =
    BeginValue | BeginValueOrEmpty | BeginStringOrEmpty | BeginString
  | ObjectKey | EndValue | EndTop json

definition endValue :: "json \<Rightarrow> frame list \<Rightarrow> (pstate \<times> frame list) option" where
  "endValue v st =
     (case st of
        [] \<Rightarrow> Some (EndTop v, [])
      | InArray es # st' \<Rightarrow> Some (EndValue, InArray (v # es) # st')
      | InMember ms k # st' \<Rightarrow> Some (EndValue, InObject ((k, v) # ms) # st')
      | InObject ms # st' \<Rightarrow> None)"

definition maxNestingDepth :: int where
  "maxNestingDepth = 10000"

definition step :: "pstate \<Rightarrow> frame list \<Rightarrow> int \<Rightarrow> token \<Rightarrow> (pstate \<times> frame list \<times> int) option" where
  "step ps st depth t =
     (let fin = (\<lambda>v st'. map_option (\<lambda>(ps', st''). (ps', st'', depth - 1)) (endValue v st')) in
      if ps = BeginValue \<or> ps = BeginValueOrEmpty then
        (case t of
           TLit v \<Rightarrow> map_option (\<lambda>(ps', st'). (ps', st', depth)) (endValue v st)
         | TBeginArray \<Rightarrow>
             (if depth + 1 \<le> maxNestingDepth
              then Some (BeginValueOrEmpty, InArray [] # st, depth + 1) else None)
         | TBeginObject \<Rightarrow>
             (if depth + 1 \<le> maxNestingDepth
              then Some (BeginStringOrEmpty, InObject [] # st, depth + 1) else None)
         | TEndArray \<Rightarrow>
             (case st of
                InArray es # st' \<Rightarrow> (if ps = BeginValueOrEmpty then fin (JArray (rev es)) st' else None)
              | _ \<Rightarrow> None)
         | _ \<Rightarrow> None)
      else if ps = BeginStringOrEmpty \<or> ps = BeginString then
        (case (t, st) of
           (TLit (JString k), InObject ms # st') \<Rightarrow> Some (ObjectKey, InMember ms k # st', depth)
         | (TEndObject, InObject ms # st') \<Rightarrow>
             (if ps = BeginStringOrEmpty then fin (JObject (rev ms)) st' else None)
         | _ \<Rightarrow> None)
      else if ps = ObjectKey then
        (case t of TColon \<Rightarrow> Some (BeginValue, st, depth) | _ \<Rightarrow> None)
      else if ps = EndValue then
        (case (t, st) of
           (TComma, InArray es # st') \<Rightarrow> Some (BeginValue, st, depth)
         | (TComma, InObject ms # st') \<Rightarrow> Some (BeginString, st, depth)
         | (TEndArray, InArray es # st') \<Rightarrow> fin (JArray (rev es)) st'
         | (TEndObject, InObject ms # st') \<Rightarrow> fin (JObject (rev ms)) st'
         | _ \<Rightarrow> None)
      else None)"

fun parse :: "pstate \<Rightarrow> frame list \<Rightarrow> int \<Rightarrow> token list \<Rightarrow> json option" where
  "parse ps st depth [] = (case ps of EndTop v \<Rightarrow> Some v | _ \<Rightarrow> None)"
| "parse ps st depth (t # ts) =
     (case step ps st depth t of
        None \<Rightarrow> None
      | Some (ps', st', depth') \<Rightarrow> parse ps' st' depth' ts)"

definition json_parse :: "string \<Rightarrow> go_error + json" where
  "json_parse data =
     (case lex data of
        None \<Rightarrow> Inl SyntaxError
      | Some ts \<Rightarrow> (case parse BeginValue [] 0 ts of None \<Rightarrow> Inl SyntaxError | Some v \<Rightarrow> Inr v))"

subsection \<open>\<open>float64\<close>: IEEE 754 binary64, round to nearest even\<close>

type_synonym float64 = "64 word"

text \<open>
  Bit 63 is the sign, bits 62 to 52 the biased exponent, bits 51 to 0 the fraction. A
  finite value is \<open>mantissa * 2 ^ exponent\<close>, negated when the sign bit is set.
\<close>

definition f64_neg :: "float64 \<Rightarrow> bool" where
  "f64_neg x \<longleftrightarrow> 2 ^ 63 \<le> uint x"

definition f64_biased :: "float64 \<Rightarrow> int" where
  "f64_biased x = uint x div 2 ^ 52 mod 2048"

definition f64_fraction :: "float64 \<Rightarrow> int" where
  "f64_fraction x = uint x mod 2 ^ 52"

definition f64_isNaN :: "float64 \<Rightarrow> bool" where
  "f64_isNaN x \<longleftrightarrow> f64_biased x = 2047 \<and> f64_fraction x \<noteq> 0"

definition f64_isInf :: "float64 \<Rightarrow> bool" where
  "f64_isInf x \<longleftrightarrow> f64_biased x = 2047 \<and> f64_fraction x = 0"

definition f64_finite :: "float64 \<Rightarrow> bool" where
  "f64_finite x \<longleftrightarrow> f64_biased x \<noteq> 2047"

definition f64_mantissa :: "float64 \<Rightarrow> int" where
  "f64_mantissa x = (if f64_biased x = 0 then f64_fraction x else 2 ^ 52 + f64_fraction x)"

definition f64_exponent :: "float64 \<Rightarrow> int" where
  "f64_exponent x = (if f64_biased x = 0 then - 1074 else f64_biased x - 1075)"

definition pow2 :: "int \<Rightarrow> int" where
  "pow2 e = 2 ^ nat e"

definition f64_inf :: "bool \<Rightarrow> float64" where
  "f64_inf neg = (if neg then 0xFFF0000000000000 else 0x7FF0000000000000)"

definition f64_nan :: float64 where
  "f64_nan = 0x7FF8000000000001"

function bitlen :: "int \<Rightarrow> int" where
  "bitlen n = (if n \<le> 0 then 0 else 1 + bitlen (n div 2))"
  by pat_completeness auto
termination
  by (relation "measure nat") auto

declare bitlen.simps [simp del]

text \<open>
  \<open>round_float64 neg num den\<close>: the binary64 value nearest to the rational
  \<open>num / den\<close> (\<open>0 \<le> num\<close>, \<open>0 < den\<close>), ties to the even mantissa, with the given sign;
  \<open>None\<close> when the rounded value is out of range. \<open>e\<close> is the exponent of the leading
  bit of the quotient, \<open>q\<close> the exponent of the last mantissa bit (never below that of the
  subnormals).
\<close>

definition round_float64 :: "bool \<Rightarrow> int \<Rightarrow> int \<Rightarrow> float64 option" where
  "round_float64 neg num den =
     (let sign = (if neg then 2 ^ 63 else 0) in
      if num = 0 then Some (word_of_int sign)
      else
        (let e0 = bitlen num - bitlen den;
             e = (if (if 0 \<le> e0 then den * pow2 e0 \<le> num else den \<le> num * pow2 (- e0))
                  then e0 else e0 - 1);
             q = max e (- 1022) - 52;
             n = (if 0 \<le> q then num else num * pow2 (- q));
             d = (if 0 \<le> q then den * pow2 q else den);
             m = n div d;
             r = n mod d;
             m' = (if d < 2 * r \<or> (2 * r = d \<and> odd m) then m + 1 else m);
             bits = (q + 1074) * 2 ^ 52 + m'
         in if 2047 * 2 ^ 52 \<le> bits then None else Some (word_of_int (sign + bits))))"

text \<open>
  The product of two \<open>float64\<close> values: the exact product, rounded. The payload of a NaN
  result is not modelled (every NaN result is \<open>f64_nan\<close>).
\<close>

definition f64_mul :: "float64 \<Rightarrow> float64 \<Rightarrow> float64" where
  "f64_mul x y =
     (let neg = (f64_neg x \<noteq> f64_neg y) in
      if f64_isNaN x \<or> f64_isNaN y then f64_nan
      else if f64_isInf x \<or> f64_isInf y then
        (if (f64_finite x \<and> f64_mantissa x = 0) \<or> (f64_finite y \<and> f64_mantissa y = 0)
         then f64_nan else f64_inf neg)
      else
        (let m = f64_mantissa x * f64_mantissa y;
             e = f64_exponent x + f64_exponent y
         in case (if 0 \<le> e then round_float64 neg (m * pow2 e) 1
                  else round_float64 neg m (pow2 (- e))) of
              None \<Rightarrow> f64_inf neg
            | Some r \<Rightarrow> r))"

text \<open>
  The conversion \<open>int(x)\<close> of a \<open>float64\<close> to Go's 64-bit \<open>int\<close> discards the fraction
  (truncation towards zero). When the value is a NaN, an infinity or outside the range of
  \<open>int\<close>, the language leaves the result to the implementation: \<open>impl\<close> is that
  choice.
\<close>

definition f64_trunc :: "float64 \<Rightarrow> int" where
  "f64_trunc x =
     (let a = (if 0 \<le> f64_exponent x then f64_mantissa x * pow2 (f64_exponent x)
               else f64_mantissa x div pow2 (- f64_exponent x))
      in if f64_neg x then - a else a)"

definition float64_to_int :: "(float64 \<Rightarrow> int) \<Rightarrow> float64 \<Rightarrow> int" where
  "float64_to_int impl x =
     (if f64_finite x \<and> - (2 ^ 63) \<le> f64_trunc x \<and> f64_trunc x < 2 ^ 63
      then f64_trunc x else impl x)"

text \<open>The untyped constant \<open>100\<close> in \<open>price*100\<close> is the \<open>float64\<close> 100.\<close>

definition f64_100 :: float64 where
  "f64_100 = 0x4059000000000000"

subsection \<open>\<open>strconv\<close>: number literals\<close>

definition digits_val :: "string \<Rightarrow> int" where
  "digits_val ds = foldl (\<lambda>a c. 10 * a + (of_char c - 48)) 0 ds"

text \<open>
  \<open>strconv.ParseInt(s, 10, 64)\<close> on a JSON number literal: the literal must be an
  optional minus sign and digits, and the value must fit 64 bits.
\<close>

definition strconv_ParseInt :: "string \<Rightarrow> int option" where
  "strconv_ParseInt s =
     (let neg = (take 1 s = ''-'');
          ds = (if neg then drop 1 s else s);
          v = (if neg then - digits_val ds else digits_val ds)
      in if ds \<noteq> [] \<and> list_all isDigit ds \<and> - (2 ^ 63) \<le> v \<and> v < 2 ^ 63
         then Some v else None)"

text \<open>
  \<open>strconv.ParseFloat(s, 64)\<close> on a JSON number literal: the nearest \<open>float64\<close> to
  the decimal value, \<open>None\<close> (a range error) when that is an infinity. A literal is
  \<open>mantissa * 10 ^ exp10\<close>.
\<close>

definition decimal_parts :: "string \<Rightarrow> bool \<times> int \<times> int" where
  "decimal_parts s =
     (let neg = (take 1 s = ''-'');
          s1 = (if neg then drop 1 s else s);
          ip = takeWhile isDigit s1;
          s2 = dropWhile isDigit s1;
          fp = (if take 1 s2 = ''.'' then takeWhile isDigit (drop 1 s2) else []);
          s3 = (if take 1 s2 = ''.'' then dropWhile isDigit (drop 1 s2) else s2);
          s4 = drop 1 s3;
          ex = (if s3 = [] then 0
                else if take 1 s4 = ''-'' then - digits_val (drop 1 s4)
                else if take 1 s4 = ''+'' then digits_val (drop 1 s4)
                else digits_val s4)
      in (neg, digits_val (ip @ fp), ex - int (length fp)))"

definition strconv_ParseFloat :: "string \<Rightarrow> float64 option" where
  "strconv_ParseFloat s =
     (case decimal_parts s of
        (neg, m, e) \<Rightarrow>
          (if 0 \<le> e then round_float64 neg (m * 10 ^ nat e) 1
           else round_float64 neg m (10 ^ nat (- e))))"

subsection \<open>\<open>json.Unmarshal\<close> into \<open>[]int\<close> and \<open>[]Timpris\<close>\<close>

record Timpris =
  Label :: string
  Data :: "float64 list"
  Borderwidth :: int
  Fill :: bool
  Bordercolor :: string
  Steppedline :: bool

definition zeroTimpris :: Timpris where
  "zeroTimpris =
     \<lparr>Label = [], Data = [], Borderwidth = 0, Fill = False, Bordercolor = [],
      Steppedline = False\<rparr>"

text \<open>
  \<open>Unmarshal\<close> first checks that the whole input is one JSON value, then stores it into
  the Go value. A JSON value that does not fit its Go type is recorded as an error and
  decoding goes on; \<open>Unmarshal\<close> returns the recorded error at the end. Each decoder
  below takes the current Go value and returns the new one and whether an error was
  recorded. \<open>null\<close> leaves a number, a string, a boolean or a struct as it is and sets a
  slice to \<open>nil\<close>.
\<close>

definition decode_int :: "int \<Rightarrow> json \<Rightarrow> int \<times> bool" where
  "decode_int cur j =
     (case j of
        JNumber s \<Rightarrow> (case strconv_ParseInt s of Some n \<Rightarrow> (n, False) | None \<Rightarrow> (cur, True))
      | JNull \<Rightarrow> (cur, False)
      | _ \<Rightarrow> (cur, True))"

definition decode_float64 :: "float64 \<Rightarrow> json \<Rightarrow> float64 \<times> bool" where
  "decode_float64 cur j =
     (case j of
        JNumber s \<Rightarrow> (case strconv_ParseFloat s of Some x \<Rightarrow> (x, False) | None \<Rightarrow> (cur, True))
      | JNull \<Rightarrow> (cur, False)
      | _ \<Rightarrow> (cur, True))"

definition decode_bool :: "bool \<Rightarrow> json \<Rightarrow> bool \<times> bool" where
  "decode_bool cur j =
     (case j of JBool b \<Rightarrow> (b, False) | JNull \<Rightarrow> (cur, False) | _ \<Rightarrow> (cur, True))"

definition decode_string :: "string \<Rightarrow> json \<Rightarrow> string \<times> bool" where
  "decode_string cur j =
     (case j of JString s \<Rightarrow> (s, False) | JNull \<Rightarrow> (cur, False) | _ \<Rightarrow> (cur, True))"

text \<open>
  The elements of a JSON array are decoded into the slice's elements one after the other:
  into the element already there (in the slice or in its backing array, \<open>old\<close>), or into
  a zero element once the backing array is used up.
\<close>

fun decode_elems :: "('a \<Rightarrow> json \<Rightarrow> 'a \<times> bool) \<Rightarrow> 'a \<Rightarrow> 'a list \<Rightarrow> json list \<Rightarrow> 'a list \<times> bool" where
  "decode_elems dec z old [] = ([], False)"
| "decode_elems dec z old (j # js) =
     (case dec (case old of [] \<Rightarrow> z | x # _ \<Rightarrow> x) j of
        (v, e) \<Rightarrow>
          (case decode_elems dec z (tl old) js of (vs, e') \<Rightarrow> (v # vs, e \<or> e')))"

text \<open>
  A \<open>[]float64\<close> field during decoding: the slice and the rest of its backing array.
  An empty JSON array gives a fresh empty slice.
\<close>

definition decode_floats :: "float64 list \<times> float64 list \<Rightarrow> json \<Rightarrow> (float64 list \<times> float64 list) \<times> bool" where
  "decode_floats cur j =
     (case j of
        JArray js \<Rightarrow>
          (case decode_elems decode_float64 0 (fst cur @ snd cur) js of
             (vs, e) \<Rightarrow>
               (if js = [] then (([], []), e)
                else ((vs, drop (length js) (fst cur @ snd cur)), e)))
      | JNull \<Rightarrow> (([], []), False)
      | _ \<Rightarrow> (cur, True))"

text \<open>
  A key of a JSON object selects the struct field whose name it equals, letter case
  ignored. Go folds a key rune by rune to the least rune of its case orbit; the only
  runes outside ASCII that fold to an ASCII letter are U+017F (to \<open>S\<close>) and U+212A (to
  \<open>K\<close>). Every other byte outside ASCII is kept here, which cannot make a key equal to a
  field name.
\<close>

function foldName :: "string \<Rightarrow> string" where
  "foldName [] = []"
| "foldName (c # cs) =
     (if take 2 (c # cs) = [CHR 0xC5, CHR 0xBF] then CHR ''S'' # foldName (drop 1 cs)
      else if take 3 (c # cs) = [CHR 0xE2, CHR 0x84, CHR 0xAA] then CHR ''K'' # foldName (drop 2 cs)
      else if (97::int) \<le> of_char c \<and> of_char c \<le> (122::int)
        then char_of (of_char c - (32::int)) # foldName cs
      else c # foldName cs)"
  by pat_completeness auto
termination
  by (relation "measure length") auto

text \<open>
  The state while an object is decoded into a \<open>Timpris\<close>: the struct, the rest of the
  backing array of its \<open>Data\<close>, and whether an error has been recorded.
\<close>

definition decode_member :: "Timpris \<times> float64 list \<times> bool \<Rightarrow> string \<times> json \<Rightarrow> Timpris \<times> float64 list \<times> bool" where
  "decode_member st kv =
     (case st of
        (t, spare, err) \<Rightarrow>
          (let k = foldName (fst kv); j = snd kv in
           if k = ''LABEL'' then
             (case decode_string (Label t) j of (v, e) \<Rightarrow> (t\<lparr>Label := v\<rparr>, spare, err \<or> e))
           else if k = ''DATA'' then
             (case decode_floats (Data t, spare) j of
                ((v, spare'), e) \<Rightarrow> (t\<lparr>Data := v\<rparr>, spare', err \<or> e))
           else if k = ''BORDERWIDTH'' then
             (case decode_int (Borderwidth t) j of
                (v, e) \<Rightarrow> (t\<lparr>Borderwidth := v\<rparr>, spare, err \<or> e))
           else if k = ''FILL'' then
             (case decode_bool (Fill t) j of (v, e) \<Rightarrow> (t\<lparr>Fill := v\<rparr>, spare, err \<or> e))
           else if k = ''BORDERCOLOR'' then
             (case decode_string (Bordercolor t) j of
                (v, e) \<Rightarrow> (t\<lparr>Bordercolor := v\<rparr>, spare, err \<or> e))
           else if k = ''STEPPEDLINE'' then
             (case decode_bool (Steppedline t) j of
                (v, e) \<Rightarrow> (t\<lparr>Steppedline := v\<rparr>, spare, err \<or> e))
           else st))"

definition decode_Timpris :: "Timpris \<Rightarrow> json \<Rightarrow> Timpris \<times> bool" where
  "decode_Timpris cur j =
     (case j of
        JObject ms \<Rightarrow> (case foldl decode_member (cur, [], False) ms of (t, spare, e) \<Rightarrow> (t, e))
      | JNull \<Rightarrow> (cur, False)
      | _ \<Rightarrow> (cur, True))"

text \<open>
  \<open>json.Unmarshal(data, &v)\<close> for a fresh \<open>var v []T\<close>, given the decoder and the zero
  value of \<open>T\<close>.
\<close>

definition json_Unmarshal :: "('a \<Rightarrow> json \<Rightarrow> 'a \<times> bool) \<Rightarrow> 'a \<Rightarrow> string \<Rightarrow> go_error + 'a list" where
  "json_Unmarshal dec z data =
     (case json_parse data of
        Inl e \<Rightarrow> Inl e
      | Inr j \<Rightarrow>
          (case j of
             JArray js \<Rightarrow>
               (case decode_elems dec z [] js of
                  (vs, e) \<Rightarrow> if e then Inl UnmarshalTypeError else Inr vs)
           | JNull \<Rightarrow> Inr []
           | _ \<Rightarrow> Inl UnmarshalTypeError))"

definition Unmarshal_ints :: "string \<Rightarrow> go_error + int list" where
  "Unmarshal_ints = json_Unmarshal decode_int 0"

definition Unmarshal_Timpris :: "string \<Rightarrow> go_error + Timpris list" where
  "Unmarshal_Timpris = json_Unmarshal decode_Timpris zeroTimpris"

subsection \<open>\<open>fmt\<close> and \<open>time\<close>\<close>

function decimal :: "int \<Rightarrow> string" where
  "decimal n = (if n < 10 then [char_of (48 + n)] else decimal (n div 10) @ [char_of (48 + n mod 10)])"
  by pat_completeness auto
termination
  by (relation "measure nat") auto

declare decimal.simps [simp del]

text \<open>\<open>fmt.Sprintf("%d", n)\<close>\<close>

definition Sprintf_d :: "int \<Rightarrow> string" where
  "Sprintf_d n = (if n < 0 then CHR ''-'' # decimal (- n) else decimal n)"

text \<open>\<open>appendInt\<close> of package \<open>time\<close>: a decimal padded with zeros to a width.\<close>

definition appendInt :: "int \<Rightarrow> nat \<Rightarrow> string" where
  "appendInt x width =
     (let ds = decimal \<bar>x\<bar>
      in (if x < 0 then ''-'' else []) @ replicate (width - length ds) CHR ''0'' @ ds)"

text \<open>
  An instant is its Unix time in seconds (the program only builds instants with zero
  nanoseconds). A \<open>*time.Location\<close> is its lookup function: for a Unix time, the offset
  east of UTC in seconds that is in effect then, and the Unix times at which that offset
  starts and ends to be in effect.
\<close>

type_synonym location = "int \<Rightarrow> int \<times> int \<times> int"

definition isLeap :: "int \<Rightarrow> bool" where
  "isLeap year \<longleftrightarrow> year mod 4 = 0 \<and> (year mod 100 \<noteq> 0 \<or> year mod 400 = 0)"

definition daysBefore :: "int \<Rightarrow> int" where
  "daysBefore m = [0, 31, 59, 90, 120, 151, 181, 212, 243, 273, 304, 334, 365] ! nat m"

text \<open>The number of days from 1 January 1970 to 1 January of a year.\<close>

definition daysSinceEpoch :: "int \<Rightarrow> int" where
  "daysSinceEpoch year =
     (let y = year - 1 in 365 * y + y div 4 - y div 100 + y div 400 - 719162)"

text \<open>
  \<open>time.Date(year, month, day, hour, min, sec, nsec, loc)\<close>: values outside their usual
  ranges are normalised (hour 24 is hour 0 of the next day), the civil time is read as a
  Unix time, and the zone offset found for it is subtracted; when the result lies outside
  the period of that offset, the offset in effect at the result is taken instead.
\<close>

definition time_Date :: "int \<Rightarrow> int \<Rightarrow> int \<Rightarrow> int \<Rightarrow> int \<Rightarrow> int \<Rightarrow> int \<Rightarrow> location \<Rightarrow> int" where
  "time_Date year month day hour minute sec nsec loc =
     (let m = (month - 1) mod 12;
          y = year + (month - 1) div 12;
          sec1 = sec + nsec div 1000000000;
          min1 = minute + sec1 div 60;
          hour1 = hour + min1 div 60;
          day1 = day + hour1 div 24;
          d = daysSinceEpoch y + daysBefore m + (if isLeap y \<and> 3 \<le> m + 1 then 1 else 0)
              + (day1 - 1);
          unix = d * 86400 + (hour1 mod 24) * 3600 + (min1 mod 60) * 60 + sec1 mod 60
      in case loc unix of
           (offset, start, end) \<Rightarrow>
             (if offset \<noteq> 0 then
                (if unix - offset < start \<or> end \<le> unix - offset
                 then unix - fst (loc (unix - offset))
                 else unix - offset)
              else unix))"

text \<open>The civil date (year, month, day) of a day number counted from 1 January 1970.\<close>

definition civil :: "int \<Rightarrow> int \<times> int \<times> int" where
  "civil days =
     (let z = days + 719468;
          era = z div 146097;
          doe = z mod 146097;
          yoe = (doe - doe div 1460 + doe div 36524 - doe div 146096) div 365;
          doy = doe - (365 * yoe + yoe div 4 - yoe div 100);
          mp = (5 * doy + 2) div 153;
          d = doy - (153 * mp + 2) div 5 + 1;
          m = (if mp < 10 then mp + 3 else mp - 9)
      in (yoe + era * 400 + (if m \<le> 2 then 1 else 0), m, d))"

text \<open>\<open>t.Date()\<close> for an instant \<open>t\<close> in a location.\<close>

definition Time_Date :: "int \<Rightarrow> location \<Rightarrow> int \<times> int \<times> int" where
  "Time_Date t loc = civil ((t + fst (loc t)) div 86400)"

text \<open>\<open>t.UTC().Format("2006-01-02 15:04:05")\<close>\<close>

definition UTC_Format :: "int \<Rightarrow> string" where
  "UTC_Format t =
     (case civil (t div 86400) of
        (y, m, d) \<Rightarrow>
          appendInt y 4 @ ''-'' @ appendInt m 2 @ ''-'' @ appendInt d 2 @ '' '' @
          appendInt (t mod 86400 div 3600) 2 @ '':'' @ appendInt (t mod 3600 div 60) 2 @ '':'' @
          appendInt (t mod 60) 2)"

subsection \<open>The page, the configuration and the outside world\<close>

text \<open>
  A \<open>colly.HTMLElement\<close> is its attribute list; \<open>Attr\<close> returns the value of the first
  attribute with the key, or the empty string.
\<close>

type_synonym HTMLElement = "(string \<times> string) list"

definition Attr :: "HTMLElement \<Rightarrow> string \<Rightarrow> string" where
  "Attr e k = (case map_of e k of None \<Rightarrow> [] | Some v \<Rightarrow> v)"

record viper =
  GetString :: "string \<Rightarrow> string"
  GetInt :: "string \<Rightarrow> int"

definition VERBOSE_DEBUG :: int where
  "VERBOSE_DEBUG = 4"

record Point =
  pt_name :: string
  pt_tags :: "(string \<times> string) list"
  pt_fields :: "(string \<times> float64) list"
  pt_time :: int

record BatchPoints =
  bp_database :: string
  bp_precision :: string
  bp_points :: "Point list"

datatype sqlval = SqlInt int | SqlString string

text \<open>
  What the outside world answers while one callback runs: for each call of the InfluxDB
  client and of \<open>database/sql\<close>, the error it returns (\<open>None\<close> is \<open>nil\<close>); the clock
  and the local time zone; and the platform's result for a \<open>float64\<close> that \<open>int\<close>
  cannot represent.
\<close>

record world =
  NewHTTPClient :: "string \<Rightarrow> string \<Rightarrow> string \<Rightarrow> go_error option"
  sql_Open :: "string \<Rightarrow> string \<Rightarrow> go_error option"
  db_Prepare :: "string \<Rightarrow> go_error option"
  stmt_Exec :: "sqlval list \<Rightarrow> go_error option"
  NewBatchPoints :: "string \<Rightarrow> string \<Rightarrow> go_error option"
  NewPoint :: "Point \<Rightarrow> go_error option"
  client_Write :: "BatchPoints \<Rightarrow> go_error option"
  Now :: int
  Local :: location
  int_impl :: "float64 \<Rightarrow> int"

text \<open>The calls that reach outside the process, in the order they are made.\<close>

datatype event =
    Println string
  | CallNewHTTPClient string string string
  | CallClientClose
  | CallOpen string string
  | CallDbClose
  | CallPrepare string
  | CallStmtClose
  | CallExec "sqlval list"
  | CallWrite BatchPoints

subsection \<open>The callback of \<open>c.OnHTML("canvas", ...)\<close>\<close>

definition insert_query :: string where
  "insert_query =
     ''INSERT INTO pricesbyhour(year,month,day,hour,epoch,area,price) VALUES( ?, ?, ?, ?, ?, ?, ? )''"

text \<open>
  The body of \<open>for hour, price := range prices[0].Data\<close>, iteration by iteration:
  \<open>hour\<close> is the index of the head of the remaining values, \<open>bp\<close> the points added so
  far. The result is the calls made, the points, and how the loop ended.
\<close>

definition mkPoint :: "world \<Rightarrow> int \<times> int \<times> int \<Rightarrow> int \<Rightarrow> float64 \<Rightarrow> Point" where
  "mkPoint w ymd hour price =
     (case ymd of
        (year, month, day) \<Rightarrow>
          \<lparr>pt_name = ''powerprices'',
           pt_tags = [(''hour'', Sprintf_d hour), (''area'', ''SE3'')],
           pt_fields = [(''value'', price)],
           pt_time = time_Date year month day hour 0 0 0 (Local w)\<rparr>)"

definition mkRow :: "world \<Rightarrow> int \<times> int \<times> int \<Rightarrow> int \<Rightarrow> float64 \<Rightarrow> sqlval list" where
  "mkRow w ymd hour price =
     (case ymd of
        (year, month, day) \<Rightarrow>
          [SqlInt year, SqlInt month, SqlInt day, SqlInt hour,
           SqlString (UTC_Format (time_Date year month day hour 0 0 0 (Local w))),
           SqlString ''SE3'',
           SqlInt (float64_to_int (int_impl w) (f64_mul price f64_100))])"

fun loop :: "world \<Rightarrow> bool \<Rightarrow> int \<times> int \<times> int \<Rightarrow> int \<Rightarrow> float64 list \<Rightarrow> Point list
    \<Rightarrow> event list \<times> Point list \<times> outcome" where
  "loop w useMariadb ymd hour [] bp = ([], bp, Returned)"
| "loop w useMariadb ymd hour (price # rest) bp =
     (case NewPoint w (mkPoint w ymd hour price) of
        Some err \<Rightarrow> ([], bp, Panicked (PanicError err))
      | None \<Rightarrow>
          (if useMariadb then
             (case stmt_Exec w (mkRow w ymd hour price) of
                Some err \<Rightarrow>
                  ([CallExec (mkRow w ymd hour price)], bp @ [mkPoint w ymd hour price],
                   Panicked (PanicError err))
              | None \<Rightarrow>
                  (case loop w useMariadb ymd (hour + 1) rest (bp @ [mkPoint w ymd hour price]) of
                     (evs, bp', out) \<Rightarrow> (CallExec (mkRow w ymd hour price) # evs, bp', out)))
           else loop w useMariadb ymd (hour + 1) rest (bp @ [mkPoint w ymd hour price])))"

text \<open>
  From \<open>client.NewBatchPoints\<close> to \<open>c.Write(bp)\<close>. \<open>prices[0]\<close> panics when \<open>prices\<close>
  is empty.
\<close>

definition write_points :: "viper \<Rightarrow> world \<Rightarrow> bool \<Rightarrow> Timpris list \<Rightarrow> event list \<times> outcome" where
  "write_points v w useMariadb prices =
     (case NewBatchPoints w (GetString v ''InfluxDB'') ''h'' of
        Some err \<Rightarrow> ([], Panicked (PanicError err))
      | None \<Rightarrow>
          (case prices of
             [] \<Rightarrow> ([], Panicked (IndexOutOfRange 0 0))
           | p # _ \<Rightarrow>
               (case loop w useMariadb (Time_Date (Now w) (Local w)) 0 (Data p) [] of
                  (evs, bp, Panicked pv) \<Rightarrow> (evs, Panicked pv)
                | (evs, bp, Returned) \<Rightarrow>
                    (let batch = \<lparr>bp_database = GetString v ''InfluxDB'', bp_precision = ''h'',
                                  bp_points = bp\<rparr>
                     in (evs @ [CallWrite batch],
                         case client_Write w batch of
                           Some err \<Rightarrow> Panicked (PanicError err)
                         | None \<Rightarrow> Returned)))))"

text \<open>
  The database handle and the prepared statement, when \<open>MariaDSN\<close> is not empty. The
  error of \<open>sql.Open\<close> is dropped by the program; a failed \<open>Open\<close> leaves \<open>db\<close> nil and
  \<open>db.Prepare\<close> dereferences it. The deferred \<open>stmt.Close()\<close> and \<open>db.Close()\<close> run
  when the callback is left, also by a panic.
\<close>

definition with_db :: "viper \<Rightarrow> world \<Rightarrow> Timpris list \<Rightarrow> event list \<times> outcome" where
  "with_db v w prices =
     (if length (GetString v ''MariaDSN'') > 0 then
        (case sql_Open w ''mysql'' (GetString v ''MariaDSN'') of
           Some err \<Rightarrow>
             ([CallOpen ''mysql'' (GetString v ''MariaDSN'')], Panicked NilPointerDereference)
         | None \<Rightarrow>
             (case db_Prepare w insert_query of
                Some err \<Rightarrow>
                  ([CallOpen ''mysql'' (GetString v ''MariaDSN''), CallPrepare insert_query,
                    CallDbClose],
                   Panicked (PanicError err))
              | None \<Rightarrow>
                  (case write_points v w True prices of
                     (evs, out) \<Rightarrow>
                       ([CallOpen ''mysql'' (GetString v ''MariaDSN''), CallPrepare insert_query]
                          @ evs @ [CallStmtClose, CallDbClose],
                        out))))
      else write_points v w False prices)"

text \<open>The InfluxDB client; the deferred \<open>c.Close()\<close> runs when the callback is left.\<close>

definition with_client :: "viper \<Rightarrow> world \<Rightarrow> Timpris list \<Rightarrow> event list \<times> outcome" where
  "with_client v w prices =
     (let call = CallNewHTTPClient (GetString v ''InfluxServer'') (GetString v ''InfluxUser'')
                   (GetString v ''InfluxPasswd'')
      in case NewHTTPClient w (GetString v ''InfluxServer'') (GetString v ''InfluxUser'')
                (GetString v ''InfluxPasswd'') of
           Some err \<Rightarrow> ([call], Panicked (PanicError err))
         | None \<Rightarrow>
             (case with_db v w prices of (evs, out) \<Rightarrow> (call # evs @ [CallClientClose], out)))"

text \<open>
  The callback: the labels are decoded first, and the callback returns when they do not
  decode; then the datasets are decoded, and the callback panics when they do not.
\<close>

definition handler :: "viper \<Rightarrow> world \<Rightarrow> HTMLElement \<Rightarrow> event list \<times> outcome" where
  "handler v w e =
     (case base64_DecodeString (Attr e ''data-labels'') of
        Inl err \<Rightarrow> ([], Returned)
      | Inr ld \<Rightarrow>
          (case Unmarshal_ints ld of
             Inl err \<Rightarrow> ([], Returned)
           | Inr labels \<Rightarrow>
               (case base64_DecodeString (Attr e ''data-datasets'') of
                  Inl err \<Rightarrow> ([], Panicked (PanicError err))
                | Inr pd \<Rightarrow>
                    (case Unmarshal_Timpris pd of
                       Inl err \<Rightarrow> ([], Panicked (PanicError err))
                     | Inr prices \<Rightarrow> with_client v w prices))))"

subsection \<open>\<open>run\<close>\<close>

text \<open>
  \<open>c.Visit\<close> fetches the page and calls the callback for each \<open>canvas\<close> element, in
  document order; \<open>canvases\<close> are these elements (none when the fetch fails, whose error
  \<open>run\<close> drops). The \<open>k\<close>-th call runs in the world \<open>ws k\<close>. A panic ends the process.
\<close>

fun visit :: "viper \<Rightarrow> (nat \<Rightarrow> world) \<Rightarrow> nat \<Rightarrow> HTMLElement list \<Rightarrow> event list \<times> outcome" where
  "visit v ws k [] = ([], Returned)"
| "visit v ws k (e # es) =
     (case handler v (ws k) e of
        (evs, Panicked pv) \<Rightarrow> (evs, Panicked pv)
      | (evs, Returned) \<Rightarrow> (case visit v ws (Suc k) es of (evs', out) \<Rightarrow> (evs @ evs', out)))"

definition run :: "viper \<Rightarrow> (nat \<Rightarrow> world) \<Rightarrow> HTMLElement list \<Rightarrow> event list \<times> outcome" where
  "run v ws canvases =
     (case visit v ws 0 canvases of
        (evs, out) \<Rightarrow>
          ((if VERBOSE_DEBUG \<le> GetInt v ''verbose''
            then [Println ''Visiting https://elen.nu/dagens-spotpris/se3-stockholm/''] else [])
           @ evs, out))"

section \<open>Vocabulary of the properties\<close>

text \<open>
  A world in which no call of the InfluxDB client or of the SQL driver returns an error.
\<close>

definition cooperative :: "world \<Rightarrow> bool" where
  "cooperative w \<longleftrightarrow>
     (\<forall>a u p. NewHTTPClient w a u p = None) \<and> (\<forall>d s. sql_Open w d s = None) \<and>
     (\<forall>q. db_Prepare w q = None) \<and> (\<forall>r. stmt_Exec w r = None) \<and>
     (\<forall>d p. NewBatchPoints w d p = None) \<and> (\<forall>p. NewPoint w p = None) \<and>
     (\<forall>b. client_Write w b = None)"

text \<open>The calls that concern the relational store.\<close>

fun relational :: "event \<Rightarrow> bool" where
  "relational (CallOpen d s) = True"
| "relational CallDbClose = True"
| "relational (CallPrepare q) = True"
| "relational CallStmtClose = True"
| "relational (CallExec r) = True"
| "relational _ = False"

text \<open>The position of a call in the callback's sequence of calls.\<close>

fun rank :: "event \<Rightarrow> nat" where
  "rank (Println s) = 0"
| "rank (CallNewHTTPClient a u p) = 1"
| "rank (CallOpen d s) = 2"
| "rank (CallPrepare q) = 3"
| "rank (CallExec r) = 4"
| "rank (CallWrite b) = 5"
| "rank CallStmtClose = 6"
| "rank CallDbClose = 7"
| "rank CallClientClose = 8"

text \<open>The relational inserts among the calls.\<close>

fun is_exec :: "event \<Rightarrow> bool" where
  "is_exec (CallExec r) = True"
| "is_exec _ = False"

text \<open>The real number that a finite \<open>float64\<close> denotes.\<close>

definition f64_real :: "float64 \<Rightarrow> real" where
  "f64_real x =
     (if f64_neg x then - 1 else 1) * real_of_int (f64_mantissa x) * 2 powi f64_exponent x"

subsection \<open>An example page\<close>

text \<open>
  A configuration with a given \<open>MariaDSN\<close>; a world without failures on 1 May 2024,
  12:30 local time, two hours east of UTC; and a canvas whose labels are \<open>[0,1]\<close> and
  whose datasets are \<open>[{"label":"SE3","data":[1.23,1.999]}]\<close>.
\<close>

definition demo_viper :: "string \<Rightarrow> viper" where
  "demo_viper dsn =
     \<lparr>GetString = (\<lambda>k. if k = ''MariaDSN'' then dsn
                       else if k = ''InfluxServer'' then ''http://localhost:8086''
                       else if k = ''InfluxDB'' then ''power''
                       else []),
      GetInt = (\<lambda>k. 0)\<rparr>"

definition fixed_zone :: "int \<Rightarrow> location" where
  "fixed_zone offset = (\<lambda>t. (offset, - (2 ^ 63), 2 ^ 63 - 1))"

definition demo_world :: world where
  "demo_world =
     \<lparr>NewHTTPClient = (\<lambda>a u p. None), sql_Open = (\<lambda>d s. None), db_Prepare = (\<lambda>q. None),
      stmt_Exec = (\<lambda>r. None), NewBatchPoints = (\<lambda>d p. None), NewPoint = (\<lambda>p. None),
      client_Write = (\<lambda>b. None), Now = 1714559400,
      Local = fixed_zone 7200, int_impl = (\<lambda>x. - (2 ^ 63))\<rparr>"

definition demo_worlds :: "nat \<Rightarrow> world" where
  "demo_worlds k = demo_world"

definition demo_canvas :: "string \<Rightarrow> string \<Rightarrow> HTMLElement" where
  "demo_canvas labels datasets =
     [(''id'', ''chart''), (''data-labels'', labels), (''data-datasets'', datasets)]"

definition demo_labels :: string where
  "demo_labels = ''WzAsMV0=''"

definition demo_datasets :: string where
  "demo_datasets = ''W3sibGFiZWwiOiJTRTMiLCJkYXRhIjpbMS4yMywxLjk5OV19XQ==''"

definition demo_series :: Timpris where
  "demo_series =
     \<lparr>Label = ''SE3'', Data = [0x3FF3AE147AE147AE, 0x3FFFFBE76C8B4396], Borderwidth = 0,
      Fill = False, Bordercolor = [], Steppedline = False\<rparr>"

subsection \<open>The encoding of a series of prices\<close>

text \<open>
  The program only decodes. The encoding side is written from the words of the
  specification: the base64 text (standard alphabet, padded) of the JSON text of a list
  holding one series.
\<close>

definition b64_char :: "int \<Rightarrow> char" where
  "b64_char n =
     (if n < 26 then char_of (65 + n)
      else if n < 52 then char_of (71 + n)
      else if n < 62 then char_of (n - 4)
      else if n = 62 then CHR ''+''
      else CHR ''/'')"

fun b64_encode :: "string \<Rightarrow> string" where
  "b64_encode (a # b # c # rest) =
     (let x = of_char a * 65536 + of_char b * 256 + of_char c :: int
      in [b64_char (x div 262144), b64_char (x div 4096 mod 64), b64_char (x div 64 mod 64),
          b64_char (x mod 64)] @ b64_encode rest)"
| "b64_encode [a, b] =
     (let x = of_char a * 65536 + of_char b * 256 :: int
      in [b64_char (x div 262144), b64_char (x div 4096 mod 64), b64_char (x div 64 mod 64),
          CHR ''=''])"
| "b64_encode [a] =
     (let x = of_char a * 65536 :: int
      in [b64_char (x div 262144), b64_char (x div 4096 mod 64), CHR ''='', CHR ''=''])"
| "b64_encode [] = []"

text \<open>
  \<open>json_series lits\<close> is the text \<open>[{"data":[l1,...,ln]}]\<close> for the number literals
  \<open>lits\<close>; \<open>number_tokens lits\<close> are the tokens of \<open>l1,...,ln\<close>.
\<close>

fun json_numbers :: "string list \<Rightarrow> string" where
  "json_numbers [] = []"
| "json_numbers [l] = l"
| "json_numbers (l # l' # ls) = l @ '','' @ json_numbers (l' # ls)"

definition json_series :: "string list \<Rightarrow> string" where
  "json_series lits =
     ''[{'' @ [CHR 0x22] @ ''data'' @ [CHR 0x22] @ '':['' @ json_numbers lits @ '']}]''"

fun number_tokens :: "string list \<Rightarrow> token list" where
  "number_tokens [] = []"
| "number_tokens [l] = [TLit (JNumber l)]"
| "number_tokens (l # l' # ls) = TLit (JNumber l) # TComma # number_tokens (l' # ls)"

text \<open>
  A literal stands for a \<open>float64\<close> without loss of precision: it is one JSON number,
  and its decimal value \<open>mantissa * 10 ^ exp10\<close> is the value of the \<open>float64\<close>, with the
  same sign (also when the value is zero).
\<close>

definition literal_value :: "string \<Rightarrow> real" where
  "literal_value lit =
     (case decimal_parts lit of
        (neg, m, e) \<Rightarrow> (if neg then - 1 else 1) * real_of_int m * 10 powi e)"

definition exact_literal :: "string \<Rightarrow> float64 \<Rightarrow> bool" where
  "exact_literal lit x \<longleftrightarrow>
     number_len lit = Some (length lit) \<and> f64_finite x \<and>
     (take 1 lit = ''-'') = f64_neg x \<and> literal_value lit = f64_real x"

section \<open>Properties of the callback\<close>

subsection \<open>The loop and the sequence of calls\<close>

lemma handler_decoded:
  assumes "base64_DecodeString (Attr e ''data-labels'') = Inr ld"
    and "Unmarshal_ints ld = Inr labels"
    and "base64_DecodeString (Attr e ''data-datasets'') = Inr pd"
    and "Unmarshal_Timpris pd = Inr prices"
  shows "handler v w e = with_client v w prices"
  using assms by (simp add: handler_def)

lemma loop_cooperative:
  assumes "\<forall>p. NewPoint w p = None" and "\<forall>r. stmt_Exec w r = None"
  shows "loop w u ymd h vs bp =
           ((if u then map (\<lambda>i. CallExec (mkRow w ymd (h + int i) (vs ! i))) [0..<length vs] else []),
            bp @ map (\<lambda>i. mkPoint w ymd (h + int i) (vs ! i)) [0..<length vs],
            Returned)"
proof (induction vs arbitrary: h bp)
  case Nil
  show ?case by simp
next
  case (Cons x xs)
  have shift: "\<And>f :: nat \<Rightarrow> 'b. map f [0..<Suc (length xs)] = f 0 # map (\<lambda>i. f (Suc i)) [0..<length xs]"
    by (simp add: map_upt_Suc del: upt_Suc)
  show ?case
  proof (cases u)
    case True
    then show ?thesis
      using assms Cons.IH [of "h + 1" "bp @ [mkPoint w ymd h x]"]
      by (simp add: shift add.assoc del: upt_Suc)
  next
    case False
    then show ?thesis
      using assms Cons.IH [of "h + 1" "bp @ [mkPoint w ymd h x]"]
      by (simp add: shift add.assoc del: upt_Suc)
  qed
qed

lemma loop_events:
  "ev \<in> set (fst (loop w u ymd h vs bp)) \<Longrightarrow>
     \<exists>i < length vs. ev = CallExec (mkRow w ymd (h + int i) (vs ! i))"
proof (induction vs arbitrary: h bp)
  case Nil
  then show ?case by simp
next
  case (Cons x xs)
  show ?case
  proof (cases "NewPoint w (mkPoint w ymd h x)")
    case (Some err)
    with Cons.prems show ?thesis by simp
  next
    case None
    show ?thesis
    proof (cases u)
      case False
      with None Cons.prems have "ev \<in> set (fst (loop w u ymd (h + 1) xs (bp @ [mkPoint w ymd h x])))"
        by simp
      from Cons.IH [OF this] obtain i where "i < length xs" "ev = CallExec (mkRow w ymd (h + 1 + int i) (xs ! i))"
        by blast
      then have "Suc i < length (x # xs) \<and> ev = CallExec (mkRow w ymd (h + int (Suc i)) ((x # xs) ! Suc i))"
        by (simp add: algebra_simps)
      then show ?thesis by blast
    next
      case True
      show ?thesis
      proof (cases "stmt_Exec w (mkRow w ymd h x)")
        case (Some err)
        with None True Cons.prems have "ev = CallExec (mkRow w ymd h x)" by simp
        then have "0 < length (x # xs) \<and> ev = CallExec (mkRow w ymd (h + int 0) ((x # xs) ! 0))" by simp
        then show ?thesis by blast
      next
        case N2: None
        with None True Cons.prems
        have "ev = CallExec (mkRow w ymd h x) \<or> ev \<in> set (fst (loop w u ymd (h + 1) xs (bp @ [mkPoint w ymd h x])))"
          by (auto split: prod.splits)
        then show ?thesis
        proof
          assume "ev = CallExec (mkRow w ymd h x)"
          then have "0 < length (x # xs) \<and> ev = CallExec (mkRow w ymd (h + int 0) ((x # xs) ! 0))" by simp
          then show ?thesis by blast
        next
          assume "ev \<in> set (fst (loop w u ymd (h + 1) xs (bp @ [mkPoint w ymd h x])))"
          from Cons.IH [OF this] obtain i where "i < length xs" "ev = CallExec (mkRow w ymd (h + 1 + int i) (xs ! i))"
            by blast
          then have "Suc i < length (x # xs) \<and> ev = CallExec (mkRow w ymd (h + int (Suc i)) ((x # xs) ! Suc i))"
            by (simp add: algebra_simps)
          then show ?thesis by blast
        qed
      qed
    qed
  qed
qed

lemma loop_no_db: "fst (loop w False ymd h vs bp) = []"
  by (induction vs arbitrary: h bp) (simp_all split: option.splits)

lemma write_points_events:
  assumes "ev \<in> set (fst (write_points v w u prices))"
  shows "(\<exists>b. ev = CallWrite b) \<or>
         (u \<and> (\<exists>p ps i. prices = p # ps \<and> i < length (Data p) \<and>
            ev = CallExec (mkRow w (Time_Date (Now w) (Local w)) (int i) (Data p ! i))))"
proof (cases "NewBatchPoints w (GetString v ''InfluxDB'') ''h''")
  case (Some err)
  with assms show ?thesis by (simp add: write_points_def)
next
  case None
  show ?thesis
  proof (cases prices)
    case Nil
    with None assms show ?thesis by (simp add: write_points_def)
  next
    case (Cons p ps)
    define ymd where "ymd = Time_Date (Now w) (Local w)"
    obtain evs bp out where L: "loop w u ymd 0 (Data p) [] = (evs, bp, out)"
      by (cases "loop w u ymd 0 (Data p) []") auto
    have "ev \<in> set evs \<or> (\<exists>b. ev = CallWrite b)"
      using assms None Cons L
      by (cases out) (auto simp: write_points_def ymd_def Let_def)
    then show ?thesis
    proof
      assume "\<exists>b. ev = CallWrite b"
      then show ?thesis by blast
    next
      assume mem: "ev \<in> set evs"
      then have mem': "ev \<in> set (fst (loop w u ymd 0 (Data p) []))" using L by simp
      have u using mem L loop_no_db [of w ymd 0 "Data p" "[]"] by (cases u) auto
      moreover from loop_events [OF mem'] obtain i where
        "i < length (Data p)" "ev = CallExec (mkRow w ymd (0 + int i) (Data p ! i))" by blast
      ultimately show ?thesis using Cons by (auto simp: ymd_def)
    qed
  qed
qed

lemma with_db_events:
  assumes "ev \<in> set (fst (with_db v w prices))"
  shows "(\<exists>b. ev = CallWrite b) \<or>
         (GetString v ''MariaDSN'' \<noteq> [] \<and>
            (ev \<in> {CallOpen ''mysql'' (GetString v ''MariaDSN''), CallPrepare insert_query,
                    CallStmtClose, CallDbClose} \<or>
             (\<exists>p ps i. prices = p # ps \<and> i < length (Data p) \<and>
                ev = CallExec (mkRow w (Time_Date (Now w) (Local w)) (int i) (Data p ! i)))))"
proof (cases "GetString v ''MariaDSN'' = []")
  case True
  with assms have "ev \<in> set (fst (write_points v w False prices))"
    by (simp add: with_db_def)
  from write_points_events [OF this] show ?thesis by simp
next
  case False
  show ?thesis
  proof (cases "sql_Open w ''mysql'' (GetString v ''MariaDSN'')")
    case (Some err)
    with assms False show ?thesis by (simp add: with_db_def)
  next
    case None
    show ?thesis
    proof (cases "db_Prepare w insert_query")
      case (Some err)
      with assms False None show ?thesis by (auto simp: with_db_def)
    next
      case P: None
      obtain evs out where W: "write_points v w True prices = (evs, out)"
        by (cases "write_points v w True prices") auto
      from assms False None P W
      have "ev \<in> {CallOpen ''mysql'' (GetString v ''MariaDSN''), CallPrepare insert_query,
                   CallStmtClose, CallDbClose} \<or> ev \<in> set (fst (write_points v w True prices))"
        by (auto simp: with_db_def)
      then show ?thesis using write_points_events [of ev v w True prices] False by blast
    qed
  qed
qed

lemma with_client_events:
  assumes "ev \<in> set (fst (with_client v w prices))"
  shows "ev = CallNewHTTPClient (GetString v ''InfluxServer'') (GetString v ''InfluxUser'')
                (GetString v ''InfluxPasswd'') \<or> ev = CallClientClose \<or>
         ev \<in> set (fst (with_db v w prices))"
  using assms
  by (auto simp: with_client_def Let_def split: option.splits prod.splits)

lemma handler_events:
  assumes "ev \<in> set (fst (handler v w e))"
  shows "\<exists>ld labels pd prices.
           base64_DecodeString (Attr e ''data-labels'') = Inr ld \<and>
           Unmarshal_ints ld = Inr labels \<and>
           base64_DecodeString (Attr e ''data-datasets'') = Inr pd \<and>
           Unmarshal_Timpris pd = Inr prices \<and>
           ev \<in> set (fst (with_client v w prices))"
  using assms
  by (auto simp: handler_def split: sum.splits)

lemma with_db_opens:
  "GetString v ''MariaDSN'' \<noteq> [] \<Longrightarrow>
     CallOpen ''mysql'' (GetString v ''MariaDSN'') \<in> set (fst (with_db v w prices))"
  by (simp add: with_db_def split: option.splits prod.splits)

subsection \<open>The order of the calls\<close>

lemma sorted_const: "(\<And>x. x \<in> set xs \<Longrightarrow> f x = (c::nat)) \<Longrightarrow> sorted (map f xs)"
  by (induction xs) auto

lemma loop_rank: "ev \<in> set (fst (loop w u ymd h vs bp)) \<Longrightarrow> rank ev = 4"
  using loop_events [of ev w u ymd h vs bp] by auto

lemma write_points_rank:
  "ev \<in> set (fst (write_points v w u prices)) \<Longrightarrow> rank ev = 4 \<or> rank ev = 5"
  using write_points_events [of ev v w u prices] by auto

lemma write_points_sorted: "sorted (map rank (fst (write_points v w u prices)))"
proof (cases "NewBatchPoints w (GetString v ''InfluxDB'') ''h''")
  case (Some err)
  then show ?thesis by (simp add: write_points_def)
next
  case None
  show ?thesis
  proof (cases prices)
    case Nil
    with None show ?thesis by (simp add: write_points_def)
  next
    case (Cons p ps)
    define ymd where "ymd = Time_Date (Now w) (Local w)"
    obtain evs bp out where L: "loop w u ymd 0 (Data p) [] = (evs, bp, out)"
      by (cases "loop w u ymd 0 (Data p) []") auto
    have r: "\<And>x. x \<in> set evs \<Longrightarrow> rank x = 4"
      using loop_rank [of _ w u ymd 0 "Data p" "[]"] L by simp
    have s: "sorted (map rank evs)" using r by (rule sorted_const)
    show ?thesis
      using None Cons L s r
      by (cases out) (auto simp: write_points_def ymd_def Let_def sorted_append)
  qed
qed

lemma with_db_sorted: "sorted (map rank (fst (with_db v w prices)))"
proof -
  have "\<forall>x\<in>set (fst (write_points v w True prices)). 3 \<le> rank x \<and> rank x \<le> 6"
  proof
    fix x assume "x \<in> set (fst (write_points v w True prices))"
    from write_points_rank [OF this] show "3 \<le> rank x \<and> rank x \<le> 6" by auto
  qed
  then show ?thesis
    using write_points_sorted [of v w True prices] write_points_sorted [of v w False prices]
    by (fastforce simp: with_db_def sorted_append split: option.splits prod.splits)
qed

lemma with_db_rank:
  "ev \<in> set (fst (with_db v w prices)) \<Longrightarrow> 2 \<le> rank ev \<and> rank ev \<le> 7"
  using with_db_events [of ev v w prices] by auto

lemma with_client_sorted: "sorted (map rank (fst (with_client v w prices)))"
proof -
  have "\<forall>x\<in>set (fst (with_db v w prices)). 1 \<le> rank x \<and> rank x \<le> 8"
  proof
    fix x assume "x \<in> set (fst (with_db v w prices))"
    from with_db_rank [OF this] show "1 \<le> rank x \<and> rank x \<le> 8" by auto
  qed
  then show ?thesis
    using with_db_sorted [of v w prices]
    by (fastforce simp: with_client_def Let_def sorted_append split: option.splits prod.splits)
qed

lemma handler_sorted: "sorted (map rank (fst (handler v w e)))"
  using with_client_sorted by (auto simp: handler_def split: sum.splits)

subsection \<open>The inserts that are executed\<close>

lemma filter_is_exec_map:
  "filter is_exec (map (\<lambda>i. CallExec (f i)) xs) = map (\<lambda>i. CallExec (f i)) xs"
  by (induction xs) auto

lemma loop_exec_prefix:
  "\<exists>k\<le>length vs. fst (loop w u ymd h vs bp) =
      map (\<lambda>i. CallExec (mkRow w ymd (h + int i) (vs ! i))) [0..<k]"
proof (induction vs arbitrary: h bp)
  case Nil
  show ?case by simp
next
  case (Cons x xs)
  have shift: "\<And>(f :: nat \<Rightarrow> event) k. map f [0..<Suc k] = f 0 # map (\<lambda>i. f (Suc i)) [0..<k]"
    by (simp add: map_upt_Suc del: upt_Suc)
  show ?case
  proof (cases u)
    case False
    then have uf: "u = False" by simp
    have "fst (loop w u ymd h (x # xs) bp) = []" unfolding uf by (rule loop_no_db)
    then have "0 \<le> length (x # xs) \<and> fst (loop w u ymd h (x # xs) bp) =
        map (\<lambda>i. CallExec (mkRow w ymd (h + int i) ((x # xs) ! i))) [0..<0]" by simp
    then show ?thesis by blast
  next
    case True
    show ?thesis
    proof (cases "NewPoint w (mkPoint w ymd h x)")
      case (Some err)
      then have "0 \<le> length (x # xs) \<and> fst (loop w u ymd h (x # xs) bp) =
        map (\<lambda>i. CallExec (mkRow w ymd (h + int i) ((x # xs) ! i))) [0..<0]" by simp
      then show ?thesis by blast
    next
      case None
      show ?thesis
      proof (cases "stmt_Exec w (mkRow w ymd h x)")
        case (Some err)
        with None True have "Suc 0 \<le> length (x # xs) \<and> fst (loop w u ymd h (x # xs) bp) =
          map (\<lambda>i. CallExec (mkRow w ymd (h + int i) ((x # xs) ! i))) [0..<Suc 0]" by simp
        then show ?thesis by blast
      next
        case N: None
        from Cons.IH [of "h + 1" "bp @ [mkPoint w ymd h x]"] obtain k where
          k: "k \<le> length xs"
             "fst (loop w u ymd (h + 1) xs (bp @ [mkPoint w ymd h x])) =
                map (\<lambda>i. CallExec (mkRow w ymd (h + 1 + int i) (xs ! i))) [0..<k]"
          by blast
        have "fst (loop w u ymd h (x # xs) bp) =
                CallExec (mkRow w ymd h x) # fst (loop w u ymd (h + 1) xs (bp @ [mkPoint w ymd h x]))"
          using None N True by (simp split: prod.splits)
        then have "Suc k \<le> length (x # xs) \<and> fst (loop w u ymd h (x # xs) bp) =
          map (\<lambda>i. CallExec (mkRow w ymd (h + int i) ((x # xs) ! i))) [0..<Suc k]"
          using k by (simp add: shift algebra_simps del: upt_Suc)
        then show ?thesis by blast
      qed
    qed
  qed
qed

lemma write_points_exec_prefix:
  "\<exists>k\<le>length (Data p). filter is_exec (fst (write_points v w u (p # ps))) =
      map (\<lambda>i. CallExec (mkRow w (Time_Date (Now w) (Local w)) (int i) (Data p ! i))) [0..<k]"
proof -
  define ymd where "ymd = Time_Date (Now w) (Local w)"
  from loop_exec_prefix [of "Data p" w u ymd 0 "[]"] obtain k where
    k: "k \<le> length (Data p)"
       "fst (loop w u ymd 0 (Data p) []) = map (\<lambda>i. CallExec (mkRow w ymd (int i) (Data p ! i))) [0..<k]"
    by auto
  obtain evs bp out where L: "loop w u ymd 0 (Data p) [] = (evs, bp, out)"
    by (cases "loop w u ymd 0 (Data p) []") auto
  have e: "filter is_exec evs = evs" using k(2) L by (simp add: filter_is_exec_map)
  have "filter is_exec (fst (write_points v w u (p # ps))) = evs \<or>
        filter is_exec (fst (write_points v w u (p # ps))) = []"
    using L e by (cases out) (auto simp: write_points_def ymd_def Let_def split: option.splits)
  then show ?thesis
  proof
    assume "filter is_exec (fst (write_points v w u (p # ps))) = evs"
    then show ?thesis using k L unfolding ymd_def by auto
  next
    assume "filter is_exec (fst (write_points v w u (p # ps))) = []"
    then have "0 \<le> length (Data p) \<and> filter is_exec (fst (write_points v w u (p # ps))) =
      map (\<lambda>i. CallExec (mkRow w (Time_Date (Now w) (Local w)) (int i) (Data p ! i))) [0..<0]"
      by simp
    then show ?thesis by blast
  qed
qed

lemma with_db_exec:
  "filter is_exec (fst (with_db v w prices)) = [] \<or>
   (\<exists>u. filter is_exec (fst (with_db v w prices)) = filter is_exec (fst (write_points v w u prices)))"
proof (cases "GetString v ''MariaDSN'' = []")
  case True
  then show ?thesis by (auto simp: with_db_def)
next
  case False
  show ?thesis
  proof (cases "sql_Open w ''mysql'' (GetString v ''MariaDSN'')")
    case (Some err)
    with False show ?thesis by (simp add: with_db_def)
  next
    case None
    show ?thesis
    proof (cases "db_Prepare w insert_query")
      case (Some err)
      with False None show ?thesis by (simp add: with_db_def)
    next
      case P: None
      obtain evs out where W: "write_points v w True prices = (evs, out)"
        by (cases "write_points v w True prices") auto
      have "filter is_exec (fst (with_db v w prices)) = filter is_exec (fst (write_points v w True prices))"
        using False None P W by (simp add: with_db_def)
      then show ?thesis by blast
    qed
  qed
qed

lemma with_client_exec:
  "filter is_exec (fst (with_client v w prices)) = [] \<or>
   filter is_exec (fst (with_client v w prices)) = filter is_exec (fst (with_db v w prices))"
proof (cases "NewHTTPClient w (GetString v ''InfluxServer'') (GetString v ''InfluxUser'')
                (GetString v ''InfluxPasswd'')")
  case (Some err)
  then show ?thesis by (simp add: with_client_def)
next
  case None
  obtain evs out where W: "with_db v w prices = (evs, out)"
    by (cases "with_db v w prices") auto
  show ?thesis using None W by (simp add: with_client_def)
qed

lemma with_client_exec_prefix:
  "\<exists>k\<le>length (Data p). filter is_exec (fst (with_client v w (p # ps))) =
      map (\<lambda>i. CallExec (mkRow w (Time_Date (Now w) (Local w)) (int i) (Data p ! i))) [0..<k]"
proof -
  have z: "0 \<le> length (Data p) \<and> [] =
      map (\<lambda>i. CallExec (mkRow w (Time_Date (Now w) (Local w)) (int i) (Data p ! i))) [0..<0]"
    by simp
  have "filter is_exec (fst (with_client v w (p # ps))) = [] \<or>
        (\<exists>u. filter is_exec (fst (with_client v w (p # ps))) =
              filter is_exec (fst (write_points v w u (p # ps))))"
    using with_client_exec [of v w "p # ps"] with_db_exec [of v w "p # ps"] by metis
  then show ?thesis
  proof
    assume "filter is_exec (fst (with_client v w (p # ps))) = []"
    then show ?thesis using z by metis
  next
    assume "\<exists>u. filter is_exec (fst (with_client v w (p # ps))) =
              filter is_exec (fst (write_points v w u (p # ps)))"
    then obtain u where "filter is_exec (fst (with_client v w (p # ps))) =
              filter is_exec (fst (write_points v w u (p # ps)))" by blast
    then show ?thesis using write_points_exec_prefix [of p v w u ps] by simp
  qed
qed

subsection \<open>Worlds without failures\<close>

lemma write_points_cooperative:
  assumes "cooperative w"
  shows "write_points v w u (p # ps) =
           ((if u then map (\<lambda>i. CallExec (mkRow w (Time_Date (Now w) (Local w)) (int i) (Data p ! i)))
                        [0..<length (Data p)] else [])
            @ [CallWrite \<lparr>bp_database = GetString v ''InfluxDB'', bp_precision = ''h'',
                 bp_points = map (\<lambda>i. mkPoint w (Time_Date (Now w) (Local w)) (int i) (Data p ! i))
                               [0..<length (Data p)]\<rparr>],
            Returned)"
proof -
  have np: "\<forall>p. NewPoint w p = None" and ex: "\<forall>r. stmt_Exec w r = None"
    using assms by (simp_all add: cooperative_def)
  show ?thesis
    using assms loop_cooperative [OF np ex, of u "Time_Date (Now w) (Local w)" 0 "Data p" "[]"]
    by (simp add: write_points_def cooperative_def)
qed

lemma with_client_cooperative:
  assumes "cooperative w"
  shows "with_client v w (p # ps) =
           (CallNewHTTPClient (GetString v ''InfluxServer'') (GetString v ''InfluxUser'')
              (GetString v ''InfluxPasswd'') #
            (if GetString v ''MariaDSN'' \<noteq> []
             then [CallOpen ''mysql'' (GetString v ''MariaDSN''), CallPrepare insert_query] else [])
            @ (if GetString v ''MariaDSN'' \<noteq> []
               then map (\<lambda>i. CallExec (mkRow w (Time_Date (Now w) (Local w)) (int i) (Data p ! i)))
                      [0..<length (Data p)] else [])
            @ [CallWrite \<lparr>bp_database = GetString v ''InfluxDB'', bp_precision = ''h'',
                 bp_points = map (\<lambda>i. mkPoint w (Time_Date (Now w) (Local w)) (int i) (Data p ! i))
                               [0..<length (Data p)]\<rparr>]
            @ (if GetString v ''MariaDSN'' \<noteq> [] then [CallStmtClose, CallDbClose] else [])
            @ [CallClientClose],
            Returned)"
  using assms write_points_cooperative [OF assms, of v _ p ps]
  by (simp add: with_client_def with_db_def cooperative_def)

lemma handler_cooperative:
  assumes "base64_DecodeString (Attr e ''data-labels'') = Inr ld"
    and "Unmarshal_ints ld = Inr labels"
    and "base64_DecodeString (Attr e ''data-datasets'') = Inr pd"
    and "Unmarshal_Timpris pd = Inr (p # ps)"
    and "cooperative w"
  shows "handler v w e =
           (CallNewHTTPClient (GetString v ''InfluxServer'') (GetString v ''InfluxUser'')
              (GetString v ''InfluxPasswd'') #
            (if GetString v ''MariaDSN'' \<noteq> []
             then [CallOpen ''mysql'' (GetString v ''MariaDSN''), CallPrepare insert_query] else [])
            @ (if GetString v ''MariaDSN'' \<noteq> []
               then map (\<lambda>i. CallExec (mkRow w (Time_Date (Now w) (Local w)) (int i) (Data p ! i)))
                      [0..<length (Data p)] else [])
            @ [CallWrite \<lparr>bp_database = GetString v ''InfluxDB'', bp_precision = ''h'',
                 bp_points = map (\<lambda>i. mkPoint w (Time_Date (Now w) (Local w)) (int i) (Data p ! i))
                               [0..<length (Data p)]\<rparr>]
            @ (if GetString v ''MariaDSN'' \<noteq> [] then [CallStmtClose, CallDbClose] else [])
            @ [CallClientClose],
            Returned)"
  using handler_decoded [OF assms(1-4)] with_client_cooperative [OF assms(5)] by simp

subsection \<open>An empty list of series\<close>

lemma write_points_empty:
  "write_points v w u [] =
     ([], Panicked (case NewBatchPoints w (GetString v ''InfluxDB'') ''h'' of
                      Some err \<Rightarrow> PanicError err | None \<Rightarrow> IndexOutOfRange 0 0))"
  by (simp add: write_points_def split: option.splits)

lemma with_db_empty:
  "(\<exists>pv. snd (with_db v w []) = Panicked pv) \<and>
   (\<forall>ev\<in>set (fst (with_db v w [])). (\<forall>r. ev \<noteq> CallExec r) \<and> (\<forall>b. ev \<noteq> CallWrite b))"
  by (auto simp: with_db_def write_points_empty split: option.splits)

lemma with_client_empty:
  "(\<exists>pv. snd (with_client v w []) = Panicked pv) \<and>
   (\<forall>ev\<in>set (fst (with_client v w [])). (\<forall>r. ev \<noteq> CallExec r) \<and> (\<forall>b. ev \<noteq> CallWrite b))"
  using with_db_empty [of v w]
  by (auto simp: with_client_def Let_def split: option.splits prod.splits)

lemma with_client_empty_index:
  assumes "NewHTTPClient w (GetString v ''InfluxServer'') (GetString v ''InfluxUser'')
             (GetString v ''InfluxPasswd'') = None"
    and "GetString v ''MariaDSN'' = [] \<or>
         (sql_Open w ''mysql'' (GetString v ''MariaDSN'') = None \<and> db_Prepare w insert_query = None)"
    and "NewBatchPoints w (GetString v ''InfluxDB'') ''h'' = None"
  shows "snd (with_client v w []) = Panicked (IndexOutOfRange 0 0)"
  using assms by (auto simp: with_client_def with_db_def write_points_empty)

subsection \<open>All canvas elements\<close>

lemma visit_all_returned:
  assumes "\<forall>k<length cs. snd (handler v (ws (k0 + k)) (cs ! k)) = Returned"
  shows "visit v ws k0 cs =
           (concat (map (\<lambda>k. fst (handler v (ws (k0 + k)) (cs ! k))) [0..<length cs]), Returned)"
  using assms
proof (induction cs arbitrary: k0)
  case Nil
  show ?case by simp
next
  case (Cons c cs)
  have shift: "\<And>f :: nat \<Rightarrow> event list. map f [0..<Suc (length cs)] = f 0 # map (\<lambda>i. f (Suc i)) [0..<length cs]"
    by (simp add: map_upt_Suc del: upt_Suc)
  have h0: "snd (handler v (ws k0) c) = Returned"
    using Cons.prems by (auto dest: spec [of _ 0])
  have rest: "\<forall>k<length cs. snd (handler v (ws (Suc k0 + k)) (cs ! k)) = Returned"
  proof (intro allI impI)
    fix k assume "k < length cs"
    then have "Suc k < length (c # cs)" by simp
    with Cons.prems have "snd (handler v (ws (k0 + Suc k)) ((c # cs) ! Suc k)) = Returned" by blast
    then show "snd (handler v (ws (Suc k0 + k)) (cs ! k)) = Returned" by simp
  qed
  obtain evs where e0: "handler v (ws k0) c = (evs, Returned)"
    using h0 by (cases "handler v (ws k0) c") auto
  show ?case
    using Cons.IH [OF rest] e0 by (simp add: shift del: upt_Suc)
qed

subsection \<open>Decimal numerals and truncation\<close>

lemma digits_val_snoc: "digits_val (ds @ [c]) = 10 * digits_val ds + (of_char c - 48)"
  by (simp add: digits_val_def)

lemma digits_val_decimal: "0 \<le> n \<Longrightarrow> digits_val (decimal n) = n"
proof (induction n rule: decimal.induct)
  case (1 n)
  show ?case
  proof (cases "n < 10")
    case True
    have "decimal n = [char_of (48 + n)]"
      using True by (subst decimal.simps) simp
    moreover have "(48 + n) mod 256 = 48 + n" using True "1.prems" by simp
    ultimately show ?thesis by (simp add: digits_val_def)
  next
    case False
    have d: "decimal n = decimal (n div 10) @ [char_of (48 + n mod 10)]"
      using False by (subst decimal.simps) simp
    have ih: "digits_val (decimal (n div 10)) = n div 10"
      using "1.IH" [OF False] "1.prems" by simp
    have "(48 + n mod 10) mod 256 = 48 + n mod 10"
    proof -
      have "0 \<le> n mod 10" "n mod 10 < 10" by simp_all
      then show ?thesis by simp
    qed
    then show ?thesis by (simp add: d digits_val_snoc ih)
  qed
qed

lemma f64_mantissa_nonneg: "0 \<le> f64_mantissa x"
  by (simp add: f64_mantissa_def f64_fraction_def)

lemma f64_magnitude_floor:
  "\<lfloor>real_of_int (f64_mantissa x) * 2 powi f64_exponent x\<rfloor> =
     (if 0 \<le> f64_exponent x then f64_mantissa x * pow2 (f64_exponent x)
      else f64_mantissa x div pow2 (- f64_exponent x))"
proof (cases "0 \<le> f64_exponent x")
  case True
  then have "(2::real) powi f64_exponent x = of_int (2 ^ nat (f64_exponent x))"
    by (simp add: power_int_def)
  then have "real_of_int (f64_mantissa x) * 2 powi f64_exponent x =
             of_int (f64_mantissa x * 2 ^ nat (f64_exponent x))"
    by simp
  then show ?thesis using True by (simp only: floor_of_int pow2_def if_True)
next
  case False
  then have "(2::real) powi f64_exponent x = 1 / of_int (2 ^ nat (- f64_exponent x))"
    by (simp add: power_int_def field_simps)
  then have "real_of_int (f64_mantissa x) * 2 powi f64_exponent x =
             of_int (f64_mantissa x) / of_int (2 ^ nat (- f64_exponent x))"
    by simp
  then show ?thesis using False by (simp only: floor_divide_of_int_eq pow2_def if_False)
qed

lemma f64_trunc_towards_zero:
  "f64_trunc x = (if f64_real x < 0 then \<lceil>f64_real x\<rceil> else \<lfloor>f64_real x\<rfloor>)"
proof -
  let ?r = "real_of_int (f64_mantissa x) * 2 powi f64_exponent x"
  have nn: "0 \<le> ?r" using f64_mantissa_nonneg [of x] by simp
  have fl: "\<lfloor>?r\<rfloor> = (if 0 \<le> f64_exponent x then f64_mantissa x * pow2 (f64_exponent x)
      else f64_mantissa x div pow2 (- f64_exponent x))"
    by (rule f64_magnitude_floor)
  show ?thesis
  proof (cases "f64_neg x")
    case True
    then have r: "f64_real x = - ?r" by (simp add: f64_real_def)
    have t: "f64_trunc x = - \<lfloor>?r\<rfloor>" using True by (simp add: f64_trunc_def fl Let_def)
    show ?thesis
    proof (cases "?r = 0")
      case True
      then show ?thesis using r t by simp
    next
      case False
      then have "f64_real x < 0" using nn r by linarith
      then show ?thesis using r t by (simp add: ceiling_minus)
    qed
  next
    case False
    then have r: "f64_real x = ?r" by (simp add: f64_real_def)
    have t: "f64_trunc x = \<lfloor>?r\<rfloor>" using False by (simp add: f64_trunc_def fl Let_def)
    show ?thesis using r t nn by simp
  qed
qed

subsection \<open>Hours in a location with one offset\<close>

lemma hours_as_seconds: "(h div 24) * 86400 + (h mod 24) * 3600 = 3600 * (h::int)"
  using div_mult_mod_eq [of h 24] by linarith

lemma zone_adjust_fixed_offset:
  assumes "\<forall>t. fst ((loc :: location) t) = off"
  shows "(case loc u of
            (offset, start, end) \<Rightarrow>
              (if offset \<noteq> 0 then
                 (if u - offset < start \<or> end \<le> u - offset
                  then u - fst (loc (u - offset))
                  else u - offset)
               else u)) = u - off"
proof -
  obtain offset start "end" where c: "loc u = (offset, start, end)"
    by (cases "loc u") auto
  have "offset = off" using assms c by (metis fst_conv)
  then show ?thesis using assms c by simp
qed

lemma time_Date_fixed_offset:
  assumes "\<forall>t. fst ((loc :: location) t) = off"
  shows "time_Date year month day hour 0 0 0 loc =
           time_Date year month day 0 0 0 0 loc + 3600 * hour"
proof -
  define D where "D = daysSinceEpoch (year + (month - 1) div 12) + daysBefore ((month - 1) mod 12)
      + (if isLeap (year + (month - 1) div 12) \<and> 3 \<le> (month - 1) mod 12 + 1 then 1 else 0)"
  have a: "time_Date year month day hour 0 0 0 loc =
             (D + (day + hour div 24 - 1)) * 86400 + (hour mod 24) * 3600 - off"
    by (simp add: time_Date_def Let_def D_def zone_adjust_fixed_offset [OF assms])
  have b: "time_Date year month day 0 0 0 0 loc = (D + (day - 1)) * 86400 - off"
    by (simp add: time_Date_def Let_def D_def zone_adjust_fixed_offset [OF assms])
  show ?thesis
    unfolding a b using hours_as_seconds [of hour] by (simp add: algebra_simps)
qed

subsection \<open>The example page, evaluated\<close>

lemma demo_cooperative: "cooperative demo_world"
  by (simp add: cooperative_def demo_world_def)

lemma demo_worlds_at [simp]: "demo_worlds k = demo_world"
  by (simp add: demo_worlds_def)

lemma Attr_demo_canvas:
  "Attr (demo_canvas l d) ''data-labels'' = l" "Attr (demo_canvas l d) ''data-datasets'' = d"
  by (simp_all add: Attr_def demo_canvas_def)

lemma demo_viper_simps:
  "GetString (demo_viper dsn) ''MariaDSN'' = dsn"
  "GetString (demo_viper dsn) ''InfluxServer'' = ''http://localhost:8086''"
  "GetString (demo_viper dsn) ''InfluxUser'' = []"
  "GetString (demo_viper dsn) ''InfluxPasswd'' = []"
  "GetString (demo_viper dsn) ''InfluxDB'' = ''power''"
  "GetInt (demo_viper dsn) k = 0"
  by (simp_all add: demo_viper_def)

lemma demo_labels_base64: "base64_DecodeString demo_labels = Inr ''[0,1]''"
  by code_simp

lemma demo_labels_json: "Unmarshal_ints ''[0,1]'' = Inr [0, 1]"
  by code_simp

lemma short_labels_base64: "base64_DecodeString ''WzBd'' = Inr ''[0]''"
  by code_simp

lemma short_labels_json: "Unmarshal_ints ''[0]'' = Inr [0]"
  by code_simp

lemma demo_datasets_base64:
  "base64_DecodeString demo_datasets = Inr ''[{\"label\":\"SE3\",\"data\":[1.23,1.999]}]''"
  by code_simp

lemma demo_datasets_json:
  "Unmarshal_Timpris ''[{\"label\":\"SE3\",\"data\":[1.23,1.999]}]'' = Inr [demo_series]"
  by code_simp

lemma empty_datasets_base64: "base64_DecodeString ''W10='' = Inr ''[]''"
  by code_simp

lemma empty_datasets_json: "Unmarshal_Timpris ''[]'' = Inr []"
  by code_simp

lemma malformed_base64: "base64_DecodeString ''!!!!'' = Inl CorruptInputError"
  by code_simp

lemma brace_base64: "base64_DecodeString ''ew=='' = Inr ''{''"
  by code_simp

lemma brace_labels_json: "Unmarshal_ints ''{'' = Inl SyntaxError"
  by code_simp

lemma brace_datasets_json: "Unmarshal_Timpris ''{'' = Inl SyntaxError"
  by code_simp

lemma demo_date: "Time_Date (Now demo_world) (Local demo_world) = (2024, 5, 1)"
  by code_simp

lemma demo_time_0: "time_Date 2024 5 1 0 0 0 0 (Local demo_world) = 1714514400"
  by code_simp

lemma demo_time_1: "time_Date 2024 5 1 1 0 0 0 (Local demo_world) = 1714518000"
  by code_simp

lemma demo_epoch_0: "UTC_Format 1714514400 = ''2024-04-30 22:00:00''"
  by code_simp

lemma demo_epoch_1: "UTC_Format 1714518000 = ''2024-04-30 23:00:00''"
  by code_simp

lemma demo_cents_0: "float64_to_int impl (f64_mul 0x3FF3AE147AE147AE f64_100) = 123"
  by code_simp

lemma demo_cents_1: "float64_to_int impl (f64_mul 0x3FFFFBE76C8B4396 f64_100) = 199"
  by code_simp

lemma demo_hour_tags: "Sprintf_d 0 = ''0''" "Sprintf_d 1 = ''1''"
  by code_simp+

lemma demo_rows:
  "map (\<lambda>i. CallExec (mkRow demo_world (2024, 5, 1) (int i) (Data demo_series ! i)))
     [0..<length (Data demo_series)] =
   [CallExec [SqlInt 2024, SqlInt 5, SqlInt 1, SqlInt 0, SqlString ''2024-04-30 22:00:00'',
              SqlString ''SE3'', SqlInt 123],
    CallExec [SqlInt 2024, SqlInt 5, SqlInt 1, SqlInt 1, SqlString ''2024-04-30 23:00:00'',
              SqlString ''SE3'', SqlInt 199]]"
  by (simp add: demo_series_def mkRow_def numeral_2_eq_2 demo_time_0 demo_time_1
        demo_epoch_0 demo_epoch_1 demo_cents_0 demo_cents_1)

lemma demo_points:
  "map (\<lambda>i. mkPoint demo_world (2024, 5, 1) (int i) (Data demo_series ! i))
     [0..<length (Data demo_series)] =
   [\<lparr>pt_name = ''powerprices'', pt_tags = [(''hour'', ''0''), (''area'', ''SE3'')],
     pt_fields = [(''value'', 0x3FF3AE147AE147AE)], pt_time = 1714514400\<rparr>,
    \<lparr>pt_name = ''powerprices'', pt_tags = [(''hour'', ''1''), (''area'', ''SE3'')],
     pt_fields = [(''value'', 0x3FFFFBE76C8B4396)], pt_time = 1714518000\<rparr>]"
  by (simp add: demo_series_def mkPoint_def numeral_2_eq_2 demo_time_0 demo_time_1 demo_hour_tags)

lemma demo_product: "f64_mul 0x3FFFFBE76C8B4396 f64_100 = 0x4068FCCCCCCCCCCD"
  by code_simp

lemma demo_product_parts:
  "f64_neg 0x4068FCCCCCCCCCCD = False" "f64_mantissa 0x4068FCCCCCCCCCCD = 7033355980557517"
  "f64_exponent 0x4068FCCCCCCCCCCD = - 45" "f64_finite 0x4068FCCCCCCCCCCD"
  "f64_trunc 0x4068FCCCCCCCCCCD = 199"
  by code_simp+

lemma demo_product_real: "f64_real 0x4068FCCCCCCCCCCD = 7033355980557517 / 35184372088832"
  by (simp add: f64_real_def demo_product_parts power_int_def power_one_over)

lemma demo_handler:
  assumes "base64_DecodeString l = Inr ld" and "Unmarshal_ints ld = Inr labels"
  shows "handler (demo_viper dsn) demo_world (demo_canvas l demo_datasets) =
           (CallNewHTTPClient ''http://localhost:8086'' [] [] #
            (if dsn \<noteq> [] then
               [CallOpen ''mysql'' dsn, CallPrepare insert_query,
                CallExec [SqlInt 2024, SqlInt 5, SqlInt 1, SqlInt 0,
                          SqlString ''2024-04-30 22:00:00'', SqlString ''SE3'', SqlInt 123],
                CallExec [SqlInt 2024, SqlInt 5, SqlInt 1, SqlInt 1,
                          SqlString ''2024-04-30 23:00:00'', SqlString ''SE3'', SqlInt 199]]
             else [])
            @ [CallWrite \<lparr>bp_database = ''power'', bp_precision = ''h'',
                 bp_points =
                   [\<lparr>pt_name = ''powerprices'', pt_tags = [(''hour'', ''0''), (''area'', ''SE3'')],
                     pt_fields = [(''value'', 0x3FF3AE147AE147AE)], pt_time = 1714514400\<rparr>,
                    \<lparr>pt_name = ''powerprices'', pt_tags = [(''hour'', ''1''), (''area'', ''SE3'')],
                     pt_fields = [(''value'', 0x3FFFFBE76C8B4396)], pt_time = 1714518000\<rparr>]\<rparr>]
            @ (if dsn \<noteq> [] then [CallStmtClose, CallDbClose] else [])
            @ [CallClientClose],
            Returned)"
proof -
  have "handler (demo_viper dsn) demo_world (demo_canvas l demo_datasets) =
          (CallNewHTTPClient ''http://localhost:8086'' [] [] #
            (if dsn \<noteq> [] then [CallOpen ''mysql'' dsn, CallPrepare insert_query] else [])
            @ (if dsn \<noteq> []
               then map (\<lambda>i. CallExec (mkRow demo_world (2024, 5, 1) (int i) (Data demo_series ! i)))
                      [0..<length (Data demo_series)] else [])
            @ [CallWrite \<lparr>bp_database = ''power'', bp_precision = ''h'',
                 bp_points = map (\<lambda>i. mkPoint demo_world (2024, 5, 1) (int i) (Data demo_series ! i))
                               [0..<length (Data demo_series)]\<rparr>]
            @ (if dsn \<noteq> [] then [CallStmtClose, CallDbClose] else [])
            @ [CallClientClose],
            Returned)"
    using handler_cooperative [of "demo_canvas l demo_datasets" ld labels _ demo_series "[]"
        demo_world "demo_viper dsn"]
      assms demo_datasets_base64 demo_datasets_json demo_cooperative
    by (simp only: Attr_demo_canvas demo_viper_simps demo_date)
  then show ?thesis
    by (simp only: demo_rows demo_points) simp
qed

lemma demo_handler_skipped:
  "handler v w (demo_canvas ''!!!!'' d) = ([], Returned)"
  by (simp add: handler_def Attr_demo_canvas malformed_base64)

subsection \<open>Base64: decoding an encoded text\<close>

lemma of_char_range: "0 \<le> (of_char c :: int) \<and> (of_char c :: int) < 256"
proof -
  have "0 \<le> (of_char c :: int) mod 256"
    by (rule pos_mod_sign) simp
  moreover have "(of_char c :: int) mod 256 < 256"
    by (rule pos_mod_bound) simp
  ultimately show ?thesis
    by (simp only: of_char_mod_256)
qed

lemma b64_index_char: "0 \<le> n \<Longrightarrow> n < 64 \<Longrightarrow> b64_index (b64_char n) = Some n"
  by (auto simp: b64_index_def b64_char_def Let_def)

lemma b64_index_pad: "b64_index CHR ''='' = None"
  by (simp add: b64_index_def)

lemma b64_char_not_newline: "0 \<le> n \<Longrightarrow> n < 64 \<Longrightarrow> b64_char n \<noteq> CHR 0x0A \<and> b64_char n \<noteq> CHR 0x0D"
  using b64_index_char [of n] by (auto simp: b64_index_def)


lemma sextets: "x div 262144 * 262144 + x div 4096 mod 64 * 4096 + x div 64 mod 64 * 64 + x mod 64 = (x::int)"
proof -
  have 1: "x = 64 * (x div 64) + x mod 64" by simp
  have "x div 64 div 64 = x div (64 * 64)" by (simp add: zdiv_zmult2_eq)
  then have a: "x div 64 div 64 = x div 4096" by simp
  have "x div 64 = 64 * (x div 64 div 64) + x div 64 mod 64" by simp
  then have 2: "x div 64 = 64 * (x div 4096) + x div 64 mod 64" by (simp only: a)
  have "x div 4096 div 64 = x div (4096 * 64)" by (simp add: zdiv_zmult2_eq)
  then have b: "x div 4096 div 64 = x div 262144" by simp
  have "x div 4096 = 64 * (x div 4096 div 64) + x div 4096 mod 64" by simp
  then have 3: "x div 4096 = 64 * (x div 262144) + x div 4096 mod 64" by (simp only: b)
  show ?thesis using 1 2 3 by linarith
qed

lemma sextet_range: "0 \<le> (x::int) \<Longrightarrow> x < 16777216 \<Longrightarrow> 0 \<le> x div 262144 \<and> x div 262144 < 64"
proof -
  assume "0 \<le> x" "x < 16777216"
  moreover have "x = 262144 * (x div 262144) + x mod 262144" by simp
  moreover have "0 \<le> x mod 262144" "x mod 262144 < 262144" by simp_all
  ultimately show ?thesis by linarith
qed

lemma fullQuantum_chars:
  assumes "0 \<le> x" "x < 16777216"
  shows "fullQuantum (b64_char (x div 262144)) (b64_char (x div 4096 mod 64))
           (b64_char (x div 64 mod 64)) (b64_char (x mod 64)) =
         Some [char_of (x div 65536), char_of (x div 256), char_of x]"
proof -
  have "b64_index (b64_char (x div 262144)) = Some (x div 262144)"
    using sextet_range [OF assms] by (simp add: b64_index_char)
  moreover have "b64_index (b64_char (x div 4096 mod 64)) = Some (x div 4096 mod 64)"
    by (simp add: b64_index_char)
  moreover have "b64_index (b64_char (x div 64 mod 64)) = Some (x div 64 mod 64)"
    by (simp add: b64_index_char)
  moreover have "b64_index (b64_char (x mod 64)) = Some (x mod 64)"
    by (simp add: b64_index_char)
  ultimately show ?thesis
    by (simp add: fullQuantum_def quantum_bytes_def sextets)
qed

lemma three_bytes:
  fixes a b c :: char
  defines "x \<equiv> of_char a * 65536 + of_char b * 256 + of_char c :: int"
  shows "0 \<le> x \<and> x < 16777216 \<and> char_of (x div 65536) = a \<and> char_of (x div 256) = b \<and> char_of x = c"
proof -
  let ?A = "of_char a :: int" and ?B = "of_char b :: int" and ?C = "of_char c :: int"
  have r: "0 \<le> ?A" "?A < 256" "0 \<le> ?B" "?B < 256" "0 \<le> ?C" "?C < 256"
    using of_char_range by blast+
  have 1: "x div 65536 = ?A"
    by (rule int_div_pos_eq [of _ _ _ "?B * 256 + ?C"]) (use r in \<open>simp_all add: x_def\<close>)
  have d: "x div 256 = ?A * 256 + ?B"
    by (rule int_div_pos_eq [of _ _ _ "?C"]) (use r in \<open>simp_all add: x_def\<close>)
  have 2: "(x div 256) mod 256 = ?B"
    unfolding d by (rule int_mod_pos_eq [of _ _ "?A"]) (use r in simp_all)
  have 3: "x mod 256 = ?C"
    by (rule int_mod_pos_eq [of _ _ "?A * 256 + ?B"]) (use r in \<open>simp_all add: x_def\<close>)
  have "char_of (x div 256) = char_of ((x div 256) mod 256)" by simp
  moreover have "char_of x = char_of (x mod 256)" by simp
  moreover have "0 \<le> x \<and> x < 16777216" unfolding x_def using r by linarith
  ultimately show ?thesis by (simp only: 1 2 3 char_of_char)
qed


lemma two_bytes:
  fixes a b :: char
  defines "x \<equiv> of_char a * 65536 + of_char b * 256 :: int"
  shows "0 \<le> x \<and> x < 16777216 \<and> x mod 64 = 0 \<and> char_of (x div 65536) = a \<and> char_of (x div 256) = b"
proof -
  have x: "x = of_char a * 65536 + of_char b * 256 + of_char (CHR 0x00)"
    by (simp add: x_def)
  have "x = (of_char a * 1024 + of_char b * 4) * 64" by (simp add: x_def)
  then have "x mod 64 = 0" by simp
  then show ?thesis using three_bytes [of a b "CHR 0x00"] unfolding x [symmetric] by simp
qed

lemma one_byte:
  fixes a :: char
  defines "x \<equiv> of_char a * 65536 :: int"
  shows "0 \<le> x \<and> x < 16777216 \<and> x mod 64 = 0 \<and> x div 64 mod 64 = 0 \<and> char_of (x div 65536) = a"
proof -
  have x: "x = of_char a * 65536 + of_char (CHR 0x00) * 256"
    by (simp add: x_def)
  have "x = (of_char a * 1024) * 64" by (simp add: x_def)
  then have "x div 64 = of_char a * 16 * 64" by simp
  then have "x div 64 mod 64 = 0" by simp
  then show ?thesis using two_bytes [of a "CHR 0x00"] unfolding x [symmetric] by simp
qed

lemma lastQuantum_two:
  assumes "0 \<le> x" "x < 16777216" "x mod 64 = 0"
  shows "fullQuantum (b64_char (x div 262144)) (b64_char (x div 4096 mod 64))
           (b64_char (x div 64 mod 64)) CHR ''='' = None"
    and "lastQuantum (b64_char (x div 262144)) (b64_char (x div 4096 mod 64))
           (b64_char (x div 64 mod 64)) CHR ''='' =
         Inr [char_of (x div 65536), char_of (x div 256)]"
proof -
  have i: "b64_index (b64_char (x div 262144)) = Some (x div 262144)"
    "b64_index (b64_char (x div 4096 mod 64)) = Some (x div 4096 mod 64)"
    "b64_index (b64_char (x div 64 mod 64)) = Some (x div 64 mod 64)"
    using sextet_range [OF assms(1,2)] by (simp_all add: b64_index_char)
  have v: "x div 262144 * 262144 + x div 4096 mod 64 * 4096 + x div 64 mod 64 * 64 + 0 = x"
    using sextets [of x] assms(3) by simp
  show "fullQuantum (b64_char (x div 262144)) (b64_char (x div 4096 mod 64))
           (b64_char (x div 64 mod 64)) CHR ''='' = None"
    by (simp add: fullQuantum_def i b64_index_pad)
  show "lastQuantum (b64_char (x div 262144)) (b64_char (x div 4096 mod 64))
           (b64_char (x div 64 mod 64)) CHR ''='' =
         Inr [char_of (x div 65536), char_of (x div 256)]"
    by (simp add: lastQuantum_def i quantum_bytes_def v del: add_0_right add.right_neutral)
qed

lemma lastQuantum_one:
  assumes "0 \<le> x" "x < 16777216" "x mod 64 = 0" "x div 64 mod 64 = 0"
  shows "fullQuantum (b64_char (x div 262144)) (b64_char (x div 4096 mod 64))
           CHR ''='' CHR ''='' = None"
    and "lastQuantum (b64_char (x div 262144)) (b64_char (x div 4096 mod 64))
           CHR ''='' CHR ''='' = Inr [char_of (x div 65536)]"
proof -
  have i: "b64_index (b64_char (x div 262144)) = Some (x div 262144)"
    "b64_index (b64_char (x div 4096 mod 64)) = Some (x div 4096 mod 64)"
    using sextet_range [OF assms(1,2)] by (simp_all add: b64_index_char)
  have v: "x div 262144 * 262144 + x div 4096 mod 64 * 4096 + 0 * 64 + 0 = x"
    using sextets [of x] assms(3,4) by simp
  show "fullQuantum (b64_char (x div 262144)) (b64_char (x div 4096 mod 64))
           CHR ''='' CHR ''='' = None"
    by (simp add: fullQuantum_def i b64_index_pad)
  show "lastQuantum (b64_char (x div 262144)) (b64_char (x div 4096 mod 64))
           CHR ''='' CHR ''='' = Inr [char_of (x div 65536)]"
    by (simp add: lastQuantum_def i b64_index_pad quantum_bytes_def v
          del: add_0_right add.right_neutral mult_zero_left add_0 add.left_neutral)
qed

lemma decodeQuanta_b64_encode: "decodeQuanta (b64_encode bs) = Inr bs"
proof (induction bs rule: b64_encode.induct)
  case (1 a b c rest)
  define x where "x = (of_char a * 65536 + of_char b * 256 + of_char c :: int)"
  have e: "b64_encode (a # b # c # rest) =
      b64_char (x div 262144) # b64_char (x div 4096 mod 64) # b64_char (x div 64 mod 64) #
      b64_char (x mod 64) # b64_encode rest"
    by (simp only: b64_encode.simps Let_def x_def append.simps)
  have t: "0 \<le> x" "x < 16777216" "char_of (x div 65536) = a" "char_of (x div 256) = b"
    "char_of x = c"
    using three_bytes [of a b c] unfolding x_def by blast+
  show ?case
    unfolding e
    by (simp only: decodeQuanta.simps fullQuantum_chars [OF t(1,2)] t 1 option.case sum.case
          append.simps)
next
  case (2 a b)
  define x where "x = (of_char a * 65536 + of_char b * 256 :: int)"
  have e: "b64_encode [a, b] =
      [b64_char (x div 262144), b64_char (x div 4096 mod 64), b64_char (x div 64 mod 64),
       CHR ''='']"
    by (simp only: b64_encode.simps Let_def x_def)
  have t: "0 \<le> x" "x < 16777216" "x mod 64 = 0" "char_of (x div 65536) = a"
    "char_of (x div 256) = b"
    using two_bytes [of a b] unfolding x_def by blast+
  show ?case
    unfolding e
    by (simp only: decodeQuanta.simps lastQuantum_two [OF t(1,2,3)] t option.case if_True simp_thms)
next
  case (3 a)
  define x where "x = (of_char a * 65536 :: int)"
  have e: "b64_encode [a] =
      [b64_char (x div 262144), b64_char (x div 4096 mod 64), CHR ''='', CHR ''='']"
    by (simp only: b64_encode.simps Let_def x_def)
  have t: "0 \<le> x" "x < 16777216" "x mod 64 = 0" "x div 64 mod 64 = 0"
    "char_of (x div 65536) = a"
    using one_byte [of a] unfolding x_def by blast+
  show ?case
    unfolding e
    by (simp only: decodeQuanta.simps lastQuantum_one [OF t(1,2,3,4)] t option.case if_True simp_thms)
next
  case 4
  show ?case by simp
qed

lemma b64_encode_no_newline:
  "c \<in> set (b64_encode bs) \<Longrightarrow> c \<noteq> CHR 0x0A \<and> c \<noteq> CHR 0x0D"
proof (induction bs rule: b64_encode.induct)
  case (1 a b c' rest)
  define x where "x = (of_char a * 65536 + of_char b * 256 + of_char c' :: int)"
  have e: "b64_encode (a # b # c' # rest) =
      b64_char (x div 262144) # b64_char (x div 4096 mod 64) # b64_char (x div 64 mod 64) #
      b64_char (x mod 64) # b64_encode rest"
    by (simp only: b64_encode.simps Let_def x_def append.simps)
  have "0 \<le> x" "x < 16777216"
    using three_bytes [of a b c'] unfolding x_def by blast+
  then have "0 \<le> x div 262144 \<and> x div 262144 < 64"
    by (rule sextet_range)
  then show ?case
    using 1 unfolding e by (auto simp: b64_char_not_newline)
next
  case (2 a b)
  define x where "x = (of_char a * 65536 + of_char b * 256 :: int)"
  have e: "b64_encode [a, b] =
      [b64_char (x div 262144), b64_char (x div 4096 mod 64), b64_char (x div 64 mod 64),
       CHR ''='']"
    by (simp only: b64_encode.simps Let_def x_def)
  have "0 \<le> x" "x < 16777216"
    using two_bytes [of a b] unfolding x_def by blast+
  then have "0 \<le> x div 262144 \<and> x div 262144 < 64"
    by (rule sextet_range)
  then show ?case
    using 2 unfolding e by (auto simp: b64_char_not_newline)
next
  case (3 a)
  define x where "x = (of_char a * 65536 :: int)"
  have e: "b64_encode [a] =
      [b64_char (x div 262144), b64_char (x div 4096 mod 64), CHR ''='', CHR ''='']"
    by (simp only: b64_encode.simps Let_def x_def)
  have "0 \<le> x" "x < 16777216"
    using one_byte [of a] unfolding x_def by blast+
  then have "0 \<le> x div 262144 \<and> x div 262144 < 64"
    by (rule sextet_range)
  then show ?case
    using 3 unfolding e by (auto simp: b64_char_not_newline)
next
  case 4
  then show ?case by simp
qed

lemma base64_round_trip: "base64_DecodeString (b64_encode bs) = Inr bs"
proof -
  have "filter (\<lambda>c. c \<noteq> CHR 0x0A \<and> c \<noteq> CHR 0x0D) (b64_encode bs) = b64_encode bs"
    using b64_encode_no_newline by (simp add: filter_id_conv)
  then show ?thesis
    by (simp add: base64_DecodeString_def decodeQuanta_b64_encode)
qed

subsection \<open>Rounding a value that is a \<open>float64\<close>\<close>

lemma bitlen_zero: "bitlen 0 = 0"
  by (subst bitlen.simps) simp

lemma bitlen_pos: "0 < n \<Longrightarrow> bitlen n = 1 + bitlen (n div 2)"
  by (subst bitlen.simps) simp

lemma bitlen_bounds:
  "0 < n \<Longrightarrow> 1 \<le> bitlen n \<and> 2 ^ nat (bitlen n - 1) \<le> n \<and> n < 2 ^ nat (bitlen n)"
proof (induction n rule: bitlen.induct)
  case (1 n)
  show ?case
  proof (cases "0 < n div 2")
    case False
    with 1(2) have n: "n = 1" by linarith
    show ?thesis by (simp add: n bitlen_pos bitlen_zero)
  next
    case True
    define b where "b = bitlen (n div 2)"
    have ih: "1 \<le> b" "2 ^ nat (b - 1) \<le> n div 2" "n div 2 < 2 ^ nat b"
      using 1(1) 1(2) True unfolding b_def by auto
    have bl: "bitlen n = 1 + b" using 1(2) by (simp add: bitlen_pos b_def)
    have s: "nat b = Suc (nat (b - 1))" using ih(1) by linarith
    have p: "(2::int) ^ nat b = 2 * 2 ^ nat (b - 1)" by (subst s) simp
    have s': "nat (1 + b) = Suc (nat b)" using ih(1) by linarith
    have p': "(2::int) ^ nat (1 + b) = 2 * 2 ^ nat b" by (subst s') simp
    have "2 * (n div 2) \<le> n" "n \<le> 2 * (n div 2) + 1" by linarith+
    then have "2 ^ nat b \<le> n" "n < 2 ^ nat (1 + b)"
      using ih(2,3) unfolding p p' by linarith+
    then show ?thesis using ih(1) by (simp add: bl)
  qed
qed

lemma bitlen_bounds_real:
  assumes "0 < n"
  shows "2 powi (bitlen n - 1) \<le> real_of_int n" and "real_of_int n < 2 powi (bitlen n)"
proof -
  have b: "1 \<le> bitlen n" "2 ^ nat (bitlen n - 1) \<le> n" "n < 2 ^ nat (bitlen n)"
    using bitlen_bounds [OF assms] by blast+
  have "real_of_int (2 ^ nat (bitlen n - 1)) \<le> real_of_int n"
    using b(2) by (rule of_int_le_iff [THEN iffD2])
  then show "2 powi (bitlen n - 1) \<le> real_of_int n"
    using b(1) by (simp add: power_int_def)
  have "real_of_int n < real_of_int (2 ^ nat (bitlen n))"
    using b(3) by (rule of_int_less_iff [THEN iffD2])
  then show "real_of_int n < 2 powi (bitlen n)"
    using b(1) by (simp add: power_int_def)
qed

lemma pow2_real: "real_of_int (pow2 e) = 2 ^ nat e"
  by (simp add: pow2_def)

lemma powi_le_cancel: "(2::real) powi a \<le> v \<Longrightarrow> v < 2 powi b \<Longrightarrow> a < b"
proof (rule ccontr)
  assume a: "(2::real) powi a \<le> v" "v < 2 powi b" and "\<not> a < b"
  then have "b \<le> a" by simp
  then have "(2::real) powi b \<le> 2 powi a" by (rule power_int_increasing) simp
  with a show False by linarith
qed

text \<open>The test of \<open>round_float64\<close> on the candidate exponent.\<close>

lemma exponent_test:
  assumes "0 < den"
  shows "(if 0 \<le> e0 then den * pow2 e0 \<le> num else den \<le> num * pow2 (- e0)) \<longleftrightarrow>
         2 powi e0 \<le> real_of_int num / real_of_int den"
proof (cases "0 \<le> e0")
  case True
  have "den * pow2 e0 \<le> num \<longleftrightarrow> real_of_int (den * pow2 e0) \<le> real_of_int num"
    by (simp only: of_int_le_iff)
  also have "\<dots> \<longleftrightarrow> 2 ^ nat e0 \<le> real_of_int num / real_of_int den"
    using assms by (simp add: pow2_real field_simps)
  finally show ?thesis using True by (simp add: power_int_def)
next
  case False
  have "den \<le> num * pow2 (- e0) \<longleftrightarrow> real_of_int den \<le> real_of_int (num * pow2 (- e0))"
    by (simp only: of_int_le_iff)
  also have "\<dots> \<longleftrightarrow> inverse 2 ^ nat (- e0) \<le> real_of_int num / real_of_int den"
    using assms by (simp add: pow2_real field_simps power_inverse)
  finally show ?thesis using False by (simp add: power_int_def)
qed

lemma leading_exponent:
  assumes "0 < num" "0 < den"
  defines "e0 \<equiv> bitlen num - bitlen den"
  defines "e \<equiv> (if (if 0 \<le> e0 then den * pow2 e0 \<le> num else den \<le> num * pow2 (- e0))
                 then e0 else e0 - 1)"
  shows "2 powi e \<le> real_of_int num / real_of_int den"
    and "real_of_int num / real_of_int den < 2 powi (e + 1)"
proof -
  let ?v = "real_of_int num / real_of_int den"
  have n: "2 powi (bitlen num - 1) \<le> real_of_int num" "real_of_int num < 2 powi (bitlen num)"
    using bitlen_bounds_real [OF assms(1)] by blast+
  have d: "2 powi (bitlen den - 1) \<le> real_of_int den" "real_of_int den < 2 powi (bitlen den)"
    using bitlen_bounds_real [OF assms(2)] by blast+
  have dpos: "0 < real_of_int den" using assms(2) by simp
  have npos: "0 < real_of_int num" using assms(1) by simp
  have p1: "(2::real) powi (e0 + 1) = 2 powi (bitlen num) / 2 powi (bitlen den - 1)"
    unfolding e0_def by (simp add: power_int_diff [symmetric] algebra_simps)
  have p0: "(2::real) powi (e0 - 1) = 2 powi (bitlen num - 1) / 2 powi (bitlen den)"
    unfolding e0_def by (simp add: power_int_diff [symmetric] algebra_simps)
  have "?v < 2 powi (bitlen num) / real_of_int den"
    using n(2) dpos by (simp add: divide_strict_right_mono)
  also have "\<dots> \<le> 2 powi (bitlen num) / 2 powi (bitlen den - 1)"
    using d(1) dpos by (intro divide_left_mono mult_pos_pos) simp_all
  finally have up: "?v < 2 powi (e0 + 1)" by (simp only: p1)
  have "2 powi (bitlen num - 1) / 2 powi (bitlen den) \<le> 2 powi (bitlen num - 1) / real_of_int den"
    using d(2) dpos by (intro divide_left_mono mult_pos_pos) simp_all
  also have "\<dots> \<le> ?v"
    using n(1) dpos by (simp add: divide_right_mono)
  finally have lo: "2 powi (e0 - 1) \<le> ?v" by (simp only: p0)
  have t: "(if 0 \<le> e0 then den * pow2 e0 \<le> num else den \<le> num * pow2 (- e0)) \<longleftrightarrow> 2 powi e0 \<le> ?v"
    using assms(2) by (rule exponent_test)
  show "2 powi e \<le> ?v"
    unfolding e_def t using lo by simp
  show "?v < 2 powi (e + 1)"
    unfolding e_def t using up by (simp add: not_le)
qed


lemma f64_fraction_range: "0 \<le> f64_fraction x \<and> f64_fraction x < 2 ^ 52"
  by (simp add: f64_fraction_def)

lemma f64_biased_range: "0 \<le> f64_biased x \<and> f64_biased x < 2048"
  by (simp add: f64_biased_def)

lemma f64_word_parts:
  "uint x = (if f64_neg x then 2 ^ 63 else 0) + f64_biased x * 2 ^ 52 + f64_fraction x"
proof -
  define u where "u = uint x"
  have r: "0 \<le> u" "u < 18446744073709551616"
    using uint_lt2p [of x] by (simp_all add: u_def)
  have 1: "u = 4503599627370496 * (u div 4503599627370496) + u mod 4503599627370496"
    by simp
  have "u div 4503599627370496 div 2048 = u div (4503599627370496 * 2048)"
    by (simp add: zdiv_zmult2_eq)
  then have a: "u div 4503599627370496 div 2048 = u div 9223372036854775808" by simp
  have "u div 4503599627370496 =
        2048 * (u div 4503599627370496 div 2048) + u div 4503599627370496 mod 2048"
    by simp
  then have 2: "u div 4503599627370496 =
        2048 * (u div 9223372036854775808) + u div 4503599627370496 mod 2048"
    by (simp only: a)
  have "u = (if 9223372036854775808 \<le> u then 9223372036854775808 else 0) +
            u div 4503599627370496 mod 2048 * 4503599627370496 + u mod 4503599627370496"
  proof (cases "9223372036854775808 \<le> u")
    case True
    have "u div 9223372036854775808 = 1"
      by (rule int_div_pos_eq [of _ _ _ "u - 9223372036854775808"]) (use True r in simp_all)
    with 1 2 have "u = 9223372036854775808 +
            u div 4503599627370496 mod 2048 * 4503599627370496 + u mod 4503599627370496"
      by linarith
    then show ?thesis using True by (simp only: if_True)
  next
    case False
    then have "u div 9223372036854775808 = 0" using r by (simp add: div_pos_pos_trivial)
    with 1 2 have "u = 0 +
            u div 4503599627370496 mod 2048 * 4503599627370496 + u mod 4503599627370496"
      by linarith
    then show ?thesis using False by (simp only: if_False)
  qed
  moreover have "(2::int) ^ 63 = 9223372036854775808" "(2::int) ^ 52 = 4503599627370496"
    by simp_all
  ultimately show ?thesis
    unfolding f64_neg_def f64_biased_def f64_fraction_def u_def [symmetric]
    by (simp only:)
qed

lemma round_float64_nonzero:
  assumes "num \<noteq> 0"
    and "q = max (if (if 0 \<le> bitlen num - bitlen den
                      then den * pow2 (bitlen num - bitlen den) \<le> num
                      else den \<le> num * pow2 (- (bitlen num - bitlen den)))
                  then bitlen num - bitlen den else bitlen num - bitlen den - 1) (- 1022) - 52"
    and "(if 0 \<le> q then num else num * pow2 (- q)) = m * (if 0 \<le> q then den * pow2 q else den)"
    and "0 < (if 0 \<le> q then den * pow2 q else den)"
  shows "round_float64 neg num den =
         (if 2047 * 2 ^ 52 \<le> (q + 1074) * 2 ^ 52 + m then None
          else Some (word_of_int ((if neg then 2 ^ 63 else 0) + ((q + 1074) * 2 ^ 52 + m))))"
proof -
  define d where "d = (if 0 \<le> q then den * pow2 q else den)"
  define n where "n = (if 0 \<le> q then num else num * pow2 (- q))"
  have nd: "n = m * d" "0 < d"
    using assms(3,4) by (simp_all only: n_def d_def)
  have dm: "n div d = m" "n mod d = 0"
    using nd by simp_all
  have "round_float64 neg num den =
     (let sign = (if neg then 2 ^ 63 else 0);
          m = n div d;
          r = n mod d;
          m' = (if d < 2 * r \<or> (2 * r = d \<and> odd m) then m + 1 else m);
          bits = (q + 1074) * 2 ^ 52 + m'
      in if 2047 * 2 ^ 52 \<le> bits then None else Some (word_of_int (sign + bits)))"
    unfolding round_float64_def n_def d_def assms(2)
    by (simp only: Let_def assms(1) if_False)
  also have "\<dots> = (if 2047 * 2 ^ 52 \<le> (q + 1074) * 2 ^ 52 + m then None
          else Some (word_of_int ((if neg then 2 ^ 63 else 0) + ((q + 1074) * 2 ^ 52 + m))))"
    unfolding Let_def dm using nd(2) by simp
  finally show ?thesis .
qed

lemma round_float64_exact:
  assumes fin: "f64_finite x" and num: "0 \<le> num" and den: "0 < den"
    and eq: "real_of_int num / real_of_int den =
             real_of_int (f64_mantissa x) * 2 powi f64_exponent x"
  shows "round_float64 (f64_neg x) num den = Some x"
proof (cases "f64_mantissa x = 0")
  case True
  then have "real_of_int num / real_of_int den = 0" using eq by simp
  then have n0: "num = 0" using den by simp
  have "f64_biased x = 0 \<and> f64_fraction x = 0"
    using True f64_fraction_range [of x] by (auto simp: f64_mantissa_def split: if_splits)
  then have "uint x = (if f64_neg x then 2 ^ 63 else 0)"
    using f64_word_parts [of x] by simp
  then have "word_of_int (if f64_neg x then 2 ^ 63 else 0) = (word_of_int (uint x) :: float64)"
    by simp
  then have "word_of_int (if f64_neg x then 2 ^ 63 else 0) = x"
    by (simp only: word_of_int_uint)
  then show ?thesis
    by (simp add: round_float64_def n0)
next
  case False
  define M where "M = f64_mantissa x"
  define E where "E = f64_exponent x"
  define v where "v = real_of_int num / real_of_int den"
  have Mpos: "0 < M" using False f64_mantissa_nonneg [of x] by (simp add: M_def)
  have v: "v = real_of_int M * 2 powi E" using eq by (simp add: v_def M_def E_def)
  have vpos: "0 < v" unfolding v using Mpos by simp
  have npos: "0 < num"
  proof (rule ccontr)
    assume "\<not> 0 < num"
    with num have "num = 0" by simp
    with vpos show False by (simp add: v_def)
  qed
  define e0 where "e0 = bitlen num - bitlen den"
  define e where "e = (if (if 0 \<le> e0 then den * pow2 e0 \<le> num else den \<le> num * pow2 (- e0))
                 then e0 else e0 - 1)"
  have e: "2 powi e \<le> v" "v < 2 powi (e + 1)"
    using leading_exponent [OF npos den] unfolding e_def e0_def v_def by blast+
  have br: "0 \<le> f64_biased x" "f64_biased x < 2047"
    using f64_biased_range [of x] fin by (simp_all add: f64_finite_def)
  have fr: "0 \<le> f64_fraction x" "f64_fraction x < 2 ^ 52"
    using f64_fraction_range [of x] by blast+
  have p52: "(2::real) powi (E + 52) = 2 powi E * 2 ^ 52"
    by (simp add: power_int_add)
  have p53: "(2::real) powi (E + 53) = 2 powi E * 2 ^ 53"
    by (simp add: power_int_add)
  have pE: "0 < (2::real) powi E" by simp
  have q: "max e (- 1022) - 52 = E"
  proof (cases "f64_biased x = 0")
    case True
    then have E: "E = - 1074" and "M < 2 ^ 52"
      using fr by (simp_all add: E_def M_def f64_exponent_def f64_mantissa_def)
    then have "real_of_int M < 2 ^ 52" 
      by (metis of_int_less_iff of_int_numeral of_int_power)
    then have "v < 2 powi (E + 52)"
      unfolding v p52 using pE by (simp add: mult.commute)
    then have "v < 2 powi (- 1022)" by (simp add: E)
    with e(1) have "e < - 1022" by (rule powi_le_cancel)
    then show ?thesis by (simp add: E)
  next
    case False
    then have E: "E = f64_biased x - 1075" and Mr: "2 ^ 52 \<le> M" "M < 2 ^ 53"
      using fr by (simp_all add: E_def M_def f64_exponent_def f64_mantissa_def)
    have "real_of_int (2 ^ 52) \<le> real_of_int M" "real_of_int M < real_of_int (2 ^ 53)"
      using Mr by (simp_all only: of_int_le_iff of_int_less_iff)
    then have "2 ^ 52 \<le> real_of_int M" "real_of_int M < 2 ^ 53" by simp_all
    then have "2 powi (E + 52) \<le> v" "v < 2 powi (E + 53)"
      unfolding v p52 p53 using pE by (simp_all add: mult.commute)
    then have "E + 52 < e + 1" "e < E + 53"
      using e powi_le_cancel by blast+
    then have "e = E + 52" by simp
    then show ?thesis using br False by (simp add: E)
  qed
  have Er: "- 1074 \<le> E"
    using br by (simp add: E_def f64_exponent_def)
  have nd: "(if 0 \<le> E then num else num * pow2 (- E)) = M * (if 0 \<le> E then den * pow2 E else den)"
  proof (cases "0 \<le> E")
    case True
    have "real_of_int num = real_of_int (M * (den * pow2 E))"
      using v den True by (simp add: v_def pow2_real power_int_def field_simps)
    then have "num = M * (den * pow2 E)" by (simp only: of_int_eq_iff)
    then show ?thesis using True by simp
  next
    case False
    have "real_of_int (num * pow2 (- E)) = real_of_int (M * den)"
      using v den False by (simp add: v_def pow2_real power_int_def field_simps power_inverse)
    then have "num * pow2 (- E) = M * den" by (simp only: of_int_eq_iff)
    then show ?thesis using False by simp
  qed
  have dpos: "0 < (if 0 \<le> E then den * pow2 E else den)"
    using den by (simp add: pow2_def)
  have bits: "(E + 1074) * 2 ^ 52 + M = f64_biased x * 2 ^ 52 + f64_fraction x"
    by (simp add: E_def M_def f64_exponent_def f64_mantissa_def)
  have "round_float64 (f64_neg x) num den =
         (if 2047 * 2 ^ 52 \<le> (E + 1074) * 2 ^ 52 + M then None
          else Some (word_of_int ((if f64_neg x then 2 ^ 63 else 0) + ((E + 1074) * 2 ^ 52 + M))))"
    by (rule round_float64_nonzero [OF _ q [unfolded e_def e0_def, symmetric] nd dpos])
      (use npos in simp)
  also have "\<dots> = Some (word_of_int (uint x))"
    unfolding bits using br fr f64_word_parts [of x] by simp
  finally show ?thesis by simp
qed

subsection \<open>The JSON text of a series\<close>

lemma takeWhile_append_stop: "\<not> P c \<Longrightarrow> takeWhile P (xs @ c # t) = takeWhile P xs"
  by (induction xs) simp_all

lemma dropWhile_append_stop: "\<not> P c \<Longrightarrow> dropWhile P (xs @ c # t) = dropWhile P xs @ c # t"
  by (induction xs) simp_all

lemma take1_append: "xs \<noteq> [] \<Longrightarrow> take 1 (xs @ r) = take 1 xs"
  by (cases xs) simp_all

lemma drop1_append: "xs \<noteq> [] \<Longrightarrow> drop 1 (xs @ r) = drop 1 xs @ r"
  by (cases xs) simp_all

lemma separator_props:
  assumes "c = CHR '','' \<or> c = CHR '']''"
  shows "\<not> isDigit c" "c \<noteq> CHR ''-''" "c \<noteq> CHR ''+''" "c \<noteq> CHR ''.''" "c \<noteq> CHR ''e''"
    "c \<noteq> CHR ''E''"
  using assms by (auto simp: isDigit_def)

lemma number_len_append:
  assumes c: "c = CHR '','' \<or> c = CHR '']''"
  shows "number_len (lit @ c # t) = number_len lit"
proof -
  note sp = separator_props [OF c]
  define s1 where "s1 = (if take 1 lit = ''-'' then drop 1 lit else lit)"
  define ds where "ds = takeWhile isDigit s1"
  define s2 where "s2 = dropWhile isDigit s1"
  define fs where "fs = takeWhile isDigit (drop 1 s2)"
  define hasFrac where "hasFrac = (take 1 s2 = ''.'')"
  define s3 where "s3 = (if hasFrac then dropWhile isDigit (drop 1 s2) else s2)"
  define hasExp where "hasExp = (take 1 s3 = ''e'' \<or> take 1 s3 = ''E'')"
  define s4 where "s4 = drop 1 s3"
  define s5 where "s5 = (if take 1 s4 = ''+'' \<or> take 1 s4 = ''-'' then drop 1 s4 else s4)"
  define es where "es = takeWhile isDigit s5"
  define s6 where "s6 = (if hasExp then dropWhile isDigit s5 else s3)"
  have n: "number_len lit =
      (if ds = [] \<or> (take 1 ds = ''0'' \<and> length ds > 1) then None
       else if hasFrac \<and> fs = [] then None
       else if hasExp \<and> es = [] then None
       else Some (length lit - length s6))"
    unfolding number_len_def s6_def es_def s5_def s4_def hasExp_def s3_def hasFrac_def fs_def
      s2_def ds_def s1_def
    by (simp only: Let_def)
  let ?l = "lit @ c # t"
  define s1' where "s1' = (if take 1 ?l = ''-'' then drop 1 ?l else ?l)"
  define ds' where "ds' = takeWhile isDigit s1'"
  define s2' where "s2' = dropWhile isDigit s1'"
  define fs' where "fs' = takeWhile isDigit (drop 1 s2')"
  define hasFrac' where "hasFrac' = (take 1 s2' = ''.'')"
  define s3' where "s3' = (if hasFrac' then dropWhile isDigit (drop 1 s2') else s2')"
  define hasExp' where "hasExp' = (take 1 s3' = ''e'' \<or> take 1 s3' = ''E'')"
  define s4' where "s4' = drop 1 s3'"
  define s5' where "s5' = (if take 1 s4' = ''+'' \<or> take 1 s4' = ''-'' then drop 1 s4' else s4')"
  define es' where "es' = takeWhile isDigit s5'"
  define s6' where "s6' = (if hasExp' then dropWhile isDigit s5' else s3')"
  have n': "number_len ?l =
      (if ds' = [] \<or> (take 1 ds' = ''0'' \<and> length ds' > 1) then None
       else if hasFrac' \<and> fs' = [] then None
       else if hasExp' \<and> es' = [] then None
       else Some (length ?l - length s6'))"
    unfolding number_len_def s6'_def es'_def s5'_def s4'_def hasExp'_def s3'_def hasFrac'_def
      fs'_def s2'_def ds'_def s1'_def
    by (simp only: Let_def)
  have s1: "s1' = s1 @ c # t"
    unfolding s1'_def s1_def using sp(2) by (cases lit) simp_all
  have ds: "ds' = ds"
    unfolding ds'_def ds_def s1 using sp(1) by (rule takeWhile_append_stop)
  have s2: "s2' = s2 @ c # t"
    unfolding s2'_def s2_def s1 using sp(1) by (rule dropWhile_append_stop)
  have hf: "hasFrac' = hasFrac"
    unfolding hasFrac'_def hasFrac_def s2 using sp(4) by (cases s2) simp_all
  have fs: "fs' = fs" if hasFrac
  proof -
    from that have "s2 \<noteq> []" by (auto simp: hasFrac_def)
    then have d: "drop 1 (s2 @ c # t) = drop 1 s2 @ c # t" by (rule drop1_append)
    show ?thesis
      unfolding fs'_def fs_def s2 d using sp(1) by (rule takeWhile_append_stop)
  qed
  have s3: "s3' = s3 @ c # t"
  proof (cases hasFrac)
    case True
    then have "s2 \<noteq> []" by (auto simp: hasFrac_def)
    then have d: "drop 1 (s2 @ c # t) = drop 1 s2 @ c # t" by (rule drop1_append)
    have "dropWhile isDigit (drop 1 s2 @ c # t) = dropWhile isDigit (drop 1 s2) @ c # t"
      using sp(1) by (rule dropWhile_append_stop)
    then show ?thesis
      unfolding s3'_def s3_def hf s2 d using True by (simp only: if_True)
  next
    case False
    then show ?thesis unfolding s3'_def s3_def hf s2 by simp
  qed
  have he: "hasExp' = hasExp"
    unfolding hasExp'_def hasExp_def s3 using sp(5,6) by (cases s3) simp_all
  have s5: "s5' = s5 @ c # t" if hasExp
  proof -
    from that have "s3 \<noteq> []" by (auto simp: hasExp_def)
    then have s4: "s4' = s4 @ c # t"
      unfolding s4'_def s4_def s3 by (rule drop1_append)
    show ?thesis
      unfolding s5'_def s5_def s4 using sp(2,3) by (cases s4) simp_all
  qed
  have es: "es' = es" if hasExp
    unfolding es'_def es_def s5 [OF that] using sp(1) by (rule takeWhile_append_stop)
  have s6: "s6' = s6 @ c # t"
  proof (cases hasExp)
    case True
    have "dropWhile isDigit (s5 @ c # t) = dropWhile isDigit s5 @ c # t"
      using sp(1) by (rule dropWhile_append_stop)
    then show ?thesis
      unfolding s6'_def s6_def he s5 [OF True] using True by (simp only: if_True)
  next
    case False
    then show ?thesis unfolding s6'_def s6_def he s3 by simp
  qed
  show ?thesis
    unfolding n n' ds hf he s6 using fs es by auto
qed

lemma number_len_first:
  assumes "number_len lit = Some n"
  shows "\<exists>a r. lit = a # r \<and> (a = CHR ''-'' \<or> isDigit a)"
proof (cases lit)
  case Nil
  with assms show ?thesis by (simp add: number_len_def)
next
  case (Cons a r)
  show ?thesis
  proof (cases "a = CHR ''-''")
    case True
    then show ?thesis using Cons by simp
  next
    case False
    then have "takeWhile isDigit lit \<noteq> []"
      using assms Cons by (auto simp: number_len_def Let_def split: if_splits)
    then have "isDigit a" using Cons by (auto split: if_splits)
    then show ?thesis using Cons by simp
  qed
qed

lemma isDigit_not_punct:
  assumes "a = CHR ''-'' \<or> isDigit a"
  shows "\<not> isSpace a" "a \<noteq> CHR ''[''" "a \<noteq> CHR '']''" "a \<noteq> CHR ''{''" "a \<noteq> CHR ''}''"
    "a \<noteq> CHR '':''" "a \<noteq> CHR '',''" "a \<noteq> CHR 0x22"
  using assms by (auto simp: isDigit_def isSpace_def)

lemma lex_number:
  assumes v: "number_len lit = Some (length lit)" and c: "c = CHR '','' \<or> c = CHR '']''"
  shows "lex (lit @ c # t) = map_option (Cons (TLit (JNumber lit))) (lex (c # t))"
proof -
  obtain a r where l: "lit = a # r" and a: "a = CHR ''-'' \<or> isDigit a"
    using number_len_first [OF v] by blast
  note p = isDigit_not_punct [OF a]
  have n: "number_len (a # r @ c # t) = Some (Suc (length r))"
    using number_len_append [OF c, of lit t] v by (simp add: l)
  show ?thesis
    unfolding l using p a by (simp add: n)
qed


lemma lex_tail: "lex '']}]'' = Some [TEndArray, TEndObject, TEndArray]"
  by (simp add: isSpace_def)

lemma lex_numbers:
  assumes "list_all (\<lambda>l. number_len l = Some (length l)) lits"
  shows "lex (json_numbers lits @ '']}]'') =
         Some (number_tokens lits @ [TEndArray, TEndObject, TEndArray])"
  using assms
proof (induction lits rule: json_numbers.induct)
  case 1
  show ?case using lex_tail by simp
next
  case (2 l)
  then have v: "number_len l = Some (length l)" by simp
  have "lex (l @ CHR '']'' # ''}]'') = map_option (Cons (TLit (JNumber l))) (lex (CHR '']'' # ''}]''))"
    using v by (rule lex_number) simp
  then show ?case using lex_tail by simp
next
  case (3 l l' ls)
  then have v: "number_len l = Some (length l)" by simp
  have ih: "lex (json_numbers (l' # ls) @ '']}]'') =
         Some (number_tokens (l' # ls) @ [TEndArray, TEndObject, TEndArray])"
    using 3 by simp
  have "lex (l @ CHR '','' # json_numbers (l' # ls) @ '']}]'') =
        map_option (Cons (TLit (JNumber l))) (lex (CHR '','' # json_numbers (l' # ls) @ '']}]''))"
    using v by (rule lex_number) simp
  also have "lex (CHR '','' # json_numbers (l' # ls) @ '']}]'') =
        Some (TComma # number_tokens (l' # ls) @ [TEndArray, TEndObject, TEndArray])"
    by (simp add: isSpace_def ih del: json_numbers.simps number_tokens.simps)
  finally show ?case by simp
qed

lemma lex_series:
  assumes "list_all (\<lambda>l. number_len l = Some (length l)) lits"
  shows "lex (json_series lits) =
         Some ([TBeginArray, TBeginObject, TLit (JString ''data''), TColon, TBeginArray] @
               number_tokens lits @ [TEndArray, TEndObject, TEndArray])"
  unfolding json_series_def
  by (simp add: isSpace_def lex_numbers [OF assms, simplified])

lemma parse_numbers:
  "lits \<noteq> [] \<Longrightarrow> ps = BeginValue \<or> ps = BeginValueOrEmpty \<Longrightarrow>
   parse ps (InArray es # st) d (number_tokens lits @ rest) =
   parse EndValue (InArray (rev (map JNumber lits) @ es) # st) d rest"
proof (induction lits arbitrary: ps es rule: number_tokens.induct)
  case 1
  then show ?case by simp
next
  case (2 l)
  then show ?case by (auto simp: step_def endValue_def)
next
  case (3 l l' ls)
  have "parse ps (InArray es # st) d (number_tokens (l # l' # ls) @ rest) =
        parse BeginValue (InArray (JNumber l # es) # st) d (number_tokens (l' # ls) @ rest)"
    using 3(3) by (auto simp: step_def endValue_def simp del: number_tokens.simps(3)
        simp add: number_tokens.simps(3) [of l l' ls])
  also have "\<dots> = parse EndValue (InArray (rev (map JNumber (l' # ls)) @ JNumber l # es) # st) d rest"
    by (rule 3(1)) simp_all
  finally show ?case by simp
qed

lemma parse_series:
  "parse BeginValue [] 0
     ([TBeginArray, TBeginObject, TLit (JString ''data''), TColon, TBeginArray] @
      number_tokens lits @ [TEndArray, TEndObject, TEndArray]) =
   Some (JArray [JObject [(''data'', JArray (map JNumber lits))]])"
proof -
  have pre: "parse BeginValue [] 0
     ([TBeginArray, TBeginObject, TLit (JString ''data''), TColon, TBeginArray] @ ts) =
     parse BeginValueOrEmpty [InArray [], InMember [] ''data'', InArray []] 3 ts" for ts
    by (simp add: step_def endValue_def maxNestingDepth_def)
  have post: "parse ps [InArray es, InMember [] ''data'', InArray []] 3
       [TEndArray, TEndObject, TEndArray] =
     Some (JArray [JObject [(''data'', JArray (rev es))]])"
    if "ps = EndValue \<or> (ps = BeginValueOrEmpty \<and> es = [])" for ps es
    using that by (auto simp: step_def endValue_def)
  show ?thesis
  proof (cases "lits = []")
    case True
    show ?thesis
      unfolding pre using post [of BeginValueOrEmpty "[]"]
      by (simp add: True del: parse.simps)
  next
    case False
    have "parse BeginValueOrEmpty [InArray [], InMember [] ''data'', InArray []] 3
            (number_tokens lits @ [TEndArray, TEndObject, TEndArray]) =
          parse EndValue [InArray (rev (map JNumber lits) @ []), InMember [] ''data'', InArray []] 3
            [TEndArray, TEndObject, TEndArray]"
      using False by (rule parse_numbers) simp
    also have "\<dots> = Some (JArray [JObject [(''data'', JArray (rev (rev (map JNumber lits) @ [])))]])"
      by (rule post) simp
    finally show ?thesis
      unfolding pre by simp
  qed
qed

lemma json_parse_series:
  assumes "list_all (\<lambda>l. number_len l = Some (length l)) lits"
  shows "json_parse (json_series lits) =
         Inr (JArray [JObject [(''data'', JArray (map JNumber lits))]])"
  by (simp only: json_parse_def lex_series [OF assms] parse_series option.case)

lemma decode_elems_floats:
  "list_all2 (\<lambda>l x. strconv_ParseFloat l = Some x) lits xs \<Longrightarrow>
   decode_elems decode_float64 z old (map JNumber lits) = (xs, False)"
proof (induction lits xs arbitrary: old rule: list_all2_induct)
  case Nil
  show ?case by simp
next
  case (Cons l x lits xs)
  show ?case
    using Cons.hyps(1) Cons.IH [of "tl old"] by (simp add: decode_float64_def)
qed

lemma foldName_data: "foldName ''data'' = ''DATA''"
  by code_simp

lemma Unmarshal_series:
  assumes "list_all (\<lambda>l. number_len l = Some (length l)) lits"
    and "list_all2 (\<lambda>l x. strconv_ParseFloat l = Some x) lits xs"
  shows "Unmarshal_Timpris (json_series lits) = Inr [zeroTimpris\<lparr>Data := xs\<rparr>]"
proof -
  have d: "decode_elems decode_float64 0 [] (map JNumber lits) = (xs, False)"
    using assms(2) by (rule decode_elems_floats)
  have e: "xs = []" if "lits = []"
    using assms(2) that by simp
  have f: "decode_floats ([], []) (JArray (map JNumber lits)) = ((xs, []), False)"
    using e by (simp add: decode_floats_def d)
  have m: "decode_Timpris zeroTimpris (JObject [(''data'', JArray (map JNumber lits))]) =
           (zeroTimpris\<lparr>Data := xs\<rparr>, False)"
    by (simp add: decode_Timpris_def decode_member_def foldName_data f zeroTimpris_def
          del: foldName.simps)
  show ?thesis
    by (simp add: Unmarshal_Timpris_def json_Unmarshal_def json_parse_series [OF assms(1)] m)
qed

subsection \<open>Literals without loss of precision\<close>

lemma digits_val_nonneg: "list_all isDigit ds \<Longrightarrow> 0 \<le> digits_val ds"
proof (induction ds rule: rev_induct)
  case Nil
  show ?case by (simp add: digits_val_def)
next
  case (snoc c ds)
  then have "0 \<le> digits_val ds" "48 \<le> (of_char c :: int)"
    by (simp_all add: isDigit_def)
  then show ?case by (simp add: digits_val_snoc)
qed

lemma takeWhile_digits: "list_all isDigit (takeWhile isDigit s)"
  by (induction s) simp_all

lemma decimal_parts_nonneg:
  assumes "decimal_parts lit = (neg, m, e)"
  shows "0 \<le> m" and "neg = (take 1 lit = ''-'')"
proof -
  have "list_all isDigit (takeWhile isDigit s @ (if b then takeWhile isDigit t else []))" for s t b
    by (simp add: takeWhile_digits)
  then have "0 \<le> digits_val (takeWhile isDigit s @ (if b then takeWhile isDigit t else []))" for s t b
    by (rule digits_val_nonneg)
  then show "0 \<le> m" using assms by (auto simp: decimal_parts_def Let_def)
  show "neg = (take 1 lit = ''-'')" using assms by (auto simp: decimal_parts_def Let_def)
qed

lemma strconv_ParseFloat_exact:
  assumes "exact_literal lit x"
  shows "strconv_ParseFloat lit = Some x"
proof -
  obtain neg m e where dp: "decimal_parts lit = (neg, m, e)"
    by (cases "decimal_parts lit") auto
  have m: "0 \<le> m" and neg: "neg = f64_neg x"
    using decimal_parts_nonneg [OF dp] assms by (simp_all add: exact_literal_def)
  have fin: "f64_finite x" using assms by (simp add: exact_literal_def)
  have "(if neg then - 1 else 1) * real_of_int m * 10 powi e =
        (if neg then - 1 else 1) * real_of_int (f64_mantissa x) * 2 powi f64_exponent x"
    using assms by (simp add: exact_literal_def literal_value_def dp f64_real_def neg)
  then have v: "real_of_int m * 10 powi e = real_of_int (f64_mantissa x) * 2 powi f64_exponent x"
    by (simp split: if_splits)
  show ?thesis
  proof (cases "0 \<le> e")
    case True
    have "real_of_int (m * 10 ^ nat e) / real_of_int 1 =
          real_of_int (f64_mantissa x) * 2 powi f64_exponent x"
      using v True by (simp add: power_int_def)
    with fin have "round_float64 (f64_neg x) (m * 10 ^ nat e) 1 = Some x"
      by (intro round_float64_exact) (use m in simp_all)
    then show ?thesis using True by (simp add: strconv_ParseFloat_def dp neg)
  next
    case False
    have "real_of_int m / real_of_int (10 ^ nat (- e)) =
          real_of_int (f64_mantissa x) * 2 powi f64_exponent x"
      using v False by (simp add: power_int_def field_simps power_inverse)
    with fin have "round_float64 (f64_neg x) m (10 ^ nat (- e)) = Some x"
      by (intro round_float64_exact) (use m in simp_all)
    then show ?thesis using False by (simp add: strconv_ParseFloat_def dp neg)
  qed
qed

lemma series_literals:
  "number_len ''1.5'' = Some (length ''1.5'')" "decimal_parts ''1.5'' = (False, 15, - 1)"
  "number_len ''0.25'' = Some (length ''0.25'')" "decimal_parts ''0.25'' = (False, 25, - 2)"
  "number_len ''123'' = Some (length ''123'')" "decimal_parts ''123'' = (False, 123, 0)"
  "number_len ''-0'' = Some (length ''-0'')" "decimal_parts ''-0'' = (True, 0, 0)"
  "number_len ''1e3'' = Some (length ''1e3'')" "decimal_parts ''1e3'' = (False, 1, 3)"
  by code_simp+

lemma series_floats:
  "f64_finite 0x3FF8000000000000" "f64_neg 0x3FF8000000000000 = False"
  "f64_mantissa 0x3FF8000000000000 = 6755399441055744" "f64_exponent 0x3FF8000000000000 = - 52"
  "f64_finite 0x3FD0000000000000" "f64_neg 0x3FD0000000000000 = False"
  "f64_mantissa 0x3FD0000000000000 = 4503599627370496" "f64_exponent 0x3FD0000000000000 = - 54"
  "f64_finite 0x405EC00000000000" "f64_neg 0x405EC00000000000 = False"
  "f64_mantissa 0x405EC00000000000 = 8655355533852672" "f64_exponent 0x405EC00000000000 = - 46"
  "f64_finite 0x8000000000000000" "f64_neg 0x8000000000000000 = True"
  "f64_mantissa 0x8000000000000000 = 0" "f64_exponent 0x8000000000000000 = - 1074"
  "f64_finite 0x408F400000000000" "f64_neg 0x408F400000000000 = False"
  "f64_mantissa 0x408F400000000000 = 8796093022208000" "f64_exponent 0x408F400000000000 = - 43"
  by code_simp+

lemma series_exact:
  "exact_literal ''1.5'' 0x3FF8000000000000"
  "exact_literal ''0.25'' 0x3FD0000000000000"
  "exact_literal ''123'' 0x405EC00000000000"
  "exact_literal ''-0'' 0x8000000000000000"
  "exact_literal ''1e3'' 0x408F400000000000"
  by (simp_all add: exact_literal_def literal_value_def f64_real_def series_literals
        series_floats power_int_def power_one_over del: length_0_conv)

lemma series_payload:
  "b64_encode (json_series [''1.5'', ''0.25'', ''123'', ''-0'', ''1e3'']) =
   ''W3siZGF0YSI6WzEuNSwwLjI1LDEyMywtMCwxZTNdfV0=''"
  by code_simp

section \<open>The claims\<close>

text \<open>
  Claim C1, as amended. The callback never compares the number of labels with the length
  of the selected series: the labels only have to decode. Whenever both payloads decode,
  the list of series is not empty and no sink call fails, the callback returns normally and
  submits one batch holding exactly as many points as the first series has values,
  whatever the number of labels is.
\<close>

theorem label_count_not_checked:
  assumes "base64_DecodeString (Attr e ''data-labels'') = Inr ld"
    and "Unmarshal_ints ld = Inr labels"
    and "base64_DecodeString (Attr e ''data-datasets'') = Inr pd"
    and "Unmarshal_Timpris pd = Inr (p # ps)"
    and "cooperative w"
  shows "snd (handler v w e) = Returned \<and>
         (\<exists>b. CallWrite b \<in> set (fst (handler v w e)) \<and>
              length (bp_points b) = length (Data p))"
proof -
  let ?b = "\<lparr>bp_database = GetString v ''InfluxDB'', bp_precision = ''h'',
             bp_points = map (\<lambda>i. mkPoint w (Time_Date (Now w) (Local w)) (int i) (Data p ! i))
                           [0..<length (Data p)]\<rparr>"
  have "snd (handler v w e) = Returned"
    unfolding handler_cooperative [OF assms] by simp
  moreover have "CallWrite ?b \<in> set (fst (handler v w e))"
    unfolding handler_cooperative [OF assms] by simp
  moreover have "length (bp_points ?b) = length (Data p)" by simp
  ultimately show ?thesis by blast
qed

theorem label_count_not_checked_witness:
  "length [0::int] \<noteq> length (Data demo_series) \<and>
   snd (handler (demo_viper []) demo_world (demo_canvas ''WzBd'' demo_datasets)) = Returned \<and>
   (\<exists>b. CallWrite b \<in> set (fst (handler (demo_viper []) demo_world (demo_canvas ''WzBd'' demo_datasets))) \<and>
        length (bp_points b) = length (Data demo_series))"
proof -
  have l: "base64_DecodeString (Attr (demo_canvas ''WzBd'' demo_datasets) ''data-labels'') = Inr ''[0]''"
    by (simp only: Attr_demo_canvas short_labels_base64)
  have d: "base64_DecodeString (Attr (demo_canvas ''WzBd'' demo_datasets) ''data-datasets'')
             = Inr ''[{\"label\":\"SE3\",\"data\":[1.23,1.999]}]''"
    by (simp only: Attr_demo_canvas demo_datasets_base64)
  have "length [0::int] \<noteq> length (Data demo_series)"
    by (simp add: demo_series_def)
  then show ?thesis
    using label_count_not_checked [OF l short_labels_json d demo_datasets_json demo_cooperative,
        of "demo_viper []"]
    by blast
qed

theorem shape_mismatch_counterexample:
  "base64_DecodeString (Attr (demo_canvas ''WzBd'' demo_datasets) ''data-labels'') = Inr ''[0]'' \<and>
   Unmarshal_ints ''[0]'' = Inr [0] \<and>
   base64_DecodeString (Attr (demo_canvas ''WzBd'' demo_datasets) ''data-datasets'')
     = Inr ''[{\"label\":\"SE3\",\"data\":[1.23,1.999]}]'' \<and>
   Unmarshal_Timpris ''[{\"label\":\"SE3\",\"data\":[1.23,1.999]}]'' = Inr [demo_series] \<and>
   length [0::int] = 1 \<and> length (Data demo_series) = 2 \<and>
   handler (demo_viper []) demo_world (demo_canvas ''WzBd'' demo_datasets) =
     ([CallNewHTTPClient ''http://localhost:8086'' [] [],
       CallWrite \<lparr>bp_database = ''power'', bp_precision = ''h'',
         bp_points =
           [\<lparr>pt_name = ''powerprices'', pt_tags = [(''hour'', ''0''), (''area'', ''SE3'')],
             pt_fields = [(''value'', 0x3FF3AE147AE147AE)], pt_time = 1714514400\<rparr>,
            \<lparr>pt_name = ''powerprices'', pt_tags = [(''hour'', ''1''), (''area'', ''SE3'')],
             pt_fields = [(''value'', 0x3FFFFBE76C8B4396)], pt_time = 1714518000\<rparr>]\<rparr>,
       CallClientClose],
      Returned)"
proof -
  have "handler (demo_viper []) demo_world (demo_canvas ''WzBd'' demo_datasets) =
     ([CallNewHTTPClient ''http://localhost:8086'' [] [],
       CallWrite \<lparr>bp_database = ''power'', bp_precision = ''h'',
         bp_points =
           [\<lparr>pt_name = ''powerprices'', pt_tags = [(''hour'', ''0''), (''area'', ''SE3'')],
             pt_fields = [(''value'', 0x3FF3AE147AE147AE)], pt_time = 1714514400\<rparr>,
            \<lparr>pt_name = ''powerprices'', pt_tags = [(''hour'', ''1''), (''area'', ''SE3'')],
             pt_fields = [(''value'', 0x3FFFFBE76C8B4396)], pt_time = 1714518000\<rparr>]\<rparr>,
       CallClientClose],
      Returned)"
    using demo_handler [OF short_labels_base64 short_labels_json, of "[]"] by simp
  moreover have "length (Data demo_series) = 2" by (simp add: demo_series_def)
  ultimately show ?thesis
    by (simp only: Attr_demo_canvas short_labels_base64 short_labels_json demo_datasets_base64
          demo_datasets_json) simp
qed

text \<open>
  Claim C2. When both payloads decode, the first series has \<open>N\<close> values and no sink
  call fails, the batch that the callback writes holds exactly \<open>N\<close> points, in the order
  of the values. The point at index \<open>i\<close> has the measurement name \<open>powerprices\<close>, the tag
  \<open>hour\<close> equal to the decimal numeral of \<open>i\<close> (whose value is \<open>i\<close>), the tag \<open>area\<close>
  equal to \<open>SE3\<close>, the single field \<open>value\<close> equal to the \<open>i\<close>-th value, and the
  timestamp \<open>time.Date(year, month, day, i, 0, 0, 0, Local)\<close>, where year, month and day
  are the local date of the run. When the local zone has one offset throughout, that
  timestamp is \<open>i\<close> hours after the local midnight of that date.
\<close>

theorem points_built_per_hour:
  assumes "base64_DecodeString (Attr e ''data-labels'') = Inr ld"
    and "Unmarshal_ints ld = Inr labels"
    and "base64_DecodeString (Attr e ''data-datasets'') = Inr pd"
    and "Unmarshal_Timpris pd = Inr (p # ps)"
    and "cooperative w"
    and "Time_Date (Now w) (Local w) = (year, month, day)"
  shows "\<exists>b. CallWrite b \<in> set (fst (handler v w e)) \<and>
           length (bp_points b) = length (Data p) \<and>
           bp_points b =
             map (\<lambda>i. \<lparr>pt_name = ''powerprices'',
                        pt_tags = [(''hour'', Sprintf_d (int i)), (''area'', ''SE3'')],
                        pt_fields = [(''value'', Data p ! i)],
                        pt_time = time_Date year month day (int i) 0 0 0 (Local w)\<rparr>)
               [0..<length (Data p)] \<and>
           (\<forall>i. digits_val (Sprintf_d (int i)) = int i) \<and>
           ((\<forall>t. fst (Local w t) = off) \<longrightarrow>
            (\<forall>i. time_Date year month day (int i) 0 0 0 (Local w) =
                   time_Date year month day 0 0 0 0 (Local w) + 3600 * int i))"
proof -
  let ?b = "\<lparr>bp_database = GetString v ''InfluxDB'', bp_precision = ''h'',
             bp_points = map (\<lambda>i. mkPoint w (year, month, day) (int i) (Data p ! i))
                           [0..<length (Data p)]\<rparr>"
  have "CallWrite ?b \<in> set (fst (handler v w e))"
    unfolding handler_cooperative [OF assms(1-5)] assms(6) by simp
  moreover have "bp_points ?b =
      map (\<lambda>i. \<lparr>pt_name = ''powerprices'',
                 pt_tags = [(''hour'', Sprintf_d (int i)), (''area'', ''SE3'')],
                 pt_fields = [(''value'', Data p ! i)],
                 pt_time = time_Date year month day (int i) 0 0 0 (Local w)\<rparr>)
        [0..<length (Data p)]"
    by (simp add: mkPoint_def)
  moreover have "length (bp_points ?b) = length (Data p)" by simp
  moreover have "\<forall>i. digits_val (Sprintf_d (int i)) = int i"
    by (simp add: Sprintf_d_def digits_val_decimal)
  moreover have "(\<forall>t. fst (Local w t) = off) \<longrightarrow>
            (\<forall>i. time_Date year month day (int i) 0 0 0 (Local w) =
                   time_Date year month day 0 0 0 0 (Local w) + 3600 * int i)"
    using time_Date_fixed_offset [of "Local w" off year month day] by blast
  ultimately show ?thesis by blast
qed

theorem points_built_per_hour_witness:
  "\<exists>b. CallWrite b \<in> set (fst (handler (demo_viper []) demo_world (demo_canvas demo_labels demo_datasets))) \<and>
       bp_points b =
         [\<lparr>pt_name = ''powerprices'', pt_tags = [(''hour'', ''0''), (''area'', ''SE3'')],
           pt_fields = [(''value'', 0x3FF3AE147AE147AE)], pt_time = 1714514400\<rparr>,
          \<lparr>pt_name = ''powerprices'', pt_tags = [(''hour'', ''1''), (''area'', ''SE3'')],
           pt_fields = [(''value'', 0x3FFFFBE76C8B4396)], pt_time = 1714518000\<rparr>] \<and>
       time_Date 2024 5 1 1 0 0 0 (Local demo_world) =
         time_Date 2024 5 1 0 0 0 0 (Local demo_world) + 3600"
proof -
  have l: "base64_DecodeString (Attr (demo_canvas demo_labels demo_datasets) ''data-labels'') = Inr ''[0,1]''"
    by (simp only: Attr_demo_canvas demo_labels_base64)
  have d: "base64_DecodeString (Attr (demo_canvas demo_labels demo_datasets) ''data-datasets'')
             = Inr ''[{\"label\":\"SE3\",\"data\":[1.23,1.999]}]''"
    by (simp only: Attr_demo_canvas demo_datasets_base64)
  note inst = points_built_per_hour [OF l demo_labels_json d demo_datasets_json demo_cooperative
      demo_date, where v = "demo_viper []" and off = 7200]
  have z: "\<forall>t. fst (Local demo_world t) = 7200"
    by (simp add: demo_world_def fixed_zone_def)
  from inst have "(\<forall>t. fst (Local demo_world t) = 7200) \<longrightarrow>
      (\<forall>i. time_Date 2024 5 1 (int i) 0 0 0 (Local demo_world) =
             time_Date 2024 5 1 0 0 0 0 (Local demo_world) + 3600 * int i)"
    by blast
  with z have "time_Date 2024 5 1 (int 1) 0 0 0 (Local demo_world) =
             time_Date 2024 5 1 0 0 0 0 (Local demo_world) + 3600 * int 1"
    by blast
  then have h: "time_Date 2024 5 1 1 0 0 0 (Local demo_world) =
         time_Date 2024 5 1 0 0 0 0 (Local demo_world) + 3600"
    by simp
  from inst obtain b where
    "CallWrite b \<in> set (fst (handler (demo_viper []) demo_world (demo_canvas demo_labels demo_datasets)))"
    and "bp_points b =
           map (\<lambda>i. \<lparr>pt_name = ''powerprices'',
                      pt_tags = [(''hour'', Sprintf_d (int i)), (''area'', ''SE3'')],
                      pt_fields = [(''value'', Data demo_series ! i)],
                      pt_time = time_Date 2024 5 1 (int i) 0 0 0 (Local demo_world)\<rparr>)
             [0..<length (Data demo_series)]"
    by blast
  moreover have
    "map (\<lambda>i. \<lparr>pt_name = ''powerprices'',
                pt_tags = [(''hour'', Sprintf_d (int i)), (''area'', ''SE3'')],
                pt_fields = [(''value'', Data demo_series ! i)],
                pt_time = time_Date 2024 5 1 (int i) 0 0 0 (Local demo_world)\<rparr>)
       [0..<length (Data demo_series)] =
     [\<lparr>pt_name = ''powerprices'', pt_tags = [(''hour'', ''0''), (''area'', ''SE3'')],
       pt_fields = [(''value'', 0x3FF3AE147AE147AE)], pt_time = 1714514400\<rparr>,
      \<lparr>pt_name = ''powerprices'', pt_tags = [(''hour'', ''1''), (''area'', ''SE3'')],
       pt_fields = [(''value'', 0x3FFFFBE76C8B4396)], pt_time = 1714518000\<rparr>]"
    by (simp add: demo_series_def numeral_2_eq_2 demo_time_0 demo_time_1 demo_hour_tags)
  ultimately show ?thesis using h by auto
qed

text \<open>
  Claim C3. Every row that the callback inserts belongs to an index \<open>i\<close> of the first
  series, and its price column is \<open>int(price*100)\<close>: the \<open>float64\<close> product of the
  \<open>i\<close>-th value and 100, converted to \<open>int\<close>. Whenever the product is finite and its
  integer part fits 64 bits, the conversion is the truncation of the product's value
  towards zero. The literal \<open>1.23\<close> is stored as 123 and the literal \<open>1.999\<close> as 199.
\<close>

theorem price_stored_as_truncated_cents:
  assumes "base64_DecodeString (Attr e ''data-datasets'') = Inr pd"
    and "Unmarshal_Timpris pd = Inr prices"
    and "CallExec row \<in> set (fst (handler v w e))"
  shows "(\<exists>p ps i. prices = p # ps \<and> i < length (Data p) \<and> length row = 7 \<and>
            row ! 3 = SqlInt (int i) \<and>
            row ! 6 = SqlInt (float64_to_int (int_impl w) (f64_mul (Data p ! i) f64_100))) \<and>
         (\<forall>impl x. f64_finite x \<and> - (2 ^ 63) \<le> f64_trunc x \<and> f64_trunc x < 2 ^ 63 \<longrightarrow>
            float64_to_int impl x =
              (if f64_real x < 0 then \<lceil>f64_real x\<rceil> else \<lfloor>f64_real x\<rfloor>)) \<and>
         strconv_ParseFloat ''1.23'' = Some 0x3FF3AE147AE147AE \<and>
         (\<forall>impl. float64_to_int impl (f64_mul 0x3FF3AE147AE147AE f64_100) = 123) \<and>
         strconv_ParseFloat ''1.999'' = Some 0x3FFFFBE76C8B4396 \<and>
         (\<forall>impl. float64_to_int impl (f64_mul 0x3FFFFBE76C8B4396 f64_100) = 199)"
proof -
  from handler_events [OF assms(3)] obtain prices' pd' where
    "base64_DecodeString (Attr e ''data-datasets'') = Inr pd'"
    "Unmarshal_Timpris pd' = Inr prices'"
    "CallExec row \<in> set (fst (with_client v w prices'))" by blast
  with assms(1,2) have "CallExec row \<in> set (fst (with_client v w prices))" by simp
  from with_client_events [OF this] have "CallExec row \<in> set (fst (with_db v w prices))" by simp
  from with_db_events [OF this] obtain p ps i where
    r: "prices = p # ps" "i < length (Data p)"
       "row = mkRow w (Time_Date (Now w) (Local w)) (int i) (Data p ! i)"
    by auto
  have "length row = 7 \<and> row ! 3 = SqlInt (int i) \<and>
        row ! 6 = SqlInt (float64_to_int (int_impl w) (f64_mul (Data p ! i) f64_100))"
    unfolding r(3) by (simp add: mkRow_def split: prod.splits)
  with r have first: "\<exists>p ps i. prices = p # ps \<and> i < length (Data p) \<and> length row = 7 \<and>
            row ! 3 = SqlInt (int i) \<and>
            row ! 6 = SqlInt (float64_to_int (int_impl w) (f64_mul (Data p ! i) f64_100))"
    by blast
  have second: "\<forall>impl x. f64_finite x \<and> - (2 ^ 63) \<le> f64_trunc x \<and> f64_trunc x < 2 ^ 63 \<longrightarrow>
            float64_to_int impl x =
              (if f64_real x < 0 then \<lceil>f64_real x\<rceil> else \<lfloor>f64_real x\<rfloor>)"
    using f64_trunc_towards_zero by (simp add: float64_to_int_def)
  have p1: "strconv_ParseFloat ''1.23'' = Some 0x3FF3AE147AE147AE" by code_simp
  have p2: "strconv_ParseFloat ''1.999'' = Some 0x3FFFFBE76C8B4396" by code_simp
  show ?thesis
    using first second p1 p2 demo_cents_0 demo_cents_1 by blast
qed

theorem price_stored_as_truncated_cents_witness:
  "CallExec [SqlInt 2024, SqlInt 5, SqlInt 1, SqlInt 1,
             SqlString ''2024-04-30 23:00:00'', SqlString ''SE3'', SqlInt 199]
     \<in> set (fst (handler (demo_viper ''timpris@/power'') demo_world
                   (demo_canvas demo_labels demo_datasets))) \<and>
   (\<exists>i<length (Data demo_series).
      SqlInt 199 = SqlInt (float64_to_int (int_impl demo_world) (f64_mul (Data demo_series ! i) f64_100))) \<and>
   f64_mul 0x3FFFFBE76C8B4396 f64_100 = 0x4068FCCCCCCCCCCD \<and>
   f64_real 0x4068FCCCCCCCCCCD = 7033355980557517 / 35184372088832 \<and>
   float64_to_int (int_impl demo_world) 0x4068FCCCCCCCCCCD = \<lfloor>f64_real 0x4068FCCCCCCCCCCD\<rfloor> \<and>
   \<lfloor>f64_real 0x4068FCCCCCCCCCCD\<rfloor> = 199"
proof -
  let ?e = "demo_canvas demo_labels demo_datasets"
  let ?v = "demo_viper ''timpris@/power''"
  let ?row = "[SqlInt 2024, SqlInt 5, SqlInt 1, SqlInt 1,
             SqlString ''2024-04-30 23:00:00'', SqlString ''SE3'', SqlInt 199]"
  have d: "base64_DecodeString (Attr ?e ''data-datasets'')
             = Inr ''[{\"label\":\"SE3\",\"data\":[1.23,1.999]}]''"
    by (simp only: Attr_demo_canvas demo_datasets_base64)
  have m: "CallExec ?row \<in> set (fst (handler ?v demo_world ?e))"
    using demo_handler [OF demo_labels_base64 demo_labels_json, of "''timpris@/power''"] by simp
  note inst = price_stored_as_truncated_cents [OF d demo_datasets_json m]
  from inst obtain p ps i where
    "[demo_series] = p # ps" "i < length (Data p)"
    "?row ! 6 = SqlInt (float64_to_int (int_impl demo_world) (f64_mul (Data p ! i) f64_100))"
    by blast
  then have ex: "\<exists>i<length (Data demo_series).
      SqlInt 199 = SqlInt (float64_to_int (int_impl demo_world) (f64_mul (Data demo_series ! i) f64_100))"
    by auto
  have nonneg: "\<not> f64_real 0x4068FCCCCCCCCCCD < 0"
    by (simp add: demo_product_real)
  from inst have "f64_finite 0x4068FCCCCCCCCCCD \<and> - (2 ^ 63) \<le> f64_trunc 0x4068FCCCCCCCCCCD \<and>
      f64_trunc 0x4068FCCCCCCCCCCD < 2 ^ 63 \<longrightarrow>
      float64_to_int (int_impl demo_world) 0x4068FCCCCCCCCCCD =
        (if f64_real 0x4068FCCCCCCCCCCD < 0 then \<lceil>f64_real 0x4068FCCCCCCCCCCD\<rceil>
         else \<lfloor>f64_real 0x4068FCCCCCCCCCCD\<rfloor>)"
    by blast
  then have fl: "float64_to_int (int_impl demo_world) 0x4068FCCCCCCCCCCD = \<lfloor>f64_real 0x4068FCCCCCCCCCCD\<rfloor>"
    using nonneg by (simp add: demo_product_parts)
  have "float64_to_int (int_impl demo_world) 0x4068FCCCCCCCCCCD = 199"
    using demo_cents_1 [of "int_impl demo_world"] by (simp add: demo_product)
  with fl have "\<lfloor>f64_real 0x4068FCCCCCCCCCCD\<rfloor> = 199" by simp
  with m ex fl demo_product demo_product_real show ?thesis by blast
qed

text \<open>
  Claim C4. With an empty \<open>MariaDSN\<close> the callback makes no call that concerns the
  relational store. With a non-empty \<open>MariaDSN\<close> the database handle is opened as soon as
  the payloads decode and the InfluxDB client is created. The inserts that are executed
  are, in every world, the rows of the first values of the series, in order (the first
  failing insert ends them); when no call fails, the relational calls are \<open>sql.Open\<close>, the
  \<open>Prepare\<close> of the insert statement, one \<open>Exec\<close> per value with the columns year, month,
  day (the local date of the run), hour (the index), epoch (the point's time in UTC,
  formatted \<open>2006-01-02 15:04:05\<close>), area \<open>SE3\<close> and price \<open>int(price*100)\<close>, and the two
  deferred \<open>Close\<close> calls.
\<close>

theorem relational_sink_iff_dsn:
  "(GetString v ''MariaDSN'' = [] \<longrightarrow> (\<forall>ev\<in>set (fst (handler v w e)). \<not> relational ev)) \<and>
   (GetString v ''MariaDSN'' \<noteq> [] \<and>
    base64_DecodeString (Attr e ''data-labels'') = Inr ld \<and> Unmarshal_ints ld = Inr labels \<and>
    base64_DecodeString (Attr e ''data-datasets'') = Inr pd \<and> Unmarshal_Timpris pd = Inr prices \<and>
    NewHTTPClient w (GetString v ''InfluxServer'') (GetString v ''InfluxUser'')
      (GetString v ''InfluxPasswd'') = None
    \<longrightarrow> CallOpen ''mysql'' (GetString v ''MariaDSN'') \<in> set (fst (handler v w e))) \<and>
   (base64_DecodeString (Attr e ''data-labels'') = Inr ld \<and> Unmarshal_ints ld = Inr labels \<and>
    base64_DecodeString (Attr e ''data-datasets'') = Inr pd \<and>
    Unmarshal_Timpris pd = Inr (p # ps) \<and>
    Time_Date (Now w) (Local w) = (year, month, day)
    \<longrightarrow> (\<exists>k\<le>length (Data p).
           filter is_exec (fst (handler v w e)) =
             map (\<lambda>i. CallExec
                         [SqlInt year, SqlInt month, SqlInt day, SqlInt (int i),
                          SqlString (UTC_Format (time_Date year month day (int i) 0 0 0 (Local w))),
                          SqlString ''SE3'',
                          SqlInt (float64_to_int (int_impl w) (f64_mul (Data p ! i) f64_100))])
               [0..<k])) \<and>
   (GetString v ''MariaDSN'' \<noteq> [] \<and>
    base64_DecodeString (Attr e ''data-labels'') = Inr ld \<and> Unmarshal_ints ld = Inr labels \<and>
    base64_DecodeString (Attr e ''data-datasets'') = Inr pd \<and>
    Unmarshal_Timpris pd = Inr (p # ps) \<and> cooperative w \<and>
    Time_Date (Now w) (Local w) = (year, month, day)
    \<longrightarrow> filter relational (fst (handler v w e)) =
          CallOpen ''mysql'' (GetString v ''MariaDSN'') #
          CallPrepare ''INSERT INTO pricesbyhour(year,month,day,hour,epoch,area,price) VALUES( ?, ?, ?, ?, ?, ?, ? )'' #
          map (\<lambda>i. CallExec
                      [SqlInt year, SqlInt month, SqlInt day, SqlInt (int i),
                       SqlString (UTC_Format (time_Date year month day (int i) 0 0 0 (Local w))),
                       SqlString ''SE3'',
                       SqlInt (float64_to_int (int_impl w) (f64_mul (Data p ! i) f64_100))])
            [0..<length (Data p)]
          @ [CallStmtClose, CallDbClose])"
proof (intro conjI impI)
  assume dsn: "GetString v ''MariaDSN'' = []"
  show "\<forall>ev\<in>set (fst (handler v w e)). \<not> relational ev"
  proof
    fix ev assume "ev \<in> set (fst (handler v w e))"
    from handler_events [OF this] obtain prices' where
      "ev \<in> set (fst (with_client v w prices'))" by blast
    from with_client_events [OF this]
    have "\<not> relational ev \<or> ev \<in> set (fst (with_db v w prices'))" by auto
    then show "\<not> relational ev"
      using with_db_events [of ev v w prices'] dsn by auto
  qed
next
  assume a: "GetString v ''MariaDSN'' \<noteq> [] \<and>
    base64_DecodeString (Attr e ''data-labels'') = Inr ld \<and> Unmarshal_ints ld = Inr labels \<and>
    base64_DecodeString (Attr e ''data-datasets'') = Inr pd \<and> Unmarshal_Timpris pd = Inr prices \<and>
    NewHTTPClient w (GetString v ''InfluxServer'') (GetString v ''InfluxUser'')
      (GetString v ''InfluxPasswd'') = None"
  then have h: "handler v w e = with_client v w prices"
    using handler_decoded by blast
  show "CallOpen ''mysql'' (GetString v ''MariaDSN'') \<in> set (fst (handler v w e))"
    unfolding h using a with_db_opens [of v w prices]
    by (cases "with_db v w prices") (simp add: with_client_def)
next
  assume a: "base64_DecodeString (Attr e ''data-labels'') = Inr ld \<and> Unmarshal_ints ld = Inr labels \<and>
    base64_DecodeString (Attr e ''data-datasets'') = Inr pd \<and>
    Unmarshal_Timpris pd = Inr (p # ps) \<and>
    Time_Date (Now w) (Local w) = (year, month, day)"
  then have h: "handler v w e = with_client v w (p # ps)"
    using handler_decoded by blast
  from with_client_exec_prefix [of p v w ps] obtain k where
    "k \<le> length (Data p)"
    "filter is_exec (fst (with_client v w (p # ps))) =
       map (\<lambda>i. CallExec (mkRow w (Time_Date (Now w) (Local w)) (int i) (Data p ! i))) [0..<k]"
    by blast
  then have "k \<le> length (Data p) \<and>
           filter is_exec (fst (handler v w e)) =
             map (\<lambda>i. CallExec
                         [SqlInt year, SqlInt month, SqlInt day, SqlInt (int i),
                          SqlString (UTC_Format (time_Date year month day (int i) 0 0 0 (Local w))),
                          SqlString ''SE3'',
                          SqlInt (float64_to_int (int_impl w) (f64_mul (Data p ! i) f64_100))])
               [0..<k]"
    using a by (simp add: h mkRow_def)
  then show "\<exists>k\<le>length (Data p).
           filter is_exec (fst (handler v w e)) =
             map (\<lambda>i. CallExec
                         [SqlInt year, SqlInt month, SqlInt day, SqlInt (int i),
                          SqlString (UTC_Format (time_Date year month day (int i) 0 0 0 (Local w))),
                          SqlString ''SE3'',
                          SqlInt (float64_to_int (int_impl w) (f64_mul (Data p ! i) f64_100))])
               [0..<k]"
    by blast
next
  assume a: "GetString v ''MariaDSN'' \<noteq> [] \<and>
    base64_DecodeString (Attr e ''data-labels'') = Inr ld \<and> Unmarshal_ints ld = Inr labels \<and>
    base64_DecodeString (Attr e ''data-datasets'') = Inr pd \<and>
    Unmarshal_Timpris pd = Inr (p # ps) \<and> cooperative w \<and>
    Time_Date (Now w) (Local w) = (year, month, day)"
  then have h: "handler v w e =
           (CallNewHTTPClient (GetString v ''InfluxServer'') (GetString v ''InfluxUser'')
              (GetString v ''InfluxPasswd'') #
            (if GetString v ''MariaDSN'' \<noteq> []
             then [CallOpen ''mysql'' (GetString v ''MariaDSN''), CallPrepare insert_query] else [])
            @ (if GetString v ''MariaDSN'' \<noteq> []
               then map (\<lambda>i. CallExec (mkRow w (Time_Date (Now w) (Local w)) (int i) (Data p ! i)))
                      [0..<length (Data p)] else [])
            @ [CallWrite \<lparr>bp_database = GetString v ''InfluxDB'', bp_precision = ''h'',
                 bp_points = map (\<lambda>i. mkPoint w (Time_Date (Now w) (Local w)) (int i) (Data p ! i))
                               [0..<length (Data p)]\<rparr>]
            @ (if GetString v ''MariaDSN'' \<noteq> [] then [CallStmtClose, CallDbClose] else [])
            @ [CallClientClose],
            Returned)"
    using handler_cooperative by blast
  show "filter relational (fst (handler v w e)) =
          CallOpen ''mysql'' (GetString v ''MariaDSN'') #
          CallPrepare ''INSERT INTO pricesbyhour(year,month,day,hour,epoch,area,price) VALUES( ?, ?, ?, ?, ?, ?, ? )'' #
          map (\<lambda>i. CallExec
                      [SqlInt year, SqlInt month, SqlInt day, SqlInt (int i),
                       SqlString (UTC_Format (time_Date year month day (int i) 0 0 0 (Local w))),
                       SqlString ''SE3'',
                       SqlInt (float64_to_int (int_impl w) (f64_mul (Data p ! i) f64_100))])
            [0..<length (Data p)]
          @ [CallStmtClose, CallDbClose]"
    unfolding h using a
    by (simp add: filter_map comp_def mkRow_def insert_query_def)
qed

theorem relational_sink_iff_dsn_witness:
  "filter relational
     (fst (handler (demo_viper []) demo_world (demo_canvas demo_labels demo_datasets))) = [] \<and>
   CallOpen ''mysql'' ''timpris@/power''
     \<in> set (fst (handler (demo_viper ''timpris@/power'') demo_world
                   (demo_canvas demo_labels demo_datasets))) \<and>
   (\<exists>k\<le>length (Data demo_series).
      filter is_exec (fst (handler (demo_viper ''timpris@/power'') demo_world
                             (demo_canvas demo_labels demo_datasets))) =
        map (\<lambda>i. CallExec
                    [SqlInt 2024, SqlInt 5, SqlInt 1, SqlInt (int i),
                     SqlString (UTC_Format (time_Date 2024 5 1 (int i) 0 0 0 (Local demo_world))),
                     SqlString ''SE3'',
                     SqlInt (float64_to_int (int_impl demo_world)
                               (f64_mul (Data demo_series ! i) f64_100))])
          [0..<k]) \<and>
   filter relational
     (fst (handler (demo_viper ''timpris@/power'') demo_world
             (demo_canvas demo_labels demo_datasets))) =
     [CallOpen ''mysql'' ''timpris@/power'',
      CallPrepare ''INSERT INTO pricesbyhour(year,month,day,hour,epoch,area,price) VALUES( ?, ?, ?, ?, ?, ?, ? )'',
      CallExec [SqlInt 2024, SqlInt 5, SqlInt 1, SqlInt 0,
                SqlString ''2024-04-30 22:00:00'', SqlString ''SE3'', SqlInt 123],
      CallExec [SqlInt 2024, SqlInt 5, SqlInt 1, SqlInt 1,
                SqlString ''2024-04-30 23:00:00'', SqlString ''SE3'', SqlInt 199],
      CallStmtClose, CallDbClose]"
proof -
  let ?e = "demo_canvas demo_labels demo_datasets"
  let ?v = "demo_viper ''timpris@/power''"
  have l: "base64_DecodeString (Attr ?e ''data-labels'') = Inr ''[0,1]''"
    by (simp only: Attr_demo_canvas demo_labels_base64)
  have d: "base64_DecodeString (Attr ?e ''data-datasets'')
             = Inr ''[{\"label\":\"SE3\",\"data\":[1.23,1.999]}]''"
    by (simp only: Attr_demo_canvas demo_datasets_base64)
  have c: "NewHTTPClient demo_world (GetString ?v ''InfluxServer'') (GetString ?v ''InfluxUser'')
             (GetString ?v ''InfluxPasswd'') = None"
    by (simp add: demo_world_def)
  have n: "GetString ?v ''MariaDSN'' \<noteq> []" "GetString (demo_viper []) ''MariaDSN'' = []"
    by (simp_all add: demo_viper_simps)
  note inst1 = relational_sink_iff_dsn [of "demo_viper []" demo_world ?e]
  note inst2 = relational_sink_iff_dsn [of ?v demo_world ?e "''[0,1]''" "[0, 1]"
      "''[{\"label\":\"SE3\",\"data\":[1.23,1.999]}]''" "[demo_series]" demo_series "[]" 2024 5 1]
  have a: "filter relational (fst (handler (demo_viper []) demo_world ?e)) = []"
    using inst1 n(2) by (simp add: filter_empty_conv)
  have b: "CallOpen ''mysql'' ''timpris@/power'' \<in> set (fst (handler ?v demo_world ?e))"
    using inst2 n(1) l d c demo_labels_json demo_datasets_json by (simp add: demo_viper_simps)
  have k: "\<exists>k\<le>length (Data demo_series).
      filter is_exec (fst (handler ?v demo_world ?e)) =
        map (\<lambda>i. CallExec
                    [SqlInt 2024, SqlInt 5, SqlInt 1, SqlInt (int i),
                     SqlString (UTC_Format (time_Date 2024 5 1 (int i) 0 0 0 (Local demo_world))),
                     SqlString ''SE3'',
                     SqlInt (float64_to_int (int_impl demo_world)
                               (f64_mul (Data demo_series ! i) f64_100))])
          [0..<k]"
    using inst2 l d demo_labels_json demo_datasets_json demo_date by blast
  have "filter relational (fst (handler ?v demo_world ?e)) =
          CallOpen ''mysql'' (GetString ?v ''MariaDSN'') #
          CallPrepare ''INSERT INTO pricesbyhour(year,month,day,hour,epoch,area,price) VALUES( ?, ?, ?, ?, ?, ?, ? )'' #
          map (\<lambda>i. CallExec
                      [SqlInt 2024, SqlInt 5, SqlInt 1, SqlInt (int i),
                       SqlString (UTC_Format (time_Date 2024 5 1 (int i) 0 0 0 (Local demo_world))),
                       SqlString ''SE3'',
                       SqlInt (float64_to_int (int_impl demo_world) (f64_mul (Data demo_series ! i) f64_100))])
            [0..<length (Data demo_series)]
          @ [CallStmtClose, CallDbClose]"
    using inst2 n(1) l d demo_labels_json demo_datasets_json demo_cooperative demo_date by blast
  then have "filter relational (fst (handler ?v demo_world ?e)) =
     [CallOpen ''mysql'' ''timpris@/power'',
      CallPrepare ''INSERT INTO pricesbyhour(year,month,day,hour,epoch,area,price) VALUES( ?, ?, ?, ?, ?, ?, ? )'',
      CallExec [SqlInt 2024, SqlInt 5, SqlInt 1, SqlInt 0,
                SqlString ''2024-04-30 22:00:00'', SqlString ''SE3'', SqlInt 123],
      CallExec [SqlInt 2024, SqlInt 5, SqlInt 1, SqlInt 1,
                SqlString ''2024-04-30 23:00:00'', SqlString ''SE3'', SqlInt 199],
      CallStmtClose, CallDbClose]"
    by (simp add: demo_viper_simps demo_series_def numeral_2_eq_2 demo_time_0 demo_time_1
          demo_epoch_0 demo_epoch_1 demo_cents_0 demo_cents_1)
  with a b k show ?thesis by blast
qed

text \<open>
  Claim C5, as amended. In every run of the callback the relational inserts are executed
  before the time-series batch is written: whenever the batch write occurs in the sequence
  of calls, no insert follows it.
\<close>

theorem inserts_precede_batch_write:
  assumes "fst (handler v w e) = pre @ CallWrite b # post"
  shows "\<forall>r. CallExec r \<notin> set post"
proof
  fix r
  have "sorted (map rank (pre @ CallWrite b # post))"
    using handler_sorted [of v w e] assms by simp
  then have "\<forall>x\<in>set post. 5 \<le> rank x"
    by (simp add: sorted_append)
  then show "CallExec r \<notin> set post" by fastforce
qed

theorem inserts_precede_batch_write_witness:
  "CallExec [SqlInt 2024, SqlInt 5, SqlInt 1, SqlInt 0,
             SqlString ''2024-04-30 22:00:00'', SqlString ''SE3'', SqlInt 123]
     \<in> set (takeWhile (\<lambda>ev. rank ev \<noteq> 5)
              (fst (handler (demo_viper ''timpris@/power'') demo_world
                      (demo_canvas demo_labels demo_datasets)))) \<and>
   (\<forall>r. CallExec r \<notin> set [CallStmtClose, CallDbClose, CallClientClose])"
proof -
  let ?pre = "[CallNewHTTPClient ''http://localhost:8086'' [] [],
       CallOpen ''mysql'' ''timpris@/power'',
       CallPrepare insert_query,
       CallExec [SqlInt 2024, SqlInt 5, SqlInt 1, SqlInt 0,
                 SqlString ''2024-04-30 22:00:00'', SqlString ''SE3'', SqlInt 123],
       CallExec [SqlInt 2024, SqlInt 5, SqlInt 1, SqlInt 1,
                 SqlString ''2024-04-30 23:00:00'', SqlString ''SE3'', SqlInt 199]]"
  let ?b = "\<lparr>bp_database = ''power'', bp_precision = ''h'',
         bp_points =
           [\<lparr>pt_name = ''powerprices'', pt_tags = [(''hour'', ''0''), (''area'', ''SE3'')],
             pt_fields = [(''value'', 0x3FF3AE147AE147AE)], pt_time = 1714514400\<rparr>,
            \<lparr>pt_name = ''powerprices'', pt_tags = [(''hour'', ''1''), (''area'', ''SE3'')],
             pt_fields = [(''value'', 0x3FFFFBE76C8B4396)], pt_time = 1714518000\<rparr>]\<rparr>"
  let ?post = "[CallStmtClose, CallDbClose, CallClientClose]"
  have tr: "fst (handler (demo_viper ''timpris@/power'') demo_world
                  (demo_canvas demo_labels demo_datasets)) = ?pre @ CallWrite ?b # ?post"
    using demo_handler [OF demo_labels_base64 demo_labels_json, of "''timpris@/power''"] by simp
  have "\<forall>r. CallExec r \<notin> set ?post"
    using inserts_precede_batch_write [OF tr] .
  moreover have "takeWhile (\<lambda>ev. rank ev \<noteq> 5) (?pre @ CallWrite ?b # ?post) = ?pre"
    by simp
  ultimately show ?thesis unfolding tr by simp
qed

theorem batch_write_first_counterexample:
  "handler (demo_viper ''timpris@/power'') demo_world (demo_canvas demo_labels demo_datasets) =
     ([CallNewHTTPClient ''http://localhost:8086'' [] [],
       CallOpen ''mysql'' ''timpris@/power'',
       CallPrepare insert_query,
       CallExec [SqlInt 2024, SqlInt 5, SqlInt 1, SqlInt 0,
                 SqlString ''2024-04-30 22:00:00'', SqlString ''SE3'', SqlInt 123],
       CallExec [SqlInt 2024, SqlInt 5, SqlInt 1, SqlInt 1,
                 SqlString ''2024-04-30 23:00:00'', SqlString ''SE3'', SqlInt 199],
       CallWrite \<lparr>bp_database = ''power'', bp_precision = ''h'',
         bp_points =
           [\<lparr>pt_name = ''powerprices'', pt_tags = [(''hour'', ''0''), (''area'', ''SE3'')],
             pt_fields = [(''value'', 0x3FF3AE147AE147AE)], pt_time = 1714514400\<rparr>,
            \<lparr>pt_name = ''powerprices'', pt_tags = [(''hour'', ''1''), (''area'', ''SE3'')],
             pt_fields = [(''value'', 0x3FFFFBE76C8B4396)], pt_time = 1714518000\<rparr>]\<rparr>,
       CallStmtClose, CallDbClose, CallClientClose],
      Returned)"
  using demo_handler [OF demo_labels_base64 demo_labels_json, of "''timpris@/power''"] by simp

text \<open>
  Claim C6, as amended. When the labels payload is not base64 or its bytes are not a JSON
  array of integers, the callback returns normally for that element: it reports no error
  and makes no call, and later canvas elements are still processed. When the labels decode
  and the datasets payload is not base64 or its bytes do not decode to a list of series,
  the callback panics with the decoder's error, again before any call is made. In both
  cases the element contributes no point to any sink.
\<close>

theorem malformed_payloads:
  "((\<exists>err. base64_DecodeString (Attr e ''data-labels'') = Inl err) \<or>
    (\<exists>ld err. base64_DecodeString (Attr e ''data-labels'') = Inr ld \<and>
       Unmarshal_ints ld = Inl err)
    \<longrightarrow> handler v w e = ([], Returned)) \<and>
   (\<forall>ld labels err.
      base64_DecodeString (Attr e ''data-labels'') = Inr ld \<and> Unmarshal_ints ld = Inr labels \<and>
      (base64_DecodeString (Attr e ''data-datasets'') = Inl err \<or>
       (\<exists>pd. base64_DecodeString (Attr e ''data-datasets'') = Inr pd \<and>
          Unmarshal_Timpris pd = Inl err))
      \<longrightarrow> handler v w e = ([], Panicked (PanicError err)))"
  by (auto simp: handler_def)

theorem malformed_payloads_witness:
  "handler (demo_viper ''timpris@/power'') demo_world (demo_canvas ''!!!!'' demo_datasets)
     = ([], Returned) \<and>
   handler (demo_viper ''timpris@/power'') demo_world (demo_canvas ''ew=='' demo_datasets)
     = ([], Returned) \<and>
   handler (demo_viper ''timpris@/power'') demo_world (demo_canvas demo_labels ''!!!!'')
     = ([], Panicked (PanicError CorruptInputError)) \<and>
   handler (demo_viper ''timpris@/power'') demo_world (demo_canvas demo_labels ''ew=='')
     = ([], Panicked (PanicError SyntaxError))"
proof -
  let ?v = "demo_viper ''timpris@/power''"
  have a: "handler ?v demo_world (demo_canvas ''!!!!'' demo_datasets) = ([], Returned)"
    using malformed_payloads [of "demo_canvas ''!!!!'' demo_datasets" ?v demo_world]
    by (simp only: Attr_demo_canvas malformed_base64) blast
  have b: "handler ?v demo_world (demo_canvas ''ew=='' demo_datasets) = ([], Returned)"
    using malformed_payloads [of "demo_canvas ''ew=='' demo_datasets" ?v demo_world]
      brace_base64 brace_labels_json
    by (simp only: Attr_demo_canvas) blast
  have c: "handler ?v demo_world (demo_canvas demo_labels ''!!!!'')
             = ([], Panicked (PanicError CorruptInputError))"
    using malformed_payloads [of "demo_canvas demo_labels ''!!!!''" ?v demo_world]
      demo_labels_base64 demo_labels_json malformed_base64
    by (simp only: Attr_demo_canvas) blast
  have d: "handler ?v demo_world (demo_canvas demo_labels ''ew=='')
             = ([], Panicked (PanicError SyntaxError))"
    using malformed_payloads [of "demo_canvas demo_labels ''ew==''" ?v demo_world]
      demo_labels_base64 demo_labels_json brace_base64 brace_datasets_json
    by (simp only: Attr_demo_canvas) blast
  show ?thesis using a b c d by blast
qed

theorem malformed_labels_counterexample:
  "base64_DecodeString (Attr (demo_canvas ''!!!!'' demo_datasets) ''data-labels'')
     = Inl CorruptInputError \<and>
   handler (demo_viper []) demo_world (demo_canvas ''!!!!'' demo_datasets) = ([], Returned) \<and>
   run (demo_viper []) demo_worlds
       [demo_canvas ''!!!!'' demo_datasets, demo_canvas demo_labels demo_datasets] =
     ([CallNewHTTPClient ''http://localhost:8086'' [] [],
       CallWrite \<lparr>bp_database = ''power'', bp_precision = ''h'',
         bp_points =
           [\<lparr>pt_name = ''powerprices'', pt_tags = [(''hour'', ''0''), (''area'', ''SE3'')],
             pt_fields = [(''value'', 0x3FF3AE147AE147AE)], pt_time = 1714514400\<rparr>,
            \<lparr>pt_name = ''powerprices'', pt_tags = [(''hour'', ''1''), (''area'', ''SE3'')],
             pt_fields = [(''value'', 0x3FFFFBE76C8B4396)], pt_time = 1714518000\<rparr>]\<rparr>,
       CallClientClose],
      Returned)"
proof -
  have g: "handler (demo_viper []) demo_world (demo_canvas demo_labels demo_datasets) =
     ([CallNewHTTPClient ''http://localhost:8086'' [] [],
       CallWrite \<lparr>bp_database = ''power'', bp_precision = ''h'',
         bp_points =
           [\<lparr>pt_name = ''powerprices'', pt_tags = [(''hour'', ''0''), (''area'', ''SE3'')],
             pt_fields = [(''value'', 0x3FF3AE147AE147AE)], pt_time = 1714514400\<rparr>,
            \<lparr>pt_name = ''powerprices'', pt_tags = [(''hour'', ''1''), (''area'', ''SE3'')],
             pt_fields = [(''value'', 0x3FFFFBE76C8B4396)], pt_time = 1714518000\<rparr>]\<rparr>,
       CallClientClose],
      Returned)"
    using demo_handler [OF demo_labels_base64 demo_labels_json, of "[]"] by simp
  show ?thesis
    by (simp add: run_def g demo_handler_skipped demo_viper_simps VERBOSE_DEBUG_def
          Attr_demo_canvas malformed_base64)
qed

text \<open>
  Claim C7, as amended. For a page without a \<open>canvas\<close> element \<open>run\<close> makes no sink call
  and returns normally, without an error. The callback runs for every \<open>canvas\<close> element
  of the page, in document order, as long as no callback panics: the calls of \<open>run\<close> are
  then the calls of all the callbacks, one after the other.
\<close>

theorem every_canvas_visited:
  "run v ws [] =
     ((if VERBOSE_DEBUG \<le> GetInt v ''verbose''
       then [Println ''Visiting https://elen.nu/dagens-spotpris/se3-stockholm/''] else []),
      Returned) \<and>
   ((\<forall>k<length cs. snd (handler v (ws k) (cs ! k)) = Returned) \<longrightarrow>
    run v ws cs =
      ((if VERBOSE_DEBUG \<le> GetInt v ''verbose''
        then [Println ''Visiting https://elen.nu/dagens-spotpris/se3-stockholm/''] else [])
       @ concat (map (\<lambda>k. fst (handler v (ws k) (cs ! k))) [0..<length cs]),
       Returned))"
proof -
  have "run v ws [] =
     ((if VERBOSE_DEBUG \<le> GetInt v ''verbose''
       then [Println ''Visiting https://elen.nu/dagens-spotpris/se3-stockholm/''] else []),
      Returned)"
    by (simp add: run_def)
  moreover have "(\<forall>k<length cs. snd (handler v (ws k) (cs ! k)) = Returned) \<longrightarrow>
    run v ws cs =
      ((if VERBOSE_DEBUG \<le> GetInt v ''verbose''
        then [Println ''Visiting https://elen.nu/dagens-spotpris/se3-stockholm/''] else [])
       @ concat (map (\<lambda>k. fst (handler v (ws k) (cs ! k))) [0..<length cs]),
       Returned)"
  proof
    assume "\<forall>k<length cs. snd (handler v (ws k) (cs ! k)) = Returned"
    then have "visit v ws 0 cs =
      (concat (map (\<lambda>k. fst (handler v (ws (0 + k)) (cs ! k))) [0..<length cs]), Returned)"
      using visit_all_returned [of cs v ws 0] by simp
    then show "run v ws cs =
      ((if VERBOSE_DEBUG \<le> GetInt v ''verbose''
        then [Println ''Visiting https://elen.nu/dagens-spotpris/se3-stockholm/''] else [])
       @ concat (map (\<lambda>k. fst (handler v (ws k) (cs ! k))) [0..<length cs]),
       Returned)"
      by (simp add: run_def)
  qed
  ultimately show ?thesis by blast
qed

theorem every_canvas_visited_witness:
  "run (demo_viper ''timpris@/power'') demo_worlds
       [demo_canvas ''!!!!'' demo_datasets, demo_canvas demo_labels demo_datasets] =
     (fst (handler (demo_viper ''timpris@/power'') demo_world (demo_canvas ''!!!!'' demo_datasets)) @
      fst (handler (demo_viper ''timpris@/power'') demo_world (demo_canvas demo_labels demo_datasets)),
      Returned)"
proof -
  let ?v = "demo_viper ''timpris@/power''"
  let ?cs = "[demo_canvas ''!!!!'' demo_datasets, demo_canvas demo_labels demo_datasets]"
  have r0: "snd (handler ?v demo_world (demo_canvas ''!!!!'' demo_datasets)) = Returned"
    by (simp add: demo_handler_skipped)
  have r1: "snd (handler ?v demo_world (demo_canvas demo_labels demo_datasets)) = Returned"
    using demo_handler [OF demo_labels_base64 demo_labels_json, of "''timpris@/power''"] by simp
  have "\<forall>k<length ?cs. snd (handler ?v demo_world (?cs ! k)) = Returned"
    using r0 r1 by (simp add: less_Suc_eq numeral_2_eq_2)
  then show ?thesis
    using every_canvas_visited [of ?v demo_worlds ?cs]
    by (simp add: demo_viper_simps VERBOSE_DEBUG_def numeral_2_eq_2)
qed

theorem chart_not_found_counterexample:
  "run (demo_viper []) demo_worlds [] = ([], Returned) \<and>
   run (demo_viper []) demo_worlds
       [demo_canvas demo_labels demo_datasets, demo_canvas ''WzBd'' demo_datasets] =
     ([CallNewHTTPClient ''http://localhost:8086'' [] [],
       CallWrite \<lparr>bp_database = ''power'', bp_precision = ''h'',
         bp_points =
           [\<lparr>pt_name = ''powerprices'', pt_tags = [(''hour'', ''0''), (''area'', ''SE3'')],
             pt_fields = [(''value'', 0x3FF3AE147AE147AE)], pt_time = 1714514400\<rparr>,
            \<lparr>pt_name = ''powerprices'', pt_tags = [(''hour'', ''1''), (''area'', ''SE3'')],
             pt_fields = [(''value'', 0x3FFFFBE76C8B4396)], pt_time = 1714518000\<rparr>]\<rparr>,
       CallClientClose,
       CallNewHTTPClient ''http://localhost:8086'' [] [],
       CallWrite \<lparr>bp_database = ''power'', bp_precision = ''h'',
         bp_points =
           [\<lparr>pt_name = ''powerprices'', pt_tags = [(''hour'', ''0''), (''area'', ''SE3'')],
             pt_fields = [(''value'', 0x3FF3AE147AE147AE)], pt_time = 1714514400\<rparr>,
            \<lparr>pt_name = ''powerprices'', pt_tags = [(''hour'', ''1''), (''area'', ''SE3'')],
             pt_fields = [(''value'', 0x3FFFFBE76C8B4396)], pt_time = 1714518000\<rparr>]\<rparr>,
       CallClientClose],
      Returned)"
  by (simp add: run_def demo_viper_simps VERBOSE_DEBUG_def
        demo_handler [OF demo_labels_base64 demo_labels_json, of "[]"]
        demo_handler [OF short_labels_base64 short_labels_json, of "[]"])

text \<open>
  Claim C8. Let a series of prices \<open>x1, ..., xn\<close> be written as the JSON text
  \<open>[{"data":[l1,...,ln]}]\<close>, every \<open>li\<close> a number literal that stands for \<open>xi\<close>
  without loss of precision, and let that text be encoded in base64. The two decoding
  steps that the callback applies to the datasets payload give the series back:
  \<open>base64.StdEncoding.DecodeString\<close> returns the JSON text, and \<open>json.Unmarshal\<close>
  returns one \<open>Timpris\<close> whose \<open>Data\<close> is \<open>x1, ..., xn\<close>, bit for bit; its other fields
  are zero. The example is the series 1.5, 0.25, 123, -0, 1e3.
\<close>

theorem payload_round_trip:
  assumes "list_all2 exact_literal lits xs"
  shows "base64_DecodeString (b64_encode (json_series lits)) = Inr (json_series lits) \<and>
         Unmarshal_Timpris (json_series lits) = Inr [zeroTimpris\<lparr>Data := xs\<rparr>]"
proof -
  have v: "list_all (\<lambda>l. number_len l = Some (length l)) lits"
    using assms by (induction rule: list_all2_induct) (simp_all add: exact_literal_def)
  have p: "list_all2 (\<lambda>l x. strconv_ParseFloat l = Some x) lits xs"
    using assms by (rule list_all2_mono) (rule strconv_ParseFloat_exact)
  show ?thesis
    using base64_round_trip [of "json_series lits"] Unmarshal_series [OF v p] by simp
qed

theorem payload_round_trip_witness:
  "list_all2 exact_literal [''1.5'', ''0.25'', ''123'', ''-0'', ''1e3'']
     [0x3FF8000000000000, 0x3FD0000000000000, 0x405EC00000000000, 0x8000000000000000,
      0x408F400000000000] \<and>
   b64_encode (json_series [''1.5'', ''0.25'', ''123'', ''-0'', ''1e3'']) =
     ''W3siZGF0YSI6WzEuNSwwLjI1LDEyMywtMCwxZTNdfV0='' \<and>
   base64_DecodeString ''W3siZGF0YSI6WzEuNSwwLjI1LDEyMywtMCwxZTNdfV0='' =
     Inr (json_series [''1.5'', ''0.25'', ''123'', ''-0'', ''1e3'']) \<and>
   Unmarshal_Timpris (json_series [''1.5'', ''0.25'', ''123'', ''-0'', ''1e3'']) =
     Inr [zeroTimpris\<lparr>Data := [0x3FF8000000000000, 0x3FD0000000000000, 0x405EC00000000000,
                                 0x8000000000000000, 0x408F400000000000]\<rparr>]"
proof -
  have e: "list_all2 exact_literal [''1.5'', ''0.25'', ''123'', ''-0'', ''1e3'']
     [0x3FF8000000000000, 0x3FD0000000000000, 0x405EC00000000000, 0x8000000000000000,
      0x408F400000000000]"
    using series_exact by simp
  show ?thesis
    using payload_round_trip [OF e] e by (simp only: series_payload simp_thms)
qed

text \<open>
  Claim C9. When the labels decode and the datasets payload decodes to an empty list of
  series (the JSON text \<open>[]\<close> does), the callback never returns normally: it panics, and
  it neither inserts a row nor writes a batch. When the client, the optional database
  handle and the batch are set up without error, the panic is the run-time error of
  \<open>prices[0]\<close>, index 0 out of range with length 0; no error value is returned.
\<close>

theorem empty_series_panics:
  assumes "base64_DecodeString (Attr e ''data-labels'') = Inr ld"
    and "Unmarshal_ints ld = Inr labels"
    and "base64_DecodeString (Attr e ''data-datasets'') = Inr pd"
    and "Unmarshal_Timpris pd = Inr []"
  shows "(\<exists>pv. snd (handler v w e) = Panicked pv) \<and>
         (\<forall>ev\<in>set (fst (handler v w e)). (\<forall>r. ev \<noteq> CallExec r) \<and> (\<forall>b. ev \<noteq> CallWrite b)) \<and>
         (NewHTTPClient w (GetString v ''InfluxServer'') (GetString v ''InfluxUser'')
             (GetString v ''InfluxPasswd'') = None \<and>
          (GetString v ''MariaDSN'' = [] \<or>
           (sql_Open w ''mysql'' (GetString v ''MariaDSN'') = None \<and>
            db_Prepare w insert_query = None)) \<and>
          NewBatchPoints w (GetString v ''InfluxDB'') ''h'' = None
          \<longrightarrow> snd (handler v w e) = Panicked (IndexOutOfRange 0 0)) \<and>
         Unmarshal_Timpris ''[]'' = Inr []"
proof -
  have h: "handler v w e = with_client v w []"
    using handler_decoded [OF assms] .
  have j: "Unmarshal_Timpris ''[]'' = Inr []"
    by code_simp
  show ?thesis
    unfolding h using with_client_empty [of v w] with_client_empty_index [of w v] j by blast
qed

theorem empty_series_panics_witness:
  "handler (demo_viper []) demo_world (demo_canvas demo_labels ''W10='') =
     ([CallNewHTTPClient ''http://localhost:8086'' [] [], CallClientClose],
      Panicked (IndexOutOfRange 0 0))"
proof -
  have l: "base64_DecodeString (Attr (demo_canvas demo_labels ''W10='') ''data-labels'') = Inr ''[0,1]''"
    by (simp only: Attr_demo_canvas demo_labels_base64)
  have d: "base64_DecodeString (Attr (demo_canvas demo_labels ''W10='') ''data-datasets'') = Inr ''[]''"
    by (simp only: Attr_demo_canvas empty_datasets_base64)
  have "snd (handler (demo_viper []) demo_world (demo_canvas demo_labels ''W10='')) = Panicked (IndexOutOfRange 0 0)"
    using empty_series_panics [OF l demo_labels_json d empty_datasets_json, of "demo_viper []" demo_world]
    by (simp add: demo_viper_simps demo_world_def)
  moreover have "fst (handler (demo_viper []) demo_world (demo_canvas demo_labels ''W10='')) =
      [CallNewHTTPClient ''http://localhost:8086'' [] [], CallClientClose]"
    unfolding handler_decoded [OF l demo_labels_json d empty_datasets_json]
    by (simp add: with_client_def with_db_def write_points_empty demo_viper_simps demo_world_def)
  ultimately show ?thesis by (simp add: prod_eq_iff)
qed

text \<open>
  Claim C10. The decoded labels do not influence what the callback does: for two canvas
  elements whose labels payloads both decode (to any integers, of any number) and whose
  datasets payloads are equal, the callback makes the same calls with the same arguments
  and ends in the same way, under the same configuration and in the same world.
\<close>

theorem labels_do_not_influence:
  assumes "base64_DecodeString (Attr e1 ''data-labels'') = Inr ld1"
    and "Unmarshal_ints ld1 = Inr labels1"
    and "base64_DecodeString (Attr e2 ''data-labels'') = Inr ld2"
    and "Unmarshal_ints ld2 = Inr labels2"
    and "Attr e1 ''data-datasets'' = Attr e2 ''data-datasets''"
  shows "handler v w e1 = handler v w e2"
  using assms by (simp add: handler_def)

theorem labels_do_not_influence_witness:
  "handler (demo_viper ''timpris@/power'') demo_world (demo_canvas ''WzBd'' demo_datasets) =
   handler (demo_viper ''timpris@/power'') demo_world (demo_canvas demo_labels demo_datasets)"
proof -
  have l1: "base64_DecodeString (Attr (demo_canvas ''WzBd'' demo_datasets) ''data-labels'') = Inr ''[0]''"
    by (simp only: Attr_demo_canvas short_labels_base64)
  have l2: "base64_DecodeString (Attr (demo_canvas demo_labels demo_datasets) ''data-labels'') = Inr ''[0,1]''"
    by (simp only: Attr_demo_canvas demo_labels_base64)
  have d: "Attr (demo_canvas ''WzBd'' demo_datasets) ''data-datasets'' =
           Attr (demo_canvas demo_labels demo_datasets) ''data-datasets''"
    by (simp only: Attr_demo_canvas)
  show ?thesis
    using labels_do_not_influence [OF l1 short_labels_json l2 demo_labels_json d] .
qed

end
